(* ===== verification/Prelude.thy ===== *)
theory Prelude
  imports Main "HOL-Library.Word"
begin

text \<open>
  What every component of the development shares: the names of the machine types, byte
  and bit accessors on words (a C++ object of \<open>n\<close> bytes is one word of \<open>8 * n\<close> bits,
  byte \<open>i\<close> being bits \<open>8 * i\<close> to \<open>8 * i + 7\<close>, little endian as on the x86-64 host the
  program targets), the interface of a readable and writable field of a state, and the
  two control-flow shapes of the C++ code, \<open>for (...) if (!f(i)) return false;\<close> and
  \<open>if (!f()) return status;\<close>, as combinators on state-passing operations.
\<close>

unbundle bit_operations_syntax

section \<open>Machine types\<close>

type_synonym u8 = "8 word"
type_synonym u16 = "16 word"
type_synonym u32 = "32 word"
type_synonym u64 = "64 word"

section \<open>Bit fields of a word\<close>

text \<open>Bits \<open>off .. off + n - 1\<close> of an object, and the object with these bits replaced.\<close>

definition get_bits :: "nat \<Rightarrow> nat \<Rightarrow> 'a::len word \<Rightarrow> 'b::len word" where
  "get_bits off n d = ucast (take_bit n (drop_bit off d))"

definition put_bits :: "nat \<Rightarrow> nat \<Rightarrow> 'b::len word \<Rightarrow> 'a::len word \<Rightarrow> 'a word" where
  "put_bits off n v d =
     (d AND NOT (push_bit off (mask n))) OR push_bit off (take_bit n (ucast v))"

lemma bit_get_bits [bit_simps]:
  "bit (get_bits off n (d :: 'a::len word) :: 'b::len word) i
     \<longleftrightarrow> i < LENGTH('b) \<and> i < n \<and> bit d (off + i)"
  by (auto simp: get_bits_def bit_simps ac_simps dest: bit_imp_le_length)

lemma bit_put_bits [bit_simps]:
  "bit (put_bits off n (v :: 'b::len word) (d :: 'a::len word)) i
     \<longleftrightarrow> i < LENGTH('a) \<and> (if off \<le> i \<and> i < off + n then bit v (i - off) else bit d i)"
  by (auto simp: put_bits_def bit_simps dest: bit_imp_le_length)

lemma get_put_bits:
  "off + n \<le> LENGTH('a) \<Longrightarrow>
   get_bits off n (put_bits off n (v :: 'b::len word) (d :: 'a::len word)) = take_bit n v"
  by (rule bit_word_eqI) (auto simp: bit_simps)

lemma put_get_bits:
  "n \<le> LENGTH('b) \<Longrightarrow> put_bits off n (get_bits off n d :: 'b::len word) d = (d :: 'a::len word)"
  by (rule bit_word_eqI) (auto simp: bit_simps)

lemma put_put_bits:
  "put_bits off n v (put_bits off n u d) = put_bits off n v (d :: 'a::len word)"
  by (rule bit_word_eqI) (auto simp: bit_simps)

text \<open>Writing one bit range leaves a disjoint one as it is.\<close>

lemma get_put_bits_other:
  "off + n \<le> off' \<or> off' + n' \<le> off \<Longrightarrow>
   get_bits off n (put_bits off' n' v (d :: 'a::len word)) = (get_bits off n d :: 'b::len word)"
  by (rule bit_word_eqI) (auto simp: bit_simps dest: bit_imp_le_length)

lemma put_bits_swap:
  "off + n \<le> off' \<or> off' + n' \<le> off \<Longrightarrow>
   put_bits off n v (put_bits off' n' u d) = put_bits off' n' u (put_bits off n v (d :: 'a::len word))"
  by (rule bit_word_eqI) (auto simp: bit_simps)

lemma take_bit_64 [simp]: "take_bit 64 (v :: u64) = v"
  by (rule bit_word_eqI) (auto simp: bit_simps)

lemma ucast_u32_u64: "(ucast (ucast (v :: u64) :: u32) :: u64) = take_bit 32 v"
  by (rule bit_word_eqI) (auto simp: bit_simps dest: bit_imp_le_length)

lemma ucast_u16_u64: "(ucast (ucast (v :: u64) :: u16) :: u64) = take_bit 16 v"
  by (rule bit_word_eqI) (auto simp: bit_simps dest: bit_imp_le_length)

lemma unat_take_bit_less: "n < LENGTH('a) \<Longrightarrow> unat (take_bit n (v :: 'a::len word)) < 2 ^ n"
  by (simp add: unsigned_take_bit_eq)

section \<open>Bytes of an object\<close>

fun le_bytes :: "u8 list \<Rightarrow> 'a::len word" where
  "le_bytes [] = 0"
| "le_bytes (b # bs) = ucast b OR push_bit 8 (le_bytes bs)"

definition word_bytes :: "nat \<Rightarrow> 'a::len word \<Rightarrow> u8 list" where
  "word_bytes n d = map (\<lambda>i. get_bits (8 * i) 8 d) [0..<n]"

lemma length_word_bytes [simp]: "length (word_bytes n d) = n"
  by (simp add: word_bytes_def)

lemma bit_le_bytes:
  "bit (le_bytes bs :: 'a::len word) i
     \<longleftrightarrow> i < LENGTH('a) \<and> i < 8 * length bs \<and> bit (bs ! (i div 8)) (i mod 8)"
proof (induction bs arbitrary: i)
  case Nil
  then show ?case by simp
next
  case (Cons b bs)
  show ?case
  proof (cases "i < 8")
    case True
    then show ?thesis by (auto simp: bit_simps)
  next
    case False
    then obtain j where "i = 8 + j" using le_Suc_ex not_le by blast
    moreover have "(8 + j) div 8 = Suc (j div 8)" by simp
    ultimately show ?thesis by (auto simp: bit_simps Cons.IH dest: bit_imp_le_length)
  qed
qed

lemma le_bytes_word_bytes:
  "(le_bytes (word_bytes n (d :: 'a::len word)) :: 'a word) = take_bit (8 * n) d"
  by (rule bit_word_eqI) (auto simp: bit_simps bit_le_bytes word_bytes_def div_less_iff_less_mult ac_simps)

section \<open>A readable and writable field of a state\<close>

text \<open>
  Everything the executor stores (a register slot at some width, a flag, an FPU stack
  slot, the data of a memory operand) is a part of a larger object that is read and
  written on its own. \<open>nrm\<close> is what a value becomes by being stored (truncation to the
  width of the field).
\<close>

locale cell =
  fixes rd :: "'s \<Rightarrow> 'v"
    and wr :: "'v \<Rightarrow> 's \<Rightarrow> 's"
    and nrm :: "'v \<Rightarrow> 'v"
  assumes rd_wr: "rd (wr v s) = nrm v"
    and wr_rd: "wr (rd s) s = s"
    and wr_wr: "wr v (wr u s) = wr v s"
begin

lemma nrm_rd: "nrm (rd s) = rd s"
  by (metis rd_wr wr_rd)

lemma nrm_nrm: "nrm (nrm v) = nrm v"
  using nrm_rd [of "wr v s" for s] by (simp add: rd_wr)

lemma wr_nrm: "wr (nrm v) s = wr v s"
  by (metis rd_wr wr_rd wr_wr)

lemma wr_eq_iff: "wr v s = wr u s \<longleftrightarrow> nrm v = nrm u"
  by (metis rd_wr wr_nrm)

end

text \<open>Two fields of the same state that do not overlap.\<close>

locale cell_pair = a: cell rd1 wr1 nrm1 + b: cell rd2 wr2 nrm2
  for rd1 :: "'s \<Rightarrow> 'v" and wr1 :: "'v \<Rightarrow> 's \<Rightarrow> 's" and nrm1 :: "'v \<Rightarrow> 'v"
    and rd2 :: "'s \<Rightarrow> 'u" and wr2 :: "'u \<Rightarrow> 's \<Rightarrow> 's" and nrm2 :: "'u \<Rightarrow> 'u" +
  assumes wr_swap: "wr1 v (wr2 u s) = wr2 u (wr1 v s)"
begin

lemma rd1_wr2: "rd1 (wr2 u s) = rd1 s"
  by (metis a.nrm_rd a.rd_wr a.wr_rd wr_swap)

lemma rd2_wr1: "rd2 (wr1 v s) = rd2 s"
  by (metis b.nrm_rd b.rd_wr b.wr_rd wr_swap)

lemma rd1_after_both: "rd1 (wr2 u (wr1 v s)) = nrm1 v"
  by (simp add: rd1_wr2 a.rd_wr)

end

section \<open>Loops that stop at the first failure\<close>

text \<open>\<open>for (x : xs) if (!f(x)) return false;  return true;\<close>\<close>

fun each :: "('a \<Rightarrow> 'w \<Rightarrow> bool \<times> 'w) \<Rightarrow> 'a list \<Rightarrow> 'w \<Rightarrow> bool \<times> 'w" where
  "each f [] w = (True, w)"
| "each f (x # xs) w = (case f x w of (ok, w') \<Rightarrow> if ok then each f xs w' else (False, w'))"

text \<open>\<open>return a() && b();\<close>\<close>

definition and_also ::
  "('w \<Rightarrow> bool \<times> 'w) \<Rightarrow> ('w \<Rightarrow> bool \<times> 'w) \<Rightarrow> 'w \<Rightarrow> bool \<times> 'w" where
  "and_also a b w = (case a w of (ok, w') \<Rightarrow> if ok then b w' else (False, w'))"

text \<open>\<open>if (!a()) return err;  ...\<close>, where the rest may have no outcome at all (\<open>None\<close>,
  undefined behaviour of the C++ program).\<close>

definition or_return ::
  "('w \<Rightarrow> bool \<times> 'w) \<Rightarrow> 'e \<Rightarrow> ('w \<Rightarrow> ('e \<times> 'w) option) \<Rightarrow> 'w \<Rightarrow> ('e \<times> 'w) option" where
  "or_return a err k w = (case a w of (ok, w') \<Rightarrow> if ok then k w' else Some (err, w'))"

lemma each_append:
  "each f (xs @ ys) w = and_also (each f xs) (each f ys) w"
  by (induction xs arbitrary: w) (auto simp: and_also_def split: prod.splits)

text \<open>
  A relation that every single call keeps from its entry state to its exit state is kept
  by the loops and sequences of calls.
\<close>

locale step_relation =
  fixes R :: "'w \<Rightarrow> 'w \<Rightarrow> bool"
  assumes R_refl: "R w w"
    and R_trans: "R u v \<Longrightarrow> R v w \<Longrightarrow> R u w"
begin

lemma each_keeps:
  assumes "\<And>x w. x \<in> set xs \<Longrightarrow> R w (snd (f x w))"
  shows "R w (snd (each f xs w))"
  using assms
proof (induction xs arbitrary: w)
  case Nil
  then show ?case by (simp add: R_refl)
next
  case (Cons x xs)
  have "R w (snd (f x w))" by (simp add: Cons.prems)
  moreover have "R (snd (f x w)) (snd (each f xs (snd (f x w))))"
    by (rule Cons.IH) (simp add: Cons.prems)
  ultimately show ?case by (auto split: prod.splits intro: R_trans)
qed

lemma and_also_keeps:
  assumes "R w (snd (a w))" and "\<And>w. R w (snd (b w))"
  shows "R w (snd (and_also a b w))"
  using assms R_trans [OF assms(1) assms(2)]
  by (auto simp: and_also_def split: prod.splits)

lemma or_return_keeps:
  assumes "or_return a err k w = Some (e, w')"
    and "R w (snd (a w))" and "\<And>w. k w = Some (e, w') \<Longrightarrow> R w w'"
  shows "R w w'"
  using assms R_trans
  by (auto simp: or_return_def split: prod.splits if_splits)

end

end
