(* ===== verification/Layout.thy ===== *)
theory Layout
  imports Prelude
begin

text \<open>
  The packed structures and unions of \<open>Executor.h\<close> and the \<open>Flags\<close> union of
  \<open>Executor.cpp\<close>: a layout is the list of the members with their widths in bits, in
  declaration order; members are packed from the least significant bit (byte) up, as the
  \<open>packed\<close> attribute and the little-endian ABI lay them out. The lemmas are the
  \<open>static_assert\<close>s of the header, the disjointness of members, and the fact that both
  FXSAVE images keep the MMX registers at the same place.
\<close>

section \<open>Layouts\<close>

type_synonym layout = "(string \<times> nat) list"

fun layout_width :: "layout \<Rightarrow> nat" where
  "layout_width [] = 0"
| "layout_width ((m, k) # l) = k + layout_width l"

fun field_offset :: "layout \<Rightarrow> string \<Rightarrow> nat" where
  "field_offset [] m = 0"
| "field_offset ((m', k) # l) m = (if m = m' then 0 else k + field_offset l m)"

fun field_width :: "layout \<Rightarrow> string \<Rightarrow> nat" where
  "field_width [] m = 0"
| "field_width ((m', k) # l) m = (if m = m' then k else field_width l m)"

definition get_field :: "layout \<Rightarrow> string \<Rightarrow> 'a::len word \<Rightarrow> 'b::len word" where
  "get_field l m w = get_bits (field_offset l m) (field_width l m) w"

definition put_field :: "layout \<Rightarrow> string \<Rightarrow> 'b::len word \<Rightarrow> 'a::len word \<Rightarrow> 'a word" where
  "put_field l m v w = put_bits (field_offset l m) (field_width l m) v w"

text \<open>A member lies inside the structure and does not overlap another one.\<close>

lemma field_inside: "field_offset l m + field_width l m \<le> layout_width l"
  by (induction l m rule: field_offset.induct) auto

lemma field_before:
  "m \<noteq> m' \<Longrightarrow> m \<in> fst ` set l \<Longrightarrow> m' \<in> fst ` set l \<Longrightarrow>
   field_offset l m + field_width l m \<le> field_offset l m' \<or>
   field_offset l m' + field_width l m' \<le> field_offset l m"
proof (induction l)
  case Nil
  then show ?case by simp
next
  case (Cons x l)
  obtain a k where x: "x = (a, k)" by (cases x)
  show ?case
  proof (cases "m = a \<or> m' = a")
    case True
    with Cons.prems x show ?thesis by auto
  next
    case False
    with Cons.prems x have "m \<in> fst ` set l" and "m' \<in> fst ` set l" by auto
    with Cons.IH Cons.prems(1) False x show ?thesis by auto
  qed
qed

section \<open>The layouts of the header\<close>

definition FPUStatusWord :: layout where
  "FPUStatusWord = [(''ie'', 1), (''de'', 1), (''ze'', 1), (''oe'', 1), (''ue'', 1), (''pe'', 1),
     (''sf'', 1), (''es'', 1), (''c0'', 1), (''c1'', 1), (''c2'', 1), (''top'', 3), (''c3'', 1),
     (''b'', 1)]"

definition FPUControlWord :: layout where
  "FPUControlWord = [(''im'', 1), (''dm'', 1), (''zm'', 1), (''om'', 1), (''um'', 1), (''pm'', 1),
     (''_rsvd0'', 2), (''pc'', 2), (''rc'', 2), (''x'', 1), (''_rsvd1'', 3)]"

text \<open>The anonymous union of \<open>FPUStackElem\<close> is its \<open>mmx\<close>, \<open>infinity\<close> view;
  \<open>st\<close> (ten bytes) covers both.\<close>

definition FPUStackElem :: layout where
  "FPUStackElem = [(''mmx'', 64), (''infinity'', 16), (''_rsvd'', 6 * 8)]"

definition FPUControlStatus :: layout where
  "FPUControlStatus = [(''ie'', 1), (''de'', 1), (''ze'', 1), (''oe'', 1), (''ue'', 1), (''pe'', 1),
     (''daz'', 1), (''im'', 1), (''dm'', 1), (''zm'', 1), (''om'', 1), (''um'', 1), (''pm'', 1),
     (''rn'', 1), (''rp'', 1), (''fz'', 1), (''_rsvd'', 16)]"

definition FPUTagWord :: layout where
  "FPUTagWord = [(''tag0'', 2), (''tag1'', 2), (''tag2'', 2), (''tag3'', 2), (''tag4'', 2),
     (''tag5'', 2), (''tag6'', 2), (''tag7'', 2)]"

definition FPUAbridgedTagWord :: layout where
  "FPUAbridgedTagWord = [(''r0'', 1), (''r1'', 1), (''r2'', 1), (''r3'', 1), (''r4'', 1), (''r5'', 1),
     (''r6'', 1), (''r7'', 1)]"

definition SegmentSelector :: layout where
  "SegmentSelector = [(''rpi'', 2), (''ti'', 1), (''index'', 13)]"

definition FpuFSAVE :: layout where
  "FpuFSAVE = [(''cwd'', layout_width FPUControlWord), (''_rsvd0'', 16),
     (''swd'', layout_width FPUStatusWord), (''_rsvd1'', 16), (''ftw'', layout_width FPUTagWord),
     (''fop'', 16), (''ip'', 32), (''cs'', layout_width SegmentSelector), (''_rsvd2'', 16),
     (''dp'', 32), (''ds'', layout_width SegmentSelector), (''_rsvd3'', 16),
     (''st'', 8 * layout_width FPUStackElem)]"

definition FpuFXSAVE :: layout where
  "FpuFXSAVE = [(''cwd'', layout_width FPUControlWord), (''swd'', layout_width FPUStatusWord),
     (''ftw'', layout_width FPUAbridgedTagWord), (''_rsvd0'', 8), (''fop'', 16), (''ip'', 32),
     (''cs'', layout_width SegmentSelector), (''_rsvd1'', 16), (''dp'', 32),
     (''ds'', layout_width SegmentSelector), (''_rsvd2'', 16),
     (''mxcsr'', layout_width FPUControlStatus), (''mxcsr_mask'', layout_width FPUControlStatus),
     (''st'', 8 * layout_width FPUStackElem), (''xmm'', 16 * 128)]"

definition FpuFXSAVE64 :: layout where
  "FpuFXSAVE64 = [(''cwd'', layout_width FPUControlWord), (''swd'', layout_width FPUStatusWord),
     (''ftw'', layout_width FPUAbridgedTagWord), (''_rsvd0'', 8), (''fop'', 16), (''ip'', 64),
     (''dp'', 64), (''mxcsr'', layout_width FPUControlStatus),
     (''mxcsr_mask'', layout_width FPUControlStatus), (''st'', 8 * layout_width FPUStackElem),
     (''xmm'', 16 * 128)]"

text \<open>\<open>union Flags\<close>: the image of RFLAGS.\<close>

definition Flags :: layout where
  "Flags = [(''cf'', 1), (''must_be_1'', 1), (''pf'', 1), (''must_be_0a'', 1), (''af'', 1),
     (''must_be_0b'', 1), (''zf'', 1), (''sf'', 1), (''tf'', 1), (''_if'', 1), (''df'', 1), (''of'', 1),
     (''iopl'', 2), (''nt'', 1), (''must_be_0c'', 1), (''rf'', 1), (''vm'', 1), (''ac'', 1),
     (''vif'', 1), (''vip'', 1), (''id'', 1), (''reserved_eflags'', 10), (''reserved_rflags'', 32)]"

lemmas layout_defs =
  FPUStatusWord_def FPUControlWord_def FPUStackElem_def FPUControlStatus_def FPUTagWord_def
  FPUAbridgedTagWord_def SegmentSelector_def FpuFSAVE_def FpuFXSAVE_def FpuFXSAVE64_def Flags_def

text \<open>\<open>Data\<close> is 512 bits, the FPU image 512 bytes.\<close>

type_synonym Data = "512 word"
type_synonym FPU = "4096 word"

text \<open>Where the stack slot \<open>i\<close> of an FXSAVE image keeps its MMX value and the exponent
  bits above it.\<close>

definition st_offset :: "layout \<Rightarrow> nat \<Rightarrow> string \<Rightarrow> nat" where
  "st_offset fx i m = field_offset fx ''st'' + i * layout_width FPUStackElem + field_offset FPUStackElem m"

text \<open>
  The compile-time assertions of \<open>Executor.h\<close> and \<open>Executor.cpp\<close> on the packed
  structures hold of the declared members: their sizes, the offsets of \<open>mmx\<close>,
  \<open>infinity\<close> and \<open>_rsvd\<close> inside a stack element, and the three save images fit the
  512-byte \<open>FPU\<close> union.
\<close>

lemma static_asserts:
  "layout_width FPUStatusWord = 8 * 2 \<and> layout_width FPUControlWord = 8 * 2 \<and>
   layout_width FPUTagWord = 8 * 2 \<and> layout_width FPUAbridgedTagWord = 8 * 1 \<and>
   layout_width FPUControlStatus = 8 * 4 \<and> layout_width SegmentSelector = 8 * 2 \<and>
   layout_width FPUStackElem = 8 * 16 \<and> layout_width Flags = 8 * 8 \<and>
   field_offset FPUStackElem ''mmx'' = 8 * 0 \<and> field_offset FPUStackElem ''infinity'' = 8 * 8 \<and>
   field_offset FPUStackElem ''_rsvd'' = 8 * 10 \<and>
   layout_width FpuFSAVE \<le> 8 * 512 \<and> layout_width FpuFXSAVE \<le> 8 * 512 \<and>
   layout_width FpuFXSAVE64 \<le> 8 * 512"
  by (simp add: layout_defs)

text \<open>
  The header says that \<open>FpuFSAVE\<close> conforms with FSAVE and FRSTOR, whose 32-bit image has
  108 bytes (28 of environment and eight ten-byte registers); the declared structure has
  16-byte stack elements and 156 bytes.
\<close>

lemma FpuFSAVE_size: "layout_width FpuFSAVE = 8 * 156"
  by (simp add: layout_defs)

lemma st_offset_fxsave:
  "st_offset FpuFXSAVE i ''mmx'' = 256 + i * 128"
  "st_offset FpuFXSAVE i ''infinity'' = 320 + i * 128"
  "st_offset FpuFXSAVE64 i ''mmx'' = 256 + i * 128"
  "st_offset FpuFXSAVE64 i ''infinity'' = 320 + i * 128"
  by (simp_all add: st_offset_def layout_defs)

section \<open>Flags\<close>

definition flag_bit :: "string \<Rightarrow> nat" where
  "flag_bit m = field_offset Flags m"

text \<open>A one-bit member as a truth value, and \<open>flags.m = b\<close>.\<close>

definition flag :: "string \<Rightarrow> u64 \<Rightarrow> bool" where
  "flag m w = bit w (flag_bit m)"

definition set_flag :: "string \<Rightarrow> bool \<Rightarrow> u64 \<Rightarrow> u64" where
  "set_flag m b w = (if b then Bit_Operations.set_bit (flag_bit m) w
                     else Bit_Operations.unset_bit (flag_bit m) w)"

lemma flag_bit_eqs:
  "flag_bit ''cf'' = 0" "flag_bit ''pf'' = 2" "flag_bit ''af'' = 4" "flag_bit ''zf'' = 6"
  "flag_bit ''sf'' = 7" "flag_bit ''df'' = 10" "flag_bit ''of'' = 11"
  by (simp_all add: flag_bit_def Flags_def)

lemma flag_is_field:
  "field_width Flags m = 1 \<Longrightarrow> flag m w = bit (get_field Flags m w :: u64) 0"
  by (simp add: flag_def flag_bit_def get_field_def bit_simps)

lemma bit_set_flag [bit_simps]:
  "bit (set_flag m b w) i \<longleftrightarrow> i < 64 \<and> (if i = flag_bit m then b else bit w i)"
  by (auto simp: set_flag_def bit_simps dest: bit_imp_le_length)

lemma bit_set_flag_other: "i \<noteq> flag_bit m \<Longrightarrow> bit (set_flag m b w) i = bit w i"
  by (auto simp: bit_simps dest: bit_imp_le_length)

lemma flag_set_flag [simp]: "flag_bit m < 64 \<Longrightarrow> flag m (set_flag m b w) = b"
  by (simp add: flag_def bit_simps)

lemma flag_set_flag_other: "flag_bit m \<noteq> flag_bit m' \<Longrightarrow> flag m (set_flag m' b w) = flag m w"
  by (auto simp: flag_def bit_simps dest: bit_imp_le_length)

end
