(* ===== verification/Xed.thy ===== *)
theory Xed
  imports Layout
begin

text \<open>
  The interface of the Intel XED decoder and encoder that \<open>Executor.cpp\<close> calls. XED is not
  part of the repository: its enumerators are symbols, its functions are the fields of a
  record \<open>xed\<close> that every definition takes, and the decoded instruction is a record of the
  answers of the \<open>xed_decoded_inst_*\<close> accessors. Registers are enumeration values
  (\<open>xed_reg_enum_t\<close>), so that the arithmetic the code does on them can be written down;
  \<open>xed_ok\<close> states what the code relies on of XED's register tables.
\<close>

section \<open>Enumerators\<close>

text \<open>An instruction form \<open>XED_IFORM_x_y\<close> whose last part is a size or operand suffix is a
  constructor applied to that suffix; the forms are grouped as the \<open>switch\<close> of
  \<open>Emulate\<close> has them.\<close>

datatype relbr = RELBRb | RELBRz | RELBRd
datatype strsuf = StrB | StrW | StrD | StrQ
datatype segsuf = SegES | SegCS | SegSS | SegDS | SegFS | SegGS
datatype btsrc = IMMb | GPRv
datatype flgsuf = FlagsW | FlagsD | FlagsQ

text \<open>\<open>XED_IFORM_JNLE_RELBRb\<close> is \<open>Jcc JNLE RELBRb\<close>, and so on.\<close>

datatype iform_jcc =
    JNLE | JNS | JL | JNP | JNZ | JNB | JNO | JNL | JNBE | JBE | JZ | JP | JS | JO | JB | JLE

datatype iform_cfi =
    XED_IFORM_LOOPNE_RELBRb | XED_IFORM_LOOPE_RELBRb | XED_IFORM_LOOP_RELBRb
  | XED_IFORM_JCXZ_RELBRb | XED_IFORM_JECXZ_RELBRb | XED_IFORM_JRCXZ_RELBRb
  | XED_IFORM_XBEGIN_RELBRz | XED_IFORM_XABORT_IMMb | XED_IFORM_XEND
  | XED_IFORM_JMP_MEMv | XED_IFORM_JMP_GPRv | XED_IFORM_JMP_RELBR relbr
  | XED_IFORM_CALL_NEAR_RELBR relbr | XED_IFORM_CALL_NEAR_MEMv | XED_IFORM_CALL_NEAR_GPRv
  | XED_IFORM_RET_NEAR | XED_IFORM_RET_NEAR_IMMw
  | XED_IFORM_CALL_FAR_MEMp2 | XED_IFORM_CALL_FAR_PTRp_IMMw
  | XED_IFORM_JMP_FAR_MEMp2 | XED_IFORM_JMP_FAR_PTRp_IMMw
  | XED_IFORM_RET_FAR_IMMw | XED_IFORM_RET_FAR

datatype iform_str =
    XED_IFORM_REPE_SCAS strsuf | XED_IFORM_REP_LODS strsuf | XED_IFORM_REPNE_CMPS strsuf
  | XED_IFORM_REP_STOS strsuf | XED_IFORM_REPNE_SCAS strsuf | XED_IFORM_REP_MOVS strsuf
  | XED_IFORM_REPE_CMPS strsuf
  | XED_IFORM_STOS strsuf | XED_IFORM_SCAS strsuf | XED_IFORM_LODS strsuf
  | XED_IFORM_MOVS strsuf | XED_IFORM_CMPS strsuf

datatype iform_stk =
    XED_IFORM_PUSH_MEMv | XED_IFORM_PUSH_GPRv_FFr6 | XED_IFORM_PUSH_GPRv_50
  | XED_IFORM_PUSH_IMMz | XED_IFORM_PUSH_IMMb
  | XED_IFORM_POP_MEMv | XED_IFORM_POP_GPRv_8F | XED_IFORM_POP_GPRv_58
  | XED_IFORM_LEAVE | XED_IFORM_PUSH_SEG segsuf | XED_IFORM_POP_SEG segsuf
  | XED_IFORM_PUSHF flgsuf | XED_IFORM_POPF flgsuf
  | XED_IFORM_PUSHA | XED_IFORM_PUSHAD | XED_IFORM_POPA | XED_IFORM_POPAD
  | XED_IFORM_ENTER_IMMw_IMMb

datatype iform_bt =
    XED_IFORM_BT_MEMv btsrc | XED_IFORM_BTS_MEMv btsrc | XED_IFORM_BTS_LOCK_MEMv btsrc
  | XED_IFORM_BTC_MEMv btsrc | XED_IFORM_BTC_LOCK_MEMv btsrc
  | XED_IFORM_BTR_MEMv btsrc | XED_IFORM_BTR_LOCK_MEMv btsrc

datatype iform =
    Jcc iform_jcc relbr | Cfi iform_cfi | Str iform_str | Stk iform_stk | Bt iform_bt
  | XED_IFORM_LEA_GPRv_AGEN
  | XED_IFORM_MOV_MEMw_SEG | XED_IFORM_MOV_GPRv_SEG
  | XED_IFORM_MOV_SEG_MEMw | XED_IFORM_MOV_SEG_GPR16
  | XED_IFORM_XLAT | XED_IFORM_RDTSCP | XED_IFORM_RDTSC
  | XED_IFORM_OTHER nat

datatype xed_operand =
    XED_OPERAND_AGEN | XED_OPERAND_MEM0 | XED_OPERAND_MEM1
  | XED_OPERAND_REG | XED_OPERAND_REG0 | XED_OPERAND_REG1 | XED_OPERAND_REG2 | XED_OPERAND_REG3
  | XED_OPERAND_REG4 | XED_OPERAND_REG5 | XED_OPERAND_REG6 | XED_OPERAND_REG7 | XED_OPERAND_REG8
  | XED_OPERAND_IMM0SIGNED | XED_OPERAND_IMM0 | XED_OPERAND_IMM1_BYTES | XED_OPERAND_IMM1
  | XED_OPERAND_OTHER nat

datatype xed_opvis = XED_OPVIS_EXPLICIT | XED_OPVIS_IMPLICIT | XED_OPVIS_SUPPRESSED

datatype xed_reg_class =
  XED_REG_CLASS_X87 | XED_REG_CLASS_PSEUDOX87 | XED_REG_CLASS_MMX | XED_REG_CLASS_OTHER nat

datatype xed_category =
    XED_CATEGORY_SYSTEM | XED_CATEGORY_3DNOW | XED_CATEGORY_MPX | XED_CATEGORY_AES
  | XED_CATEGORY_RDRAND | XED_CATEGORY_RDSEED | XED_CATEGORY_SEGOP | XED_CATEGORY_SYSCALL
  | XED_CATEGORY_INTERRUPT | XED_CATEGORY_SYSRET | XED_CATEGORY_XSAVE | XED_CATEGORY_XSAVEOPT
  | XED_CATEGORY_IOSTRINGOP | XED_CATEGORY_RDWRFSGS | XED_CATEGORY_VTX
  | XED_CATEGORY_AVX | XED_CATEGORY_AVX2 | XED_CATEGORY_AVX2GATHER
  | XED_CATEGORY_AVX512 | XED_CATEGORY_AVX512_4FMAPS | XED_CATEGORY_AVX512_4VNNIW
  | XED_CATEGORY_AVX512_BITALG | XED_CATEGORY_AVX512_VBMI
  | XED_CATEGORY_NOP | XED_CATEGORY_WIDENOP | XED_CATEGORY_OTHER nat

datatype xed_attribute =
    XED_ATTRIBUTE_RING0 | XED_ATTRIBUTE_PROTECTED_MODE | XED_ATTRIBUTE_FAR_XFER
  | XED_ATTRIBUTE_EXCEPTION_BR | XED_ATTRIBUTE_X87_MMX_STATE_R | XED_ATTRIBUTE_X87_MMX_STATE_W
  | XED_ATTRIBUTE_X87_MMX_STATE_CW | XED_ATTRIBUTE_XMM_STATE_R | XED_ATTRIBUTE_XMM_STATE_W
  | XED_ATTRIBUTE_XMM_STATE_CW | XED_ATTRIBUTE_KMASK | XED_ATTRIBUTE_MASKOP
  | XED_ATTRIBUTE_MASKOP_EVEX | XED_ATTRIBUTE_MASK_AS_CONTROL
  | XED_ATTRIBUTE_MASK_VARIABLE_MEMOP

text \<open>The register enumerators the code names; \<open>XED_REG_R n\<close> is \<open>XED_REG_R8\<close> to
  \<open>XED_REG_R15\<close>, \<open>XED_REG_MMX n\<close> and \<open>XED_REG_XMM n\<close> are \<open>XED_REG_MMX0\<close> and
  \<open>XED_REG_XMM0\<close> to their last.\<close>

datatype xed_reg_name =
    XED_REG_INVALID | XED_REG_STACKPUSH | XED_REG_STACKPOP
  | XED_REG_EIP | XED_REG_RIP | XED_REG_ESP | XED_REG_RSP | XED_REG_SP | XED_REG_SPL
  | XED_REG_RBP | XED_REG_EAX | XED_REG_RAX | XED_REG_RBX | XED_REG_CX | XED_REG_ECX | XED_REG_RCX
  | XED_REG_RDX | XED_REG_ESI | XED_REG_RSI | XED_REG_EDI | XED_REG_RDI | XED_REG_R nat
  | XED_REG_EFLAGS | XED_REG_RFLAGS | XED_REG_DS | XED_REG_SS | XED_REG_TSC | XED_REG_TSCAUX
  | XED_REG_MMX nat | XED_REG_XMM nat
  | XED_REG_XMM_FIRST | XED_REG_YMM_FIRST | XED_REG_YMM_LAST | XED_REG_ZMM_FIRST | XED_REG_ZMM_LAST
  | XED_REG_GPR8_FIRST | XED_REG_GPR8h_FIRST | XED_REG_GPR8h_LAST
  | XED_REG_GPR16_FIRST | XED_REG_GPR32_FIRST | XED_REG_GPR64_FIRST | XED_REG_LAST

type_synonym xed_reg = nat

section \<open>The decoded instruction\<close>

text \<open>An operand of the instruction template (\<open>xed_inst_operand\<close>).\<close>

record xed_inst_operand =
  operand_name :: xed_operand
  operand_visibility :: xed_opvis
  operand_read :: bool
  operand_written :: bool
  operand_conditional_write :: bool

text \<open>\<open>xed_simple_flag_t\<close>: the flags an instruction reads and writes.\<close>

record xed_simple_flag =
  flag_read :: u32
  flag_written :: u32
  flag_may_write :: bool

text \<open>The state of \<open>xed_decoded_inst_t\<close> as its accessors report it; signed results are
  integers, memory-operand accessors take the memory operand index.\<close>

record xed_decoded_inst =
  get_iclass :: nat
  get_iform_enum :: iform
  get_category :: xed_category
  get_attribute :: "xed_attribute \<Rightarrow> bool"
  get_operand_width :: nat
  get_length :: nat
  get_operands :: "xed_inst_operand list"
  get_reg :: "xed_operand \<Rightarrow> xed_reg"
  get_base_reg :: "nat \<Rightarrow> xed_reg"
  get_index_reg :: "nat \<Rightarrow> xed_reg"
  get_seg_reg :: "nat \<Rightarrow> xed_reg"
  get_scale :: "nat \<Rightarrow> u64"
  get_memory_displacement :: "nat \<Rightarrow> int"
  get_memop_address_width :: "nat \<Rightarrow> nat"
  get_memory_operand_length :: "nat \<Rightarrow> nat"
  get_branch_displacement :: int
  get_signed_immediate :: int
  get_unsigned_immediate :: u64
  get_second_immediate :: u64
  get_immediate_is_signed :: bool
  get_immediate_width :: nat
  get_immediate_width_bits :: nat
  get_rflags_info :: "xed_simple_flag option"

section \<open>The encoder request\<close>

datatype xed_encoder_operand_type =
    XED_ENCODER_OPERAND_TYPE_INVALID | XED_ENCODER_OPERAND_TYPE_MEM
  | XED_ENCODER_OPERAND_TYPE_REG | XED_ENCODER_OPERAND_TYPE_SIMM0
  | XED_ENCODER_OPERAND_TYPE_IMM0 | XED_ENCODER_OPERAND_TYPE_IMM1

text \<open>\<open>xed_encoder_operand_t\<close>; the members of its union \<open>u\<close> that the code uses are kept
  apart (after the \<open>memset\<close> of the request each operand is filled in through one of them).\<close>

record xed_encoder_operand =
  op_type :: xed_encoder_operand_type
  u_mem_displacement :: u64
  u_mem_displacement_bits :: nat
  u_mem_base :: xed_reg
  u_reg :: xed_reg
  u_imm0 :: u64
  u_imm1 :: u64
  width_bits :: nat

datatype xed_state = kXEDState32 | kXEDState64

record xed_encoder_instruction =
  emu_iclass :: nat
  effective_address_width :: nat
  effective_operand_width :: nat
  emu_mode :: xed_state
  noperands :: nat
  operands :: "nat \<Rightarrow> xed_encoder_operand"

section \<open>The functions of XED\<close>

text \<open>\<open>xed_decode\<close> stands for \<open>xed_decoded_inst_zero_set_mode\<close>,
  \<open>xed_decoded_inst_set_input_chip\<close> and \<open>xed_decode\<close> in a row: whether the bytes were
  decoded, and what \<open>gXedd\<close> then holds (something unspecified after a failure).
  \<open>xed_encode\<close> yields the bytes written, or \<open>None\<close> for an error.\<close>

record xed =
  reg :: "xed_reg_name \<Rightarrow> xed_reg"
  get_largest_enclosing_register :: "xed_reg \<Rightarrow> xed_reg"
  get_largest_enclosing_register32 :: "xed_reg \<Rightarrow> xed_reg"
  get_reg_class :: "xed_reg \<Rightarrow> xed_reg_class"
  get_register_width_bits64 :: "xed_reg \<Rightarrow> nat"
  reg_enum_t2str :: "xed_reg \<Rightarrow> string"
  xed_decode :: "xed_state \<Rightarrow> u8 list \<Rightarrow> bool \<times> xed_decoded_inst"
  set_immediate_unsigned :: "u64 \<Rightarrow> nat \<Rightarrow> xed_decoded_inst \<Rightarrow> xed_decoded_inst"
  convert_to_encoder_request :: "xed_encoder_instruction \<Rightarrow> bool"
  xed_encode :: "xed_encoder_instruction \<Rightarrow> u8 list option"

end
