(* ===== verification/Machine.thy ===== *)
theory Machine
  imports Xed
begin

text \<open>
  The \<open>Executor\<close> class of \<open>Executor.h\<close> and the global variables of \<open>Executor.cpp\<close>. The
  class is abstract: the program that embeds it supplies the virtual methods, which read
  and write a machine state of its own. They are the fields of a record \<open>executor\<close> over
  the type \<open>'s\<close> of that machine state, which is passed through every operation (the
  methods are \<open>const\<close> in C++ but report to the outside world). The globals are one record
  \<open>gstate\<close>; an operation of the executor is a function of the pair of both, a \<open>world\<close>.
  The processor and the memory addresses of the running process are the record \<open>host\<close>.
\<close>

section \<open>Enumerations of the interface\<close>

datatype ExecutorStatus =
    kGood | kErrorNotInitialized | kErrorDecode | kErrorUnsupportedFeatures
  | kErrorUnsupportedCFI | kErrorUnsupportedStack | kErrorExecute | kErrorFault
  | kErrorFloatingPointException | kErrorReadFlags | kErrorWriteFlags | kErrorReadReg
  | kErrorWriteReg | kErrorReadMem | kErrorReadInstMem | kErrorWriteMem | kErrorReadFPU
  | kErrorWriteFPU

datatype RegRequestHint =
    RegNone | kGeneral | kProgramCounter | kConditionCode | kWriteBack | kMemoryBaseAddress
  | kMemoryIndexAddress | kMemorySegmentAddress

datatype MemRequestHint =
    kReadOnly | kReadExecutable | kWriteOnly | kReadWrite | kAddressGeneration

section \<open>The executor object\<close>

record 's executor =
  addr_size :: nat
  has_avx :: bool
  has_avx512 :: bool
  ComputeAddress :: "string \<Rightarrow> u64 \<Rightarrow> u64 \<Rightarrow> u64 \<Rightarrow> u64 \<Rightarrow> nat \<Rightarrow> MemRequestHint \<Rightarrow> 's \<Rightarrow> u64 \<times> 's"
  ReadReg :: "string \<Rightarrow> nat \<Rightarrow> RegRequestHint \<Rightarrow> Data \<Rightarrow> 's \<Rightarrow> bool \<times> Data \<times> 's"
  WriteReg :: "string \<Rightarrow> nat \<Rightarrow> Data \<Rightarrow> 's \<Rightarrow> bool \<times> 's"
  ReadMem :: "u64 \<Rightarrow> nat \<Rightarrow> MemRequestHint \<Rightarrow> Data \<Rightarrow> 's \<Rightarrow> bool \<times> Data \<times> 's"
  WriteMem :: "u64 \<Rightarrow> nat \<Rightarrow> Data \<Rightarrow> 's \<Rightarrow> bool \<times> 's"
  ReadFPU :: "FPU \<Rightarrow> 's \<Rightarrow> bool \<times> FPU \<times> 's"
  WriteFPU :: "FPU \<Rightarrow> 's \<Rightarrow> bool \<times> 's"
  ClearFetchError :: "'s \<Rightarrow> 's"

text \<open>The default \<open>Executor::ComputeAddress\<close>, which ignores the segment, the size and the
  hint. \<open>ClearFetchError\<close> is what a build with \<open>PYTHON_BINDINGS\<close> does between two
  attempts to read instruction bytes (it is the identity in a plain build).\<close>

definition Executor_ComputeAddress :: "u64 \<Rightarrow> u64 \<Rightarrow> u64 \<Rightarrow> u64 \<Rightarrow> u64" where
  "Executor_ComputeAddress base index scale displacement = base + index * scale + displacement"

section \<open>A memory operand\<close>

record memory =
  present :: bool
  write_back :: bool
  op_name :: xed_operand
  segment_reg :: xed_reg
  base_reg :: xed_reg
  index_reg :: xed_reg
  mbase :: u64
  mindex :: u64
  mscale :: u64
  mdisplacement :: u64
  maddress :: u64
  msize :: nat
  mem_op :: "nat option"
  mdata :: Data

text \<open>\<open>mem_op\<close> points at the memory part of an operand of \<open>gEmu\<close>: the operand's index, or
  \<open>None\<close> for the null pointer it is before the first \<open>DecodeMem0\<close>.\<close>

section \<open>The globals\<close>

datatype signal = SIGILL | SIGBUS | SIGSEGV | SIGFPE | SIG_OTHER nat

text \<open>What a \<open>struct sigaction\<close> names as its handler; a static one that has not been
  assigned is \<open>SIG_DFL\<close>.\<close>

datatype handler = SIG_DFL | SIG_IGN | SIG_RecoverFromError | SIG_handler nat

record gstate =
  gXedd :: xed_decoded_inst
  gEmu :: xed_encoder_instruction
  gEmuSize :: nat
  gExecArea :: "u8 list"
  gUsedRegs :: "xed_reg set"
  gModifiedRegs :: "xed_reg set"
  gStoreRegs :: "xed_reg set"
  gRegs :: "xed_reg \<Rightarrow> Data"
  gStackPtrAlias :: xed_reg
  gUsesFPU :: bool
  gUsesMMX :: bool
  gFPU :: FPU
  gNativeFPU :: FPU
  gSignal :: "signal option"
  gWriteBackFlags :: u64
  gMemory :: "nat \<Rightarrow> memory"
  gIsInitialized :: bool
  gSignalHandler :: handler
  gSIGILL :: handler
  gSIGSEGV :: handler
  gSIGBUS :: handler
  gSIGFPE :: handler
  disposition :: "signal \<Rightarrow> handler"
  idata :: Data

text \<open>\<open>gSignal = 0\<close> is \<open>None\<close>. \<open>gExecArea\<close> is the executable page, empty while the
  pointer is null. \<open>idata\<close> is the local variable of \<open>Execute\<close> that holds the
  instruction bytes; it lives as long as the call. \<open>disposition\<close> is the table of signal
  handlers the kernel keeps for the process, which \<open>sigaction\<close> changes.\<close>

type_synonym 's world = "gstate \<times> 's"

section \<open>The host\<close>

text \<open>The registers the JIT-compiled code runs with: fifteen general-purpose registers in
  the order RAX, RBX, RCX, RDX, RBP, RSI, RDI, R8 .. R15, the low eight XMM registers, the
  flags, the x87 state, and the data of the first memory operand, which the code reaches
  through a RIP-relative address.\<close>

record cpu =
  cpu_gprs :: "u64 list"
  cpu_xmms :: "128 word list"
  cpu_rflags :: u64
  cpu_fpu :: FPU
  cpu_mem0 :: Data

datatype native_outcome = Returned cpu | Raised signal cpu

text \<open>\<open>Raised\<close> has the state in which a handler runs that jumps back to \<open>Execute\<close>.\<close>

text \<open>
  \<open>shr_oversized\<close> is what the compiled code yields for a shift count of 64 or more, which
  C++ leaves undefined; \<open>pushfq\<close> is the value the inline assembly of \<open>ReadFlags\<close> pops;
  \<open>run_native\<close> is the call of the bytes in \<open>gExecArea\<close>; \<open>exec_area_storage\<close> and
  \<open>mem0_data_address\<close> are the addresses of \<open>gExecArea_\<close> and of \<open>gMemory[0].data\<close>;
  \<open>fxsave\<close> and \<open>fxrstor\<close> take whether the instruction has the REX.W prefix (64-bit
  image); \<open>fxrstor_faults\<close> tells whether the processor refuses an image (one with
  reserved bits of MXCSR set), and \<open>mmap_exec_area\<close> tells whether the kernel maps the page at an address.
\<close>

record host =
  shr_oversized :: "u64 \<Rightarrow> u64 \<Rightarrow> u64"
  pushfq :: "gstate \<Rightarrow> u64"
  run_native :: "u8 list \<Rightarrow> cpu \<Rightarrow> native_outcome"
  host_gprs :: "u64 list"
  host_fpu :: FPU
  fxsave :: "bool \<Rightarrow> FPU \<Rightarrow> FPU \<Rightarrow> FPU"
  fxrstor :: "bool \<Rightarrow> FPU \<Rightarrow> FPU"
  fxrstor_faults :: "bool \<Rightarrow> FPU \<Rightarrow> bool"
  fnclex :: "FPU \<Rightarrow> FPU"
  exec_area_storage :: u64
  mem0_data_address :: u64
  mmap_exec_area :: "u64 \<Rightarrow> bool"

definition shr64 :: "host \<Rightarrow> u64 \<Rightarrow> u64 \<Rightarrow> u64" where
  "shr64 H a n = (if n < 64 then drop_bit (unat n) a else shr_oversized H a n)"

section \<open>Registers named by the code\<close>

text \<open>What the code relies on of XED's tables for a register that exists in a 32-bit and a
  64-bit version: the 64-bit one is where values are stored, and \<open>WidestRegister\<close> may
  answer with either.\<close>

definition gpr_pair :: "xed \<Rightarrow> xed_reg_name \<Rightarrow> xed_reg_name \<Rightarrow> bool" where
  "gpr_pair X e r \<longleftrightarrow>
     get_largest_enclosing_register X (reg X e) = reg X r \<and>
     get_largest_enclosing_register X (reg X r) = reg X r \<and>
     get_largest_enclosing_register32 X (reg X e) = reg X e \<and>
     get_register_width_bits64 X (reg X e) = 32 \<and>
     get_register_width_bits64 X (reg X r) = 64 \<and>
     reg X e \<noteq> reg X XED_REG_INVALID \<and> reg X r \<noteq> reg X XED_REG_INVALID \<and>
     (\<forall>q \<in> {reg X e, reg X r}.
        \<not> (reg X XED_REG_ZMM_FIRST \<le> q \<and> q \<le> reg X XED_REG_ZMM_LAST) \<and>
        \<not> (reg X XED_REG_YMM_FIRST \<le> q \<and> q \<le> reg X XED_REG_YMM_LAST) \<and>
        \<not> (reg X XED_REG_GPR8h_FIRST \<le> q \<and> q \<le> reg X XED_REG_GPR8h_LAST))"

lemma gpr_pairD:
  assumes "gpr_pair X e r"
  shows "get_largest_enclosing_register X (reg X e) = reg X r"
    "get_largest_enclosing_register X (reg X r) = reg X r"
    "get_largest_enclosing_register32 X (reg X e) = reg X e"
    "get_register_width_bits64 X (reg X e) = 32"
    "get_register_width_bits64 X (reg X r) = 64"
    "reg X e \<noteq> reg X XED_REG_INVALID" "reg X r \<noteq> reg X XED_REG_INVALID"
    "\<not> (reg X XED_REG_GPR8h_FIRST \<le> reg X e \<and> reg X e \<le> reg X XED_REG_GPR8h_LAST)"
    "\<not> (reg X XED_REG_GPR8h_FIRST \<le> reg X r \<and> reg X r \<le> reg X XED_REG_GPR8h_LAST)"
  using assms unfolding gpr_pair_def by blast+

definition xed_pairs :: "(xed_reg_name \<times> xed_reg_name) list" where
  "xed_pairs = [(XED_REG_EIP, XED_REG_RIP), (XED_REG_ESP, XED_REG_RSP),
     (XED_REG_EAX, XED_REG_RAX), (XED_REG_ECX, XED_REG_RCX), (XED_REG_ESI, XED_REG_RSI),
     (XED_REG_EDI, XED_REG_RDI), (XED_REG_EFLAGS, XED_REG_RFLAGS)]"

definition xed_ok :: "xed \<Rightarrow> bool" where
  "xed_ok X \<longleftrightarrow> reg X XED_REG_INVALID = 0 \<and>
     get_register_width_bits64 X (reg X XED_REG_INVALID) = 0 \<and>
     (\<forall>(e, r) \<in> set xed_pairs. gpr_pair X e r) \<and>
     distinct (map (reg X) [XED_REG_INVALID, XED_REG_RIP, XED_REG_RSP, XED_REG_RAX, XED_REG_RCX,
       XED_REG_RSI, XED_REG_RDI, XED_REG_RFLAGS, XED_REG_EIP, XED_REG_ESP, XED_REG_EAX,
       XED_REG_ECX, XED_REG_ESI, XED_REG_EDI, XED_REG_EFLAGS])"

lemma xed_ok_pairs:
  assumes "xed_ok X"
  shows "gpr_pair X XED_REG_EIP XED_REG_RIP" "gpr_pair X XED_REG_ESP XED_REG_RSP"
    "gpr_pair X XED_REG_EAX XED_REG_RAX" "gpr_pair X XED_REG_ECX XED_REG_RCX"
    "gpr_pair X XED_REG_ESI XED_REG_RSI" "gpr_pair X XED_REG_EDI XED_REG_RDI"
    "gpr_pair X XED_REG_EFLAGS XED_REG_RFLAGS"
  using assms by (auto simp: xed_ok_def xed_pairs_def)

end
