(* ===== verification/Sample.thy ===== *)
theory Sample
  imports Machine
begin

text \<open>
  A concrete XED register table, decoded instructions, an executor and a host, at which the
  theorems with hypotheses are instantiated. The numbering of the registers follows the
  block structure of XED's enumeration (general-purpose registers by width, then MMX, XMM,
  YMM, ZMM), and the executor is a small machine that records every call.
\<close>

definition sample_reg :: "xed_reg_name \<Rightarrow> xed_reg" where
  "sample_reg n = (case n of
     XED_REG_INVALID \<Rightarrow> 0 | XED_REG_STACKPUSH \<Rightarrow> 1 | XED_REG_STACKPOP \<Rightarrow> 2
   | XED_REG_EIP \<Rightarrow> 3 | XED_REG_RIP \<Rightarrow> 4 | XED_REG_EFLAGS \<Rightarrow> 5 | XED_REG_RFLAGS \<Rightarrow> 6
   | XED_REG_DS \<Rightarrow> 7 | XED_REG_SS \<Rightarrow> 8 | XED_REG_TSC \<Rightarrow> 9 | XED_REG_TSCAUX \<Rightarrow> 10
   | XED_REG_RAX \<Rightarrow> 11 | XED_REG_RCX \<Rightarrow> 12 | XED_REG_RDX \<Rightarrow> 13 | XED_REG_RBX \<Rightarrow> 14
   | XED_REG_RSP \<Rightarrow> 15 | XED_REG_RBP \<Rightarrow> 16 | XED_REG_RSI \<Rightarrow> 17 | XED_REG_RDI \<Rightarrow> 18
   | XED_REG_R k \<Rightarrow> 11 + k
   | XED_REG_EAX \<Rightarrow> 27 | XED_REG_ECX \<Rightarrow> 28 | XED_REG_ESP \<Rightarrow> 31 | XED_REG_ESI \<Rightarrow> 33
   | XED_REG_EDI \<Rightarrow> 34 | XED_REG_CX \<Rightarrow> 44 | XED_REG_SP \<Rightarrow> 47 | XED_REG_SPL \<Rightarrow> 63
   | XED_REG_GPR64_FIRST \<Rightarrow> 11 | XED_REG_GPR32_FIRST \<Rightarrow> 27 | XED_REG_GPR16_FIRST \<Rightarrow> 43
   | XED_REG_GPR8_FIRST \<Rightarrow> 59 | XED_REG_GPR8h_FIRST \<Rightarrow> 75 | XED_REG_GPR8h_LAST \<Rightarrow> 78
   | XED_REG_MMX k \<Rightarrow> 79 + k | XED_REG_XMM k \<Rightarrow> 87 + k
   | XED_REG_XMM_FIRST \<Rightarrow> 87 | XED_REG_YMM_FIRST \<Rightarrow> 103 | XED_REG_YMM_LAST \<Rightarrow> 118
   | XED_REG_ZMM_FIRST \<Rightarrow> 119 | XED_REG_ZMM_LAST \<Rightarrow> 134 | XED_REG_LAST \<Rightarrow> 135)"

definition sample_largest :: "xed_reg \<Rightarrow> xed_reg" where
  "sample_largest r =
     (if r = 3 then 4 else if r = 5 then 6
      else if 27 \<le> r \<and> r \<le> 42 then r - 16 else if 43 \<le> r \<and> r \<le> 58 then r - 32
      else if 59 \<le> r \<and> r \<le> 74 then r - 48 else if 75 \<le> r \<and> r \<le> 78 then r - 64
      else if 87 \<le> r \<and> r \<le> 102 then r + 16 else r)"

definition sample_largest32 :: "xed_reg \<Rightarrow> xed_reg" where
  "sample_largest32 r =
     (if r = 4 \<or> r = 6 then r - 1
      else if 11 \<le> r \<and> r \<le> 26 then 0 else if 43 \<le> r \<and> r \<le> 58 then r - 16
      else if 59 \<le> r \<and> r \<le> 74 then r - 32 else if 75 \<le> r \<and> r \<le> 78 then r - 48
      else if 87 \<le> r \<and> r \<le> 102 then r + 16 else r)"

definition sample_width :: "xed_reg \<Rightarrow> nat" where
  "sample_width r =
     (if r = 0 then 0 else if r = 3 \<or> r = 5 \<or> r = 10 then 32
      else if r = 4 \<or> r = 6 \<or> r = 9 then 64 else if r = 7 \<or> r = 8 then 16
      else if r \<le> 26 then 64 else if r \<le> 42 then 32 else if r \<le> 58 then 16
      else if r \<le> 78 then 8 else if r \<le> 86 then 64 else if r \<le> 102 then 128
      else if r \<le> 118 then 256 else 512)"

definition sample_name :: "xed_reg \<Rightarrow> string" where
  "sample_name r =
     (if r = 3 then ''EIP'' else if r = 4 then ''RIP'' else if r = 11 then ''RAX''
      else if r = 12 then ''RCX'' else if r = 15 then ''RSP'' else if r = 17 then ''RSI''
      else if r = 18 then ''RDI'' else if r = 27 then ''EAX'' else ''OTHER'')"

definition sample_class :: "xed_reg \<Rightarrow> xed_reg_class" where
  "sample_class r = (if 79 \<le> r \<and> r \<le> 86 then XED_REG_CLASS_MMX else XED_REG_CLASS_OTHER 0)"

text \<open>An instruction of length one without operands.\<close>

definition sample_inst :: xed_decoded_inst where
  "sample_inst = \<lparr>get_iclass = 0, get_iform_enum = XED_IFORM_OTHER 0,
     get_category = XED_CATEGORY_OTHER 0, get_attribute = (\<lambda>_. False), get_operand_width = 64,
     get_length = 1, get_operands = [], get_reg = (\<lambda>_. 0), get_base_reg = (\<lambda>_. 0),
     get_index_reg = (\<lambda>_. 0), get_seg_reg = (\<lambda>_. 0), get_scale = (\<lambda>_. 1),
     get_memory_displacement = (\<lambda>_. 0), get_memop_address_width = (\<lambda>_. 64),
     get_memory_operand_length = (\<lambda>_. 8), get_branch_displacement = 0,
     get_signed_immediate = 0, get_unsigned_immediate = 0, get_second_immediate = 0,
     get_immediate_is_signed = False, get_immediate_width = 1, get_immediate_width_bits = 8,
     get_rflags_info = None\<rparr>"

definition sample_xed :: xed where
  "sample_xed = \<lparr>reg = sample_reg, get_largest_enclosing_register = sample_largest,
     get_largest_enclosing_register32 = sample_largest32, get_reg_class = sample_class,
     get_register_width_bits64 = sample_width, reg_enum_t2str = sample_name,
     xed_decode = (\<lambda>st bs. (bs \<noteq> [], sample_inst)),
     set_immediate_unsigned = (\<lambda>v n d. d\<lparr>get_unsigned_immediate := v\<rparr>),
     convert_to_encoder_request = (\<lambda>_. True), xed_encode = (\<lambda>_. Some [0x90])\<rparr>"

lemmas sample_xed_simps =
  sample_xed_def sample_reg_def sample_largest_def sample_largest32_def sample_width_def
  sample_class_def sample_name_def

lemma sample_xed_ok: "xed_ok sample_xed"
  by (simp add: xed_ok_def xed_pairs_def gpr_pair_def sample_xed_simps)

text \<open>A machine whose registers and memory read as zero and that keeps the calls made.\<close>

datatype sample_call =
    CallReadReg string | CallWriteReg string u64 | CallReadMem u64 nat | CallWriteMem u64 u64
  | CallFPU

definition sample_executor :: "nat \<Rightarrow> sample_call list executor" where
  "sample_executor n = \<lparr>addr_size = n, has_avx = False, has_avx512 = False,
     ComputeAddress = (\<lambda>_ b i s d _ _ l. (Executor_ComputeAddress b i s d, l)),
     ReadReg = (\<lambda>nm _ _ d l. (True, d, l @ [CallReadReg nm])),
     WriteReg = (\<lambda>nm _ d l. (True, l @ [CallWriteReg nm (ucast d)])),
     ReadMem = (\<lambda>a n _ d l. (True, d, l @ [CallReadMem a n])),
     WriteMem = (\<lambda>a _ d l. (True, l @ [CallWriteMem a (ucast d)])),
     ReadFPU = (\<lambda>f l. (True, f, l @ [CallFPU])),
     WriteFPU = (\<lambda>_ l. (True, l @ [CallFPU])),
     ClearFetchError = (\<lambda>l. l)\<rparr>"

definition sample_operand :: xed_encoder_operand where
  "sample_operand = \<lparr>op_type = XED_ENCODER_OPERAND_TYPE_INVALID, u_mem_displacement = 0,
     u_mem_displacement_bits = 0, u_mem_base = 0, u_reg = 0, u_imm0 = 0, u_imm1 = 0,
     width_bits = 0\<rparr>"

definition sample_emu :: xed_encoder_instruction where
  "sample_emu = \<lparr>emu_iclass = 0, effective_address_width = 64, effective_operand_width = 64,
     emu_mode = kXEDState64, noperands = 0, operands = (\<lambda>_. sample_operand)\<rparr>"

definition sample_memory :: memory where
  "sample_memory = \<lparr>present = False, write_back = False, op_name = XED_OPERAND_OTHER 0,
     segment_reg = 0, base_reg = 0, index_reg = 0, mbase = 0, mindex = 0, mscale = 0,
     mdisplacement = 0, maddress = 0, msize = 0, mem_op = None, mdata = 0\<rparr>"

definition sample_gstate :: gstate where
  "sample_gstate = \<lparr>gXedd = sample_inst, gEmu = sample_emu, gEmuSize = 0, gExecArea = [],
     gUsedRegs = {}, gModifiedRegs = {}, gStoreRegs = {}, gRegs = (\<lambda>_. 0), gStackPtrAlias = 0,
     gUsesFPU = False, gUsesMMX = False, gFPU = 0, gNativeFPU = 0, gSignal = None,
     gWriteBackFlags = 0, gMemory = (\<lambda>_. sample_memory), gIsInitialized = True,
     gSignalHandler = SIG_RecoverFromError, gSIGILL = SIG_DFL, gSIGSEGV = SIG_DFL,
     gSIGBUS = SIG_DFL, gSIGFPE = SIG_DFL, disposition = (\<lambda>_. SIG_DFL), idata = 0\<rparr>"

definition sample_host :: host where
  "sample_host = \<lparr>shr_oversized = (\<lambda>a n. drop_bit (unat (n AND 63)) a), pushfq = (\<lambda>_. 2),
     run_native = (\<lambda>_ c. Returned c), host_gprs = replicate 15 0, host_fpu = 0,
     fxsave = (\<lambda>_ f _. f), fxrstor = (\<lambda>_ f. f), fxrstor_faults = (\<lambda>_ _. False), fnclex = (\<lambda>f. f), exec_area_storage = 0x2010,
     mem0_data_address = 0x5000, mmap_exec_area = (\<lambda>_. True)\<rparr>"

lemmas sample_simps =
  sample_xed_simps sample_executor_def sample_gstate_def sample_inst_def sample_emu_def
  sample_memory_def sample_host_def

end
