(* ===== verification/Registers.thy ===== *)
theory Registers
  imports Sample
begin

text \<open>
  The register cache of \<open>Executor.cpp\<close>: \<open>WidestRegister\<close>, \<open>ReadRegister\<close>,
  \<open>ReadRegistersMemOp\<close>, \<open>ReadRegisters\<close>, the typed accessors \<open>ReadValue\<close> and
  \<open>WriteValue\<close>, \<open>ReadGPR\<close>, \<open>WriteGPR\<close> and \<open>WriteRegisters\<close>. A register is requested
  from the executor under the widest name that the address size and the features allow,
  at most once per instruction, and stored in the slot of its largest enclosing register;
  after execution the modified ones are reported back, the program counter last.
\<close>

section \<open>Which register is requested\<close>

definition WidestRegister :: "xed \<Rightarrow> 's executor \<Rightarrow> xed_reg \<Rightarrow> xed_reg" where
  "WidestRegister X E r =
     (let wreg = (if 64 = addr_size E then get_largest_enclosing_register X r
                  else get_largest_enclosing_register32 X r) in
      if wreg = reg X XED_REG_INVALID then r
      else
        (let wreg = (if reg X XED_REG_ZMM_FIRST \<le> wreg \<and> wreg \<le> reg X XED_REG_ZMM_LAST
                        \<and> \<not> has_avx512 E
                     then (wreg - reg X XED_REG_ZMM_FIRST) + reg X XED_REG_YMM_FIRST
                     else wreg) in
         if reg X XED_REG_YMM_FIRST \<le> wreg \<and> wreg \<le> reg X XED_REG_YMM_LAST \<and> \<not> has_avx E
         then (wreg - reg X XED_REG_YMM_FIRST) + reg X XED_REG_XMM_FIRST
         else wreg))"

lemma WidestRegister_pair:
  "gpr_pair X e r \<Longrightarrow> WidestRegister X E (reg X e) = (if addr_size E = 64 then reg X r else reg X e)"
  by (cases "addr_size E = 64") (auto simp: WidestRegister_def gpr_pair_def Let_def)

section \<open>Reading registers from the executor\<close>

text \<open>The second half of \<open>ReadRegister\<close>: mark the register as modified, answer from the
  cache, or ask the executor and store the answer.\<close>

definition request_register ::
  "xed \<Rightarrow> 's executor \<Rightarrow> xed_reg \<Rightarrow> RegRequestHint \<Rightarrow> 's world \<Rightarrow> bool \<times> 's world" where
  "request_register X E r hint w =
     (let widest_reg = WidestRegister X E r;
          g = (if kWriteBack = hint
               then (fst w)\<lparr>gModifiedRegs := insert widest_reg (gModifiedRegs (fst w))\<rparr> else fst w)
      in if widest_reg \<in> gUsedRegs g then (True, g, snd w)
         else
           (let name = reg_enum_t2str X widest_reg;
                sz = get_register_width_bits64 X widest_reg;
                store_reg = get_largest_enclosing_register X r;
                data = put_bits 0 (8 * (sz div 8)) (0 :: u64) (gRegs g store_reg)
            in case ReadReg E name sz hint data (snd w) of (ok, data', s') \<Rightarrow>
                 (ok, g\<lparr>gRegs := (gRegs g)(store_reg := data'),
                        gUsedRegs := insert widest_reg (gUsedRegs g),
                        gStoreRegs := insert store_reg (gStoreRegs g)\<rparr>, s')))"

definition is_stack_pseudo :: "xed \<Rightarrow> xed_reg \<Rightarrow> bool" where
  "is_stack_pseudo X r \<longleftrightarrow> reg X XED_REG_STACKPUSH = r \<or> reg X XED_REG_STACKPOP = r"

definition ReadRegister ::
  "xed \<Rightarrow> 's executor \<Rightarrow> xed_reg \<Rightarrow> RegRequestHint \<Rightarrow> 's world \<Rightarrow> bool \<times> 's world" where
  "ReadRegister X E r hint w =
     (if reg X XED_REG_INVALID = r then (True, w)
      else if get_reg_class X r = XED_REG_CLASS_X87 \<or> get_reg_class X r = XED_REG_CLASS_PSEUDOX87
      then (True, (fst w)\<lparr>gUsesFPU := True\<rparr>, snd w)
      else
        (let g = (if get_reg_class X r = XED_REG_CLASS_MMX
                  then (fst w)\<lparr>gUsesFPU := True, gUsesMMX := True\<rparr> else fst w)
         in if is_stack_pseudo X r
            then request_register X E (reg X XED_REG_ESP) kWriteBack (g, snd w)
            else request_register X E r hint (g, snd w)))"

definition ReadRegistersMemOp ::
  "xed \<Rightarrow> 's executor \<Rightarrow> nat \<Rightarrow> 's world \<Rightarrow> bool \<times> 's world" where
  "ReadRegistersMemOp X E op_num w =
     and_also (ReadRegister X E (get_base_reg (gXedd (fst w)) op_num) kMemoryBaseAddress)
              (ReadRegister X E (get_index_reg (gXedd (fst w)) op_num) kMemoryIndexAddress) w"

text \<open>The values of \<open>mem_index\<close> at the memory operands, in operand order.\<close>

fun is_mem_operand :: "xed_operand \<Rightarrow> bool" where
  "is_mem_operand XED_OPERAND_AGEN = True"
| "is_mem_operand XED_OPERAND_MEM0 = True"
| "is_mem_operand XED_OPERAND_MEM1 = True"
| "is_mem_operand _ = False"

fun mem_indices :: "xed_inst_operand list \<Rightarrow> nat \<Rightarrow> nat list" where
  "mem_indices [] k = []"
| "mem_indices (xedo # ops) k =
     (if is_mem_operand (operand_name xedo) then k # mem_indices ops (Suc k) else mem_indices ops k)"

definition is_reg_operand :: "xed_operand \<Rightarrow> bool" where
  "is_reg_operand name \<longleftrightarrow> name \<in> {XED_OPERAND_REG, XED_OPERAND_REG0, XED_OPERAND_REG1,
     XED_OPERAND_REG2, XED_OPERAND_REG3, XED_OPERAND_REG4, XED_OPERAND_REG5, XED_OPERAND_REG6,
     XED_OPERAND_REG7, XED_OPERAND_REG8}"

text \<open>One round of the second (\<open>written = False\<close>) and third (\<open>written = True\<close>) loop.\<close>

definition ReadOperandRegister ::
  "xed \<Rightarrow> 's executor \<Rightarrow> bool \<Rightarrow> RegRequestHint \<Rightarrow> xed_inst_operand \<Rightarrow> 's world \<Rightarrow> bool \<times> 's world" where
  "ReadOperandRegister X E written hint xedo w =
     (if operand_written xedo \<noteq> written then (True, w)
      else if is_reg_operand (operand_name xedo) then
        (let r = get_reg (gXedd (fst w)) (operand_name xedo) in
         if r \<noteq> 0 then ReadRegister X E r hint w else (True, w))
      else (True, w))"

definition ReadRegisters :: "xed \<Rightarrow> 's executor \<Rightarrow> 's world \<Rightarrow> bool \<times> 's world" where
  "ReadRegisters X E w =
     (let ops = get_operands (gXedd (fst w)) in
      and_also (each (ReadRegistersMemOp X E) (mem_indices ops 0))
        (and_also (each (ReadOperandRegister X E False kGeneral) ops)
                  (each (ReadOperandRegister X E True kWriteBack) ops)) w)"

section \<open>Typed access to the stored values\<close>

text \<open>\<open>ReadValue<uintN_t>\<close> and \<open>WriteValue<uintN_t>\<close>, \<open>n\<close> being 64, 32, 16 or 8.\<close>

definition ReadValue :: "xed \<Rightarrow> nat \<Rightarrow> xed_reg \<Rightarrow> gstate \<Rightarrow> u64" where
  "ReadValue X n r g = get_bits 0 n (gRegs g (get_largest_enclosing_register X r))"

definition WriteValue :: "xed \<Rightarrow> nat \<Rightarrow> xed_reg \<Rightarrow> u64 \<Rightarrow> gstate \<Rightarrow> gstate" where
  "WriteValue X n r v g =
     (let reg_store = get_largest_enclosing_register X r in
      g\<lparr>gRegs := (gRegs g)(reg_store := put_bits 0 n v (gRegs g reg_store))\<rparr>)"

definition is_gpr8h :: "xed \<Rightarrow> xed_reg \<Rightarrow> bool" where
  "is_gpr8h X r \<longleftrightarrow> reg X XED_REG_GPR8h_FIRST \<le> r \<and> r \<le> reg X XED_REG_GPR8h_LAST"

definition ReadGPR :: "xed \<Rightarrow> xed_reg \<Rightarrow> gstate \<Rightarrow> u64" where
  "ReadGPR X r g =
     (let shift = (if is_gpr8h X r then 8 else 0);
          sz = (if is_gpr8h X r then 16 else get_register_width_bits64 X r)
      in if sz = 64 then drop_bit shift (ReadValue X 64 r g)
         else if sz = 32 then drop_bit shift (ReadValue X 32 r g)
         else if sz = 16 then drop_bit shift (ReadValue X 16 r g)
         else if sz = 8 then drop_bit shift (ReadValue X 8 r g)
         else 0)"

definition WriteGPR :: "xed \<Rightarrow> xed_reg \<Rightarrow> u64 \<Rightarrow> gstate \<Rightarrow> gstate" where
  "WriteGPR X r v g =
     (let sz = get_register_width_bits64 X r in
      if sz = 64 then WriteValue X 64 r v g
      else if sz = 32 then WriteValue X 64 r (ucast (ucast v :: u32)) g
      else if sz = 16 then WriteValue X 16 r v g
      else if sz = 8 then
        (if is_gpr8h X r then
           (let whole_val = ReadValue X 64 r g;
                whole_val = whole_val AND NOT 0xFF00;
                whole_val = whole_val OR push_bit 8 (v AND 0xFF)
            in WriteValue X 64 r whole_val g)
         else WriteValue X 8 r v g)
      else g)"

section \<open>Reporting registers back\<close>

definition write_one :: "xed \<Rightarrow> 's executor \<Rightarrow> gstate \<Rightarrow> xed_reg \<Rightarrow> 's \<Rightarrow> bool \<times> 's" where
  "write_one X E g r s =
     WriteReg E (reg_enum_t2str X r) (get_register_width_bits64 X r)
       (gRegs g (get_largest_enclosing_register X r)) s"

definition is_pc :: "xed \<Rightarrow> xed_reg \<Rightarrow> bool" where
  "is_pc X r \<longleftrightarrow> r = reg X XED_REG_EIP \<or> r = reg X XED_REG_RIP"

fun write_loop ::
  "xed \<Rightarrow> 's executor \<Rightarrow> gstate \<Rightarrow> xed_reg list \<Rightarrow> xed_reg \<Rightarrow> 's \<Rightarrow> bool \<times> xed_reg \<times> 's" where
  "write_loop X E g [] pc_reg s = (True, pc_reg, s)"
| "write_loop X E g (i # is) pc_reg s =
     (if i \<notin> gUsedRegs g then write_loop X E g is pc_reg s
      else if is_pc X i then write_loop X E g is i s
      else if i \<in> gModifiedRegs g then
        (case write_one X E g i s of (ok, s') \<Rightarrow>
           if ok then write_loop X E g is pc_reg s' else (False, pc_reg, s'))
      else write_loop X E g is pc_reg s)"

definition restore_stack_pointer :: "xed \<Rightarrow> gstate \<Rightarrow> gstate" where
  "restore_stack_pointer X g =
     (if reg X XED_REG_INVALID \<noteq> gStackPtrAlias g
      then (WriteGPR X (reg X XED_REG_RSP) (ReadGPR X (gStackPtrAlias g) g) g)
             \<lparr>gStackPtrAlias := reg X XED_REG_INVALID\<rparr>
      else g)"

definition WriteRegisters :: "xed \<Rightarrow> 's executor \<Rightarrow> 's world \<Rightarrow> bool \<times> 's world" where
  "WriteRegisters X E w =
     (let g = restore_stack_pointer X (fst w) in
      case write_loop X E g [0..<reg X XED_REG_LAST] (reg X XED_REG_INVALID) (snd w) of
        (ok, pc_reg, s) \<Rightarrow>
          if \<not> ok then (False, g, s)
          else if reg X XED_REG_INVALID \<noteq> pc_reg then
            (case write_one X E g pc_reg s of (ok', s') \<Rightarrow> (ok', g, s'))
          else (True, g, s))"

section \<open>The slots as cells\<close>

text \<open>The \<open>n\<close> low bits of a stored value, for the four widths the code casts to, and the
  high byte of the low word, are fields of the slot.\<close>

interpretation data64: cell "get_bits 0 64 :: Data \<Rightarrow> u64" "put_bits 0 64" "take_bit 64"
  by unfold_locales (simp_all add: get_put_bits put_get_bits put_put_bits)

interpretation data32: cell "get_bits 0 32 :: Data \<Rightarrow> u64" "put_bits 0 32" "take_bit 32"
  by unfold_locales (simp_all add: get_put_bits put_get_bits put_put_bits)

interpretation data16: cell "get_bits 0 16 :: Data \<Rightarrow> u64" "put_bits 0 16" "take_bit 16"
  by unfold_locales (simp_all add: get_put_bits put_get_bits put_put_bits)

interpretation data8: cell_pair "get_bits 0 8 :: Data \<Rightarrow> u64" "put_bits 0 8" "take_bit 8"
  "get_bits 8 8 :: Data \<Rightarrow> u64" "put_bits 8 8" "take_bit 8"
  by unfold_locales (simp_all add: get_put_bits put_get_bits put_put_bits, rule put_bits_swap, simp)

text \<open>Hence the typed accessors are fields of the whole state.\<close>

lemma cell_gRegs:
  "cell rd wr nrm \<Longrightarrow>
   cell (\<lambda>g. rd (gRegs g k)) (\<lambda>v g. g\<lparr>gRegs := (gRegs g)(k := wr v (gRegs g k))\<rparr>) nrm"
  by (simp add: cell_def)

lemma WriteValue_lambda:
  "WriteValue X n r = (\<lambda>v g. g\<lparr>gRegs := (gRegs g)(get_largest_enclosing_register X r :=
     put_bits 0 n v (gRegs g (get_largest_enclosing_register X r)))\<rparr>)"
  by (intro ext) (simp add: WriteValue_def Let_def)

lemma ReadValue_lambda:
  "ReadValue X n r = (\<lambda>g. get_bits 0 n (gRegs g (get_largest_enclosing_register X r)))"
  by (intro ext) (simp add: ReadValue_def)

interpretation val64: cell "ReadValue X 64 r" "WriteValue X 64 r" "take_bit 64" for X r
  unfolding ReadValue_lambda WriteValue_lambda by (rule cell_gRegs) (rule data64.cell_axioms)

interpretation val32: cell "ReadValue X 32 r" "WriteValue X 32 r" "take_bit 32" for X r
  unfolding ReadValue_lambda WriteValue_lambda by (rule cell_gRegs) (rule data32.cell_axioms)

interpretation val16: cell "ReadValue X 16 r" "WriteValue X 16 r" "take_bit 16" for X r
  unfolding ReadValue_lambda WriteValue_lambda by (rule cell_gRegs) (rule data16.cell_axioms)

interpretation val8: cell "ReadValue X 8 r" "WriteValue X 8 r" "take_bit 8" for X r
  unfolding ReadValue_lambda WriteValue_lambda by (rule cell_gRegs) (rule data8.a.cell_axioms)

lemmas value_cells =
  val64.rd_wr val32.rd_wr val16.rd_wr val8.rd_wr val64.wr_wr val32.wr_wr val16.wr_wr val8.wr_wr

section \<open>General-purpose registers\<close>

definition gpr_low :: "xed \<Rightarrow> xed_reg \<Rightarrow> nat" where
  "gpr_low X r = (if is_gpr8h X r then 8 else 0)"

text \<open>The registers the accessors are written for.\<close>

definition is_gpr :: "xed \<Rightarrow> xed_reg \<Rightarrow> bool" where
  "is_gpr X r \<longleftrightarrow> get_register_width_bits64 X r \<in> {8, 16, 32, 64} \<and>
     (is_gpr8h X r \<longrightarrow> get_register_width_bits64 X r = 8)"

lemma ReadGPR_get_bits:
  "is_gpr X r \<Longrightarrow> ReadGPR X r g =
     get_bits (gpr_low X r) (get_register_width_bits64 X r) (gRegs g (get_largest_enclosing_register X r))"
  by (rule bit_word_eqI)
    (auto simp: ReadGPR_def ReadValue_def gpr_low_def is_gpr_def Let_def bit_simps)

lemma gRegs_WriteGPR_other:
  "q \<noteq> get_largest_enclosing_register X r \<Longrightarrow> gRegs (WriteGPR X r v g) q = gRegs g q"
  by (auto simp: WriteGPR_def WriteValue_def Let_def)

lemma bit_ff00: "bit (0xFF00 :: int) i \<longleftrightarrow> 8 \<le> i \<and> i < 16"
proof -
  have eq: "(0xFF00 :: int) = push_bit 8 (mask 8)" by (simp add: mask_eq_exp_minus_1)
  show ?thesis by (subst eq) (auto simp: bit_push_bit_iff bit_mask_iff)
qed

lemma bit_ff: "bit (0xFF :: int) i \<longleftrightarrow> i < 8"
proof -
  have eq: "(0xFF :: int) = mask 8" by (simp add: mask_eq_exp_minus_1)
  show ?thesis by (subst eq) (auto simp: bit_mask_iff)
qed

text \<open>
  C18: a write to a general-purpose register changes its slot as x86 does: the bits of the
  register (bits 8 to 15 for AH, BH, CH, DH) become those of the value, a 32-bit write also
  clears bits 32 to 63, and every other bit of the slot keeps its value.
\<close>

theorem WriteGPR_slot:
  assumes "is_gpr X r" and "i < 512"
  shows "bit (gRegs (WriteGPR X r v g) (get_largest_enclosing_register X r)) i \<longleftrightarrow>
    (if gpr_low X r \<le> i \<and> i < gpr_low X r + get_register_width_bits64 X r then bit v (i - gpr_low X r)
     else if get_register_width_bits64 X r = 32 \<and> i < 64 then False
     else bit (gRegs g (get_largest_enclosing_register X r)) i)"
  using assms
  by (auto simp: WriteGPR_def WriteValue_def ReadValue_def gpr_low_def is_gpr_def Let_def bit_simps
      bit_ff00 bit_ff)

lemma ReadGPR_WriteGPR_eq:
  "is_gpr X r \<Longrightarrow> ReadGPR X r (WriteGPR X r v g) = take_bit (get_register_width_bits64 X r) v"
  by (intro bit_word_eqI)
    (auto simp: ReadGPR_get_bits WriteGPR_def WriteValue_def ReadValue_def gpr_low_def is_gpr_def
      Let_def bit_simps bit_ff00 bit_ff)

lemma ReadGPR_WriteGPR_other:
  "get_largest_enclosing_register X q \<noteq> get_largest_enclosing_register X r \<Longrightarrow>
   ReadGPR X q (WriteGPR X r v g) = ReadGPR X q g"
  by (simp add: ReadGPR_def ReadValue_def gRegs_WriteGPR_other Let_def)

theorem WriteGPR_slot_witness:
  "is_gpr sample_xed 75 \<and> (9 :: nat) < 512 \<and>
   bit (gRegs (WriteGPR sample_xed 75 0xAB sample_gstate) 11) 9"
proof -
  have h: "is_gpr sample_xed 75" "(9 :: nat) < 512"
    by (simp_all add: is_gpr_def is_gpr8h_def sample_xed_simps)
  from WriteGPR_slot [OF h, of "0xAB" sample_gstate] show ?thesis
    using h by (simp add: gpr_low_def is_gpr8h_def sample_xed_simps)
qed

section \<open>The widest register respects the features\<close>

definition in_ymm :: "xed \<Rightarrow> xed_reg \<Rightarrow> bool" where
  "in_ymm X r \<longleftrightarrow> reg X XED_REG_YMM_FIRST \<le> r \<and> r \<le> reg X XED_REG_YMM_LAST"

definition in_zmm :: "xed \<Rightarrow> xed_reg \<Rightarrow> bool" where
  "in_zmm X r \<longleftrightarrow> reg X XED_REG_ZMM_FIRST \<le> r \<and> r \<le> reg X XED_REG_ZMM_LAST"

text \<open>XED numbers the XMM, YMM and ZMM registers in three disjoint blocks, in this order,
  the ZMM block being no longer than the YMM block.\<close>

definition vector_blocks :: "xed \<Rightarrow> bool" where
  "vector_blocks X \<longleftrightarrow>
     reg X XED_REG_XMM_FIRST + (reg X XED_REG_YMM_LAST - reg X XED_REG_YMM_FIRST) < reg X XED_REG_YMM_FIRST \<and>
     reg X XED_REG_YMM_FIRST \<le> reg X XED_REG_YMM_LAST \<and>
     reg X XED_REG_YMM_LAST < reg X XED_REG_ZMM_FIRST \<and>
     reg X XED_REG_ZMM_LAST - reg X XED_REG_ZMM_FIRST \<le> reg X XED_REG_YMM_LAST - reg X XED_REG_YMM_FIRST"

text \<open>XED knows an enclosing register of every vector register.\<close>

definition enclosed :: "xed \<Rightarrow> xed_reg \<Rightarrow> bool" where
  "enclosed X r \<longleftrightarrow>
     (in_ymm X r \<or> in_zmm X r \<longrightarrow>
        get_largest_enclosing_register X r \<noteq> reg X XED_REG_INVALID \<and>
        get_largest_enclosing_register32 X r \<noteq> reg X XED_REG_INVALID)"

lemma zmm_to_ymm:
  "vector_blocks X \<Longrightarrow> in_zmm X w \<Longrightarrow> in_ymm X (w - reg X XED_REG_ZMM_FIRST + reg X XED_REG_YMM_FIRST)"
  unfolding vector_blocks_def in_zmm_def in_ymm_def by arith

lemma ymm_not_zmm: "vector_blocks X \<Longrightarrow> in_ymm X w \<Longrightarrow> \<not> in_zmm X w"
  unfolding vector_blocks_def in_zmm_def in_ymm_def by arith

lemma ymm_to_xmm:
  "vector_blocks X \<Longrightarrow> in_ymm X w \<Longrightarrow>
   \<not> in_ymm X (w - reg X XED_REG_YMM_FIRST + reg X XED_REG_XMM_FIRST) \<and>
   \<not> in_zmm X (w - reg X XED_REG_YMM_FIRST + reg X XED_REG_XMM_FIRST)"
  unfolding vector_blocks_def in_zmm_def in_ymm_def by arith

lemma WidestRegister_blocks:
  "WidestRegister X E r =
     (let wreg = (if 64 = addr_size E then get_largest_enclosing_register X r
                  else get_largest_enclosing_register32 X r);
          y = (if in_zmm X wreg \<and> \<not> has_avx512 E
               then wreg - reg X XED_REG_ZMM_FIRST + reg X XED_REG_YMM_FIRST else wreg)
      in if wreg = reg X XED_REG_INVALID then r
         else if in_ymm X y \<and> \<not> has_avx E then y - reg X XED_REG_YMM_FIRST + reg X XED_REG_XMM_FIRST
         else y)"
  unfolding WidestRegister_def in_zmm_def in_ymm_def Let_def conj_assoc by (rule refl)

text \<open>
  An executor that announces no AVX-512 is never asked for a ZMM register, and one that
  announces neither AVX nor AVX-512 is never asked for a YMM register either: whatever
  register the instruction names, \<open>WidestRegister\<close> downgrades it.
\<close>

theorem WidestRegister_features:
  assumes blocks: "vector_blocks X" and enc: "enclosed X r" and no512: "\<not> has_avx512 E"
  shows "\<not> in_zmm X (WidestRegister X E r) \<and> (\<not> has_avx E \<longrightarrow> \<not> in_ymm X (WidestRegister X E r))"
proof -
  define wreg where "wreg = (if 64 = addr_size E then get_largest_enclosing_register X r
                  else get_largest_enclosing_register32 X r)"
  define y where "y = (if in_zmm X wreg then wreg - reg X XED_REG_ZMM_FIRST + reg X XED_REG_YMM_FIRST
                       else wreg)"
  have W: "WidestRegister X E r = (if wreg = reg X XED_REG_INVALID then r
      else if in_ymm X y \<and> \<not> has_avx E then y - reg X XED_REG_YMM_FIRST + reg X XED_REG_XMM_FIRST
      else y)"
    unfolding WidestRegister_blocks Let_def y_def wreg_def using no512 by simp
  have y: "\<not> in_zmm X y"
    unfolding y_def using zmm_to_ymm [OF blocks] ymm_not_zmm [OF blocks] by (cases "in_zmm X wreg") auto
  show ?thesis
  proof (cases "wreg = reg X XED_REG_INVALID")
    case True
    with enc have "\<not> in_ymm X r \<and> \<not> in_zmm X r"
      by (auto simp: enclosed_def wreg_def split: if_splits)
    with True W show ?thesis by simp
  next
    case False
    with W y ymm_to_xmm [OF blocks, of y] show ?thesis by auto
  qed
qed

theorem WidestRegister_features_witness:
  "vector_blocks sample_xed \<and> enclosed sample_xed 119 \<and> \<not> has_avx512 (sample_executor 64) \<and>
   WidestRegister sample_xed (sample_executor 64) 119 = 87 \<and>
   \<not> in_zmm sample_xed (WidestRegister sample_xed (sample_executor 64) 119)"
proof -
  have h: "vector_blocks sample_xed" "enclosed sample_xed 119" "\<not> has_avx512 (sample_executor 64)"
    by (simp_all add: vector_blocks_def enclosed_def in_ymm_def in_zmm_def sample_simps)
  have w: "WidestRegister sample_xed (sample_executor 64) 119 = 87"
    by (simp add: WidestRegister_def sample_simps)
  from WidestRegister_features [OF h] show ?thesis using h w by simp
qed

section \<open>Requests to the executor\<close>

text \<open>
  What a call may do to the world: the set of registers asked for only grows, a register is
  asked for (the executor is called) only when it grows, and the registers marked as
  modified stay marked.
\<close>

definition reads_more :: "'s world \<Rightarrow> 's world \<Rightarrow> bool" where
  "reads_more w w' \<longleftrightarrow>
     gUsedRegs (fst w) \<subseteq> gUsedRegs (fst w') \<and> gModifiedRegs (fst w) \<subseteq> gModifiedRegs (fst w') \<and>
     gStoreRegs (fst w) \<subseteq> gStoreRegs (fst w') \<and>
     (gUsedRegs (fst w') = gUsedRegs (fst w) \<longrightarrow> snd w' = snd w \<and> gRegs (fst w') = gRegs (fst w))"

interpretation reads: step_relation reads_more
  by unfold_locales (auto simp: reads_more_def)

text \<open>The parts of the globals that reading registers never touches.\<close>

definition same_inst :: "'s world \<Rightarrow> 's world \<Rightarrow> bool" where
  "same_inst w w' \<longleftrightarrow>
     gXedd (fst w') = gXedd (fst w) \<and> gEmu (fst w') = gEmu (fst w) \<and>
     gEmuSize (fst w') = gEmuSize (fst w) \<and> gExecArea (fst w') = gExecArea (fst w) \<and>
     gStackPtrAlias (fst w') = gStackPtrAlias (fst w) \<and> gFPU (fst w') = gFPU (fst w) \<and>
     gMemory (fst w') = gMemory (fst w) \<and> gWriteBackFlags (fst w') = gWriteBackFlags (fst w) \<and>
     gIsInitialized (fst w') = gIsInitialized (fst w) \<and>
     gSignalHandler (fst w') = gSignalHandler (fst w) \<and> disposition (fst w') = disposition (fst w) \<and>
     idata (fst w') = idata (fst w)"

interpretation same: step_relation same_inst
  by unfold_locales (auto simp: same_inst_def)

lemma request_register_reads: "reads_more w (snd (request_register X E r h w))"
  by (auto simp: request_register_def reads_more_def Let_def split: prod.splits)

lemma request_register_same: "same_inst w (snd (request_register X E r h w))"
  by (simp add: request_register_def same_inst_def Let_def split: prod.splits)

lemma ReadRegister_reads: "reads_more w (snd (ReadRegister X E r h w))"
  using request_register_reads [of "((fst w)\<lparr>gUsesFPU := True, gUsesMMX := True\<rparr>, snd w)" X E]
    request_register_reads [of w X E]
  by (simp add: ReadRegister_def Let_def) (simp add: reads_more_def)

lemma ReadRegister_same: "same_inst w (snd (ReadRegister X E r h w))"
  using request_register_same [of "((fst w)\<lparr>gUsesFPU := True, gUsesMMX := True\<rparr>, snd w)" X E]
    request_register_same [of w X E]
  by (simp add: ReadRegister_def Let_def) (simp add: same_inst_def)

lemma ReadRegistersMemOp_reads: "reads_more w (snd (ReadRegistersMemOp X E k w))"
  unfolding ReadRegistersMemOp_def by (intro reads.and_also_keeps ReadRegister_reads)

lemma ReadRegistersMemOp_same: "same_inst w (snd (ReadRegistersMemOp X E k w))"
  unfolding ReadRegistersMemOp_def by (intro same.and_also_keeps ReadRegister_same)

lemma ReadOperandRegister_reads: "reads_more w (snd (ReadOperandRegister X E b h op w))"
  by (simp add: ReadOperandRegister_def Let_def ReadRegister_reads reads.R_refl)

lemma ReadOperandRegister_same: "same_inst w (snd (ReadOperandRegister X E b h op w))"
  by (simp add: ReadOperandRegister_def Let_def ReadRegister_same same.R_refl)

lemma ReadRegisters_same: "same_inst w (snd (ReadRegisters X E w))"
  unfolding ReadRegisters_def Let_def
  by (intro same.and_also_keeps same.each_keeps ReadRegistersMemOp_same ReadOperandRegister_same)

text \<open>
  While the registers of an instruction are gathered, the executor is called only to
  obtain a register that has not been obtained before; once every register needed is in
  the cache a further gathering changes neither the machine nor the cached values.
\<close>

theorem ReadRegisters_reads: "reads_more w (snd (ReadRegisters X E w))"
  unfolding ReadRegisters_def Let_def
  by (intro reads.and_also_keeps reads.each_keeps ReadRegistersMemOp_reads ReadOperandRegister_reads)

text \<open>The name under which a register is looked up in the cache, if it is at all.\<close>

definition cache_name :: "xed \<Rightarrow> 's executor \<Rightarrow> xed_reg \<Rightarrow> xed_reg" where
  "cache_name X E r = WidestRegister X E
     (if is_stack_pseudo X r then reg X XED_REG_ESP else r)"

definition not_cached :: "xed \<Rightarrow> xed_reg \<Rightarrow> bool" where
  "not_cached X r \<longleftrightarrow> reg X XED_REG_INVALID = r \<or> get_reg_class X r = XED_REG_CLASS_X87 \<or>
     get_reg_class X r = XED_REG_CLASS_PSEUDOX87"

lemma request_register_fills:
  "WidestRegister X E r \<in> gUsedRegs (fst (snd (request_register X E r h w)))"
  by (simp add: request_register_def Let_def split: prod.splits)

lemma request_register_hit:
  "WidestRegister X E r \<in> gUsedRegs (fst w) \<Longrightarrow>
   fst (request_register X E r h w) \<and> snd (snd (request_register X E r h w)) = snd w \<and>
   gRegs (fst (snd (request_register X E r h w))) = gRegs (fst w) \<and>
   gUsedRegs (fst (snd (request_register X E r h w))) = gUsedRegs (fst w)"
  by (simp add: request_register_def Let_def)

lemma ReadRegister_fills:
  "\<not> not_cached X r \<Longrightarrow> cache_name X E r \<in> gUsedRegs (fst (snd (ReadRegister X E r h w)))"
  by (simp add: ReadRegister_def not_cached_def cache_name_def request_register_fills Let_def)

lemma ReadRegister_hit:
  assumes "not_cached X r \<or> cache_name X E r \<in> gUsedRegs (fst w)"
  shows "fst (ReadRegister X E r h w) \<and> snd (snd (ReadRegister X E r h w)) = snd w \<and>
    gRegs (fst (snd (ReadRegister X E r h w))) = gRegs (fst w) \<and>
    gUsedRegs (fst (snd (ReadRegister X E r h w))) = gUsedRegs (fst w)"
proof (cases "not_cached X r")
  case True
  then show ?thesis by (auto simp: ReadRegister_def not_cached_def)
next
  case False
  with assms have "cache_name X E r \<in> gUsedRegs (fst w)" by simp
  with False show ?thesis
    by (cases "is_stack_pseudo X r")
      (simp_all add: ReadRegister_def not_cached_def cache_name_def request_register_hit Let_def)
qed

text \<open>
  No register is requested twice: after any attempt to read a register, successful or
  not, asking for it again succeeds at once and leaves the machine and the cached values
  as they are, whatever the two hints were.
\<close>

theorem ReadRegister_once:
  "let w1 = snd (ReadRegister X E r h w); res = ReadRegister X E r h' w1 in
   fst res \<and> snd (snd res) = snd w1 \<and> gRegs (fst (snd res)) = gRegs (fst w1) \<and>
   gUsedRegs (fst (snd res)) = gUsedRegs (fst w1)"
  unfolding Let_def using ReadRegister_fills by (intro ReadRegister_hit) blast

section \<open>The order of the reports\<close>

text \<open>The registers reported by \<open>WriteRegisters\<close>: those used and modified in the order of
  their numbers, except that the program counter comes last (if both EIP and RIP are in
  use, the one with the higher number).\<close>

definition pc_regs :: "xed \<Rightarrow> gstate \<Rightarrow> xed_reg list \<Rightarrow> xed_reg list" where
  "pc_regs X g is = filter (\<lambda>i. i \<in> gUsedRegs g \<and> is_pc X i) is"

definition plain_regs :: "xed \<Rightarrow> gstate \<Rightarrow> xed_reg list \<Rightarrow> xed_reg list" where
  "plain_regs X g is = filter (\<lambda>i. i \<in> gUsedRegs g \<and> \<not> is_pc X i \<and> i \<in> gModifiedRegs g) is"

definition write_order :: "xed \<Rightarrow> gstate \<Rightarrow> xed_reg list" where
  "write_order X g =
     (let is = [0..<reg X XED_REG_LAST]; pcs = pc_regs X g is in
      plain_regs X g is @ (if pcs = [] then [] else [last pcs]))"

lemma write_loop_each:
  "fst (write_loop X E g is pc s) = fst (each (write_one X E g) (plain_regs X g is) s)"
  "snd (snd (write_loop X E g is pc s)) = snd (each (write_one X E g) (plain_regs X g is) s)"
  by (induction "is" arbitrary: pc s) (simp_all add: plain_regs_def split: prod.splits)

lemma write_loop_pc:
  "fst (write_loop X E g is pc s) \<Longrightarrow>
   fst (snd (write_loop X E g is pc s)) = last (pc # pc_regs X g is)"
  by (induction "is" arbitrary: pc s) (auto simp: pc_regs_def split: prod.splits if_splits)

lemma WriteRegisters_eq:
  assumes "xed_ok X"
  shows "WriteRegisters X E w =
    (let g = restore_stack_pointer X (fst w) in
     case each (write_one X E g) (write_order X g) (snd w) of (ok, s) \<Rightarrow> (ok, g, s))"
proof -
  define g where "g = restore_stack_pointer X (fst w)"
  define inv where "inv = reg X XED_REG_INVALID"
  let ?is = "[0..<reg X XED_REG_LAST]"
  obtain ok pc s' where L: "write_loop X E g ?is inv (snd w) = (ok, pc, s')"
    by (cases "write_loop X E g ?is inv (snd w)") auto
  have e: "each (write_one X E g) (plain_regs X g ?is) (snd w) = (ok, s')"
    using write_loop_each [of X E g ?is inv "snd w"] L by (simp add: prod_eq_iff)
  have pc: "ok \<Longrightarrow> pc = last (inv # pc_regs X g ?is)"
    using write_loop_pc [of X E g ?is inv "snd w"] L by simp
  have ne: "r \<in> set (pc_regs X g ?is) \<Longrightarrow> r \<noteq> inv" for r
    using gpr_pairD(6,7) [OF xed_ok_pairs(1) [OF assms]] by (auto simp: pc_regs_def is_pc_def inv_def)
  have "pc_regs X g ?is = [] \<or> last (pc_regs X g ?is) \<noteq> inv"
    using ne last_in_set by blast
  then show ?thesis
    using e pc
    by (auto simp: WriteRegisters_def g_def [symmetric] inv_def [symmetric] L write_order_def
        each_append and_also_def Let_def split: prod.splits)
qed

text \<open>
  C16: \<open>WriteRegisters\<close>, which walks the bit set of used registers and remembers the
  program counter on the way, reports exactly the registers of \<open>write_order\<close>, in that
  order, and stops at the first report the executor refuses.
\<close>

theorem WriteRegisters_order:
  assumes "xed_ok X"
  shows "WriteRegisters X E w =
    (let g = restore_stack_pointer X (fst w) in
     case each (write_one X E g) (write_order X g) (snd w) of (ok, s) \<Rightarrow> (ok, g, s))"
  using assms by (rule WriteRegisters_eq)

text \<open>The program counter is the last register reported, and is reported whether or not it
  is marked as modified.\<close>

lemma write_order_pc_last:
  assumes "xed_ok X" and "r \<in> gUsedRegs g" and "is_pc X r" and "r < reg X XED_REG_LAST"
  shows "\<exists>rs pc. write_order X g = rs @ [pc] \<and> is_pc X pc \<and> pc \<in> gUsedRegs g \<and> distinct rs \<and>
    (\<forall>q \<in> set rs. \<not> is_pc X q \<and> q \<in> gUsedRegs g \<and> q \<in> gModifiedRegs g)"
proof -
  let ?is = "[0..<reg X XED_REG_LAST]"
  have "r \<in> set (pc_regs X g ?is)" using assms by (simp add: pc_regs_def)
  then have ne: "pc_regs X g ?is \<noteq> []" by auto
  then have "last (pc_regs X g ?is) \<in> set (pc_regs X g ?is)" by (rule last_in_set)
  then have "is_pc X (last (pc_regs X g ?is))" "last (pc_regs X g ?is) \<in> gUsedRegs g"
    by (simp_all add: pc_regs_def)
  with ne show ?thesis
    by (intro exI [of _ "plain_regs X g ?is"] exI [of _ "last (pc_regs X g ?is)"])
      (auto simp: write_order_def plain_regs_def Let_def)
qed

text \<open>The cached state after an instruction that used RIP and modified RAX.\<close>

definition sample_used :: gstate where
  "sample_used = sample_gstate\<lparr>gUsedRegs := {4, 11, 12}, gModifiedRegs := {11},
     gRegs := (\<lambda>_. 0)(4 := 0x401000, 11 := 7)\<rparr>"

lemma sample_write_order: "write_order sample_xed sample_used = [11, 4]"
  by code_simp

theorem WriteRegisters_order_witness:
  "xed_ok sample_xed \<and>
   WriteRegisters sample_xed (sample_executor 64) (sample_used, []) =
     (True, sample_used, [CallWriteReg ''RAX'' 7, CallWriteReg ''RIP'' 0x401000])"
proof -
  have g: "restore_stack_pointer sample_xed sample_used = sample_used"
    by (simp add: restore_stack_pointer_def sample_used_def sample_simps)
  show ?thesis
    using WriteRegisters_order [OF sample_xed_ok, of "sample_executor 64" "(sample_used, [])"]
    by (simp add: g sample_write_order sample_xed_ok)
      (simp add: write_one_def sample_used_def sample_simps)
qed

end
