(* ===== verification/Rflags.thy ===== *)
theory Rflags
  imports Registers
begin

text \<open>
  The flags: the reference \<open>ReadFlags()\<close> to the cached RFLAGS value, \<open>ParityFlag\<close> and
  \<open>UpdateFlagsSub\<close>, and the exchange of single flags with the executor (\<open>ReadFlags\<close>,
  \<open>WriteFlags\<close>), which are requested and reported as registers of one bit.
\<close>

section \<open>The cached flags\<close>

text \<open>\<open>ReadFlags(void)\<close> is a reference to the low 64 bits of the slot of RFLAGS.\<close>

definition aflag :: "xed \<Rightarrow> gstate \<Rightarrow> u64" where
  "aflag X g = get_bits 0 64 (gRegs g (reg X XED_REG_RFLAGS))"

definition set_aflag :: "xed \<Rightarrow> u64 \<Rightarrow> gstate \<Rightarrow> gstate" where
  "set_aflag X v g = g\<lparr>gRegs := (gRegs g)(reg X XED_REG_RFLAGS :=
     put_bits 0 64 v (gRegs g (reg X XED_REG_RFLAGS)))\<rparr>"

lemma aflag_lambda: "aflag X = (\<lambda>g. get_bits 0 64 (gRegs g (reg X XED_REG_RFLAGS)))"
  by (intro ext) (simp add: aflag_def)

lemma set_aflag_lambda:
  "set_aflag X = (\<lambda>v g. g\<lparr>gRegs := (gRegs g)(reg X XED_REG_RFLAGS :=
     put_bits 0 64 v (gRegs g (reg X XED_REG_RFLAGS)))\<rparr>)"
  by (intro ext) (simp add: set_aflag_def)

interpretation rflags: cell "aflag X" "set_aflag X" "take_bit 64" for X
  unfolding aflag_lambda set_aflag_lambda by (rule cell_gRegs) (rule data64.cell_axioms)

lemma aflag_set_aflag [simp]: "aflag X (set_aflag X v g) = v"
  using rflags.rd_wr [of X v g] by simp

lemma gRegs_set_aflag_other [simp]:
  "r \<noteq> reg X XED_REG_RFLAGS \<Longrightarrow> gRegs (set_aflag X v g) r = gRegs g r"
  by (simp add: set_aflag_def)

section \<open>Parity and subtraction\<close>

definition ParityFlag :: "u8 \<Rightarrow> bool" where
  "ParityFlag r0 =
     (let r1 = drop_bit 1 r0; r2 = drop_bit 1 r1; r3 = drop_bit 1 r2; r4 = drop_bit 1 r3;
          r5 = drop_bit 1 r4; r6 = drop_bit 1 r5; r7 = drop_bit 1 r6
      in 1 AND (r0 XOR r1 XOR r2 XOR r3 XOR r4 XOR r5 XOR r6 XOR r7) = 0)"

definition UpdateFlagsSub :: "host \<Rightarrow> u64 \<Rightarrow> u64 \<Rightarrow> u64 \<Rightarrow> nat \<Rightarrow> u64 \<Rightarrow> u64" where
  "UpdateFlagsSub H lhs rhs res sz flags =
     (let sign_shift = push_bit (sz - 1) (1 :: u64);
          sign_lhs = shr64 H lhs sign_shift AND 1;
          sign_rhs = shr64 H rhs sign_shift AND 1;
          sign_res = shr64 H res sign_shift AND 1;
          flags = set_flag ''sf'' (bit sign_res 0) flags;
          flags = set_flag ''cf'' (lhs < rhs) flags;
          flags = set_flag ''of'' (2 = (sign_lhs XOR sign_rhs) + (sign_lhs XOR sign_res)) flags;
          flags = set_flag ''zf'' (0 = res) flags;
          flags = set_flag ''af'' (0 \<noteq> (res XOR lhs XOR rhs) AND 0x10) flags;
          flags = set_flag ''pf'' (ParityFlag (ucast res)) flags
      in flags)"

section \<open>Exchange with the executor\<close>

text \<open>The seven flags, in the order of the \<open>READ_FLAG\<close> and \<open>WRITE_FLAG\<close> lines.\<close>

definition flag_regs :: "(string \<times> string) list" where
  "flag_regs = [(''cf'', ''CF''), (''pf'', ''PF''), (''af'', ''AF''), (''zf'', ''ZF''), (''sf'', ''SF''),
     (''df'', ''DF''), (''of'', ''OF'')]"

text \<open>\<open>READ_FLAG(field, name)\<close>: the state is \<open>aflag\<close>, \<open>flag_val\<close> and the machine.\<close>

definition READ_FLAG ::
  "'s executor \<Rightarrow> u64 \<Rightarrow> string \<times> string \<Rightarrow> u64 \<times> Data \<times> 's \<Rightarrow> bool \<times> u64 \<times> Data \<times> 's" where
  "READ_FLAG E read_flags fn st =
     (case fn of (field, name) \<Rightarrow> case st of (af, flag_val, s) \<Rightarrow>
        if flag field read_flags then
          (case ReadReg E name 1 kConditionCode flag_val s of (ok, flag_val', s') \<Rightarrow>
             if \<not> ok then (False, af, flag_val', s')
             else (True, set_flag field (bit flag_val' 0) af, put_bits 0 8 (0 :: u64) flag_val', s'))
        else (True, af, flag_val, s))"

definition flags_to_read :: "xed_simple_flag \<Rightarrow> u64" where
  "flags_to_read rflags =
     (let read_flags = ucast (ucast (flag_read rflags) :: u16) in
      if flag_may_write rflags then read_flags OR ucast (flag_written rflags) else read_flags)"

definition ReadFlags :: "xed \<Rightarrow> host \<Rightarrow> 's executor \<Rightarrow> 's world \<Rightarrow> bool \<times> 's world" where
  "ReadFlags X H E w =
     (let g = (fst w)\<lparr>gWriteBackFlags := 0\<rparr> in
      case get_rflags_info (gXedd g) of
        None \<Rightarrow> (True, g, snd w)
      | Some rflags \<Rightarrow>
          (let read_flags = flags_to_read rflags;
               flags_reg = WidestRegister X E (reg X XED_REG_EFLAGS);
               g = g\<lparr>gWriteBackFlags := ucast (ucast (flag_written rflags) :: u16)\<rparr>;
               g = g\<lparr>gUsedRegs := insert flags_reg (gUsedRegs g)\<rparr>;
               g = (if gWriteBackFlags g \<noteq> 0
                    then g\<lparr>gModifiedRegs := insert flags_reg (gModifiedRegs g)\<rparr> else g)
           in case each (READ_FLAG E read_flags) flag_regs (pushfq H (fst w), 0, snd w) of
                (ok, af, _, s') \<Rightarrow> if ok then (True, set_aflag X af g, s') else (False, g, s')))"

text \<open>\<open>WRITE_FLAG(field, name)\<close>: \<open>flag_val\<close> is zero but for the byte set here.\<close>

definition WRITE_FLAG ::
  "'s executor \<Rightarrow> u64 \<Rightarrow> u64 \<Rightarrow> string \<times> string \<Rightarrow> 's \<Rightarrow> bool \<times> 's" where
  "WRITE_FLAG E write_back_flags af fn s =
     (case fn of (field, name) \<Rightarrow>
        if flag field write_back_flags
        then WriteReg E name 1 (put_bits 0 8 (of_bool (flag field af) :: u64) 0) s
        else (True, s))"

definition WriteFlags :: "xed \<Rightarrow> 's executor \<Rightarrow> 's world \<Rightarrow> bool \<times> 's world" where
  "WriteFlags X E w =
     (let g = fst w; flags_reg = WidestRegister X E (reg X XED_REG_EFLAGS) in
      if flags_reg \<notin> gModifiedRegs g then (True, w)
      else
        (let g = g\<lparr>gUsedRegs := gUsedRegs g - {flags_reg},
                   gModifiedRegs := gModifiedRegs g - {flags_reg}\<rparr>
         in case each (WRITE_FLAG E (gWriteBackFlags g) (aflag X g)) flag_regs (snd w) of
              (ok, s') \<Rightarrow> if ok then (True, g\<lparr>gWriteBackFlags := 0\<rparr>, s') else (False, g, s')))"

section \<open>Facts about the flag computations\<close>

lemma ParityFlag_eq: "ParityFlag r = even (length (filter (bit r) [0..<8]))"
proof -
  have one: "(1 AND w = (0 :: u8)) = (\<not> bit w 0)" for w :: u8
    by (simp add: bit_0 even_iff_mod_2_eq_zero and_one_eq odd_iff_mod_2_eq_one one_and_eq)
  have "[0..<8] = [0, 1, 2, 3, 4, 5, 6, 7 :: nat]" by (simp add: upt_rec)
  then show ?thesis
    by (simp add: ParityFlag_def one bit_simps Let_def) (simp add: eval_nat_numeral)
qed

text \<open>
  \<open>ParityFlag\<close> is the x86 parity flag: it is set when the number of ones in the byte
  is even.
\<close>

theorem ParityFlag_even: "ParityFlag r = even (length (filter (bit r) [0..<8]))"
  by (rule ParityFlag_eq)

lemma flag_UpdateFlagsSub:
  "flag ''cf'' (UpdateFlagsSub H lhs rhs res n f) = (lhs < rhs)"
  "flag ''zf'' (UpdateFlagsSub H lhs rhs res n f) = (res = 0)"
  "flag ''af'' (UpdateFlagsSub H lhs rhs res n f) = bit (res XOR lhs XOR rhs) 4"
  "flag ''pf'' (UpdateFlagsSub H lhs rhs res n f) = ParityFlag (ucast res)"
  "flag ''sf'' (UpdateFlagsSub H lhs rhs res n f) = bit (shr64 H res (push_bit (n - 1) 1)) 0"
  "flag ''df'' (UpdateFlagsSub H lhs rhs res n f) = flag ''df'' f"
proof -
  have "(0x10 :: u64) = push_bit 4 1" by simp
  then have b: "(w AND 0x10 = 0) = (\<not> bit w 4)" for w :: u64
    by (metis and_exp_eq_0_iff_not_bit push_bit_of_1)
  show "flag ''cf'' (UpdateFlagsSub H lhs rhs res n f) = (lhs < rhs)"
    "flag ''zf'' (UpdateFlagsSub H lhs rhs res n f) = (res = 0)"
    "flag ''af'' (UpdateFlagsSub H lhs rhs res n f) = bit (res XOR lhs XOR rhs) 4"
    "flag ''pf'' (UpdateFlagsSub H lhs rhs res n f) = ParityFlag (ucast res)"
    "flag ''sf'' (UpdateFlagsSub H lhs rhs res n f) = bit (shr64 H res (push_bit (n - 1) 1)) 0"
    "flag ''df'' (UpdateFlagsSub H lhs rhs res n f) = flag ''df'' f"
    by (auto simp: UpdateFlagsSub_def Let_def b flag_set_flag_other flag_bit_eqs bit_and_iff)
qed

text \<open>The borrow out of the low four bits.\<close>

lemma borrow_int:
  "bit ((a - b :: int)) 4 = ((bit a 4 \<noteq> bit b 4) \<noteq> (a mod 16 < b mod 16))"
proof -
  have "a - b = 16 * (a div 16 - b div 16) + (a mod 16 - b mod 16)"
    by (simp add: algebra_simps)
  then have "(a - b) div 16 = a div 16 - b div 16 + (a mod 16 - b mod 16) div 16"
    by (metis add.commute div_mult_self2 zero_neq_numeral)
  moreover have "(a mod 16 - b mod 16) div 16 = (if a mod 16 < b mod 16 then - 1 else 0)"
    using pos_mod_bound [of 16 a] pos_mod_sign [of 16 a] pos_mod_bound [of 16 b] pos_mod_sign [of 16 b]
    by (auto simp: div_pos_pos_trivial intro: div_eq_minus1)
  ultimately have "(a - b) div 16 = a div 16 - b div 16 + (if a mod 16 < b mod 16 then - 1 else 0)"
    by simp
  then show ?thesis by (auto simp: bit_iff_odd)
qed

text \<open>
  C39: comparing \<open>lhs\<close> with \<open>rhs\<close> (the subtraction of CMPS and SCAS) sets the carry flag to
  the unsigned borrow, the zero flag to equality, the auxiliary flag to the borrow out of
  the low four bits and the parity flag to the parity of the low byte of the difference,
  for every operand size and whatever the undefined shifts yield; the direction flag keeps
  its value.
\<close>

theorem UpdateFlagsSub_compare:
  "let f' = UpdateFlagsSub H lhs rhs (lhs - rhs) sz f in
   flag ''cf'' f' = (unat lhs < unat rhs) \<and> flag ''zf'' f' = (lhs = rhs) \<and>
   flag ''af'' f' = (unat lhs mod 16 < unat rhs mod 16) \<and>
   flag ''pf'' f' = even (length (filter (bit (lhs - rhs)) [0..<8])) \<and>
   flag ''df'' f' = flag ''df'' f"
proof -
  have nibble: "uint w mod 16 = int (unat w mod 16)" for w :: u64
    by (simp add: zmod_int)
  have "bit (lhs - rhs) 4 = bit (uint lhs - uint rhs) 4"
    by (subst word_sub_wi) (simp only: bit_word_of_int_iff, simp)
  also have "\<dots> = ((bit lhs 4 \<noteq> bit rhs 4) \<noteq> (uint lhs mod 16 < uint rhs mod 16))"
    by (simp add: borrow_int bit_uint_iff)
  also have "(uint lhs mod 16 < uint rhs mod 16) = (unat lhs mod 16 < unat rhs mod 16)"
    by (simp add: nibble)
  finally have "bit ((lhs - rhs) XOR lhs XOR rhs) 4 = (unat lhs mod 16 < unat rhs mod 16)"
    by (auto simp: bit_xor_iff)
  moreover have "filter (bit (ucast (lhs - rhs) :: u8)) [0..<8] = filter (bit (lhs - rhs)) [0..<8]"
    by (rule filter_cong) (auto simp: bit_simps)
  ultimately show ?thesis
    by (simp add: flag_UpdateFlagsSub ParityFlag_eq Let_def word_less_nat_alt)
qed

lemma UpdateFlagsSub_shift:
  assumes "sz \<in> {8, 16, 32, 64 :: nat}"
  shows "let f' = UpdateFlagsSub H lhs rhs res sz f;
             b = (\<lambda>x. bit (shr_oversized H x (2 ^ (sz - 1))) 0) in
    flag ''sf'' f' = b res \<and> flag ''of'' f' = (b lhs \<noteq> b rhs \<and> b lhs \<noteq> b res)"
proof -
  have shift: "shr64 H x (2 ^ (sz - Suc 0)) = shr_oversized H x (2 ^ (sz - Suc 0))" for x
    using assms by (auto simp: shr64_def)
  have one: "(w AND 1 :: u64) = of_bool (bit w 0)" for w
    by (rule bit_word_eqI) (auto simp: bit_simps)
  have two: "(2 = (of_bool p XOR of_bool q) + (of_bool p XOR of_bool r :: u64)) = (p \<noteq> q \<and> p \<noteq> r)" for p q r
    by (cases p; cases q; cases r) simp_all
  show ?thesis
    by (simp add: UpdateFlagsSub_def push_bit_eq_mult shift one two flag_set_flag_other flag_bit_eqs Let_def)
qed

text \<open>
  C40: the sign and overflow flags of a comparison are not taken from the sign position: for
  the operand sizes 8, 16, 32 and 64 the shift count \<open>1 << (size - 1)\<close> is at least 128,
  beyond the 64 bits of the operand. On a host that masks shift counts to six bits, as
  x86-64 does, the sign flag is the lowest bit of the difference, and the overflow flag is
  computed from the lowest bits of the operands.
\<close>

theorem UpdateFlagsSub_sign:
  assumes "sz \<in> {8, 16, 32, 64 :: nat}" and "\<And>x n. shr_oversized H x n = drop_bit (unat (n AND 63)) x"
  shows "let f' = UpdateFlagsSub H lhs rhs res sz f in
    flag ''sf'' f' = odd res \<and>
    flag ''of'' f' = ((odd lhs \<noteq> odd rhs) \<and> (odd lhs \<noteq> odd res))"
proof -
  have "shr_oversized H x (2 ^ (sz - 1)) = x" for x
    using assms by auto
  with UpdateFlagsSub_shift [OF assms(1), of H lhs rhs res f] show ?thesis
    by (auto simp: bit_0 Let_def)
qed

text \<open>Comparing the byte 2 with 1, and 0 with 2: the differences are 1, not negative, and -2.\<close>

theorem UpdateFlagsSub_sign_witness:
  "(8 :: nat) \<in> {8, 16, 32, 64} \<and> (\<forall>x n. shr_oversized sample_host x n = drop_bit (unat (n AND 63)) x) \<and>
   flag ''sf'' (UpdateFlagsSub sample_host 2 1 1 8 0) \<and>
   \<not> flag ''sf'' (UpdateFlagsSub sample_host 0 2 (0 - 2) 8 0)"
proof -
  have h: "(8 :: nat) \<in> {8, 16, 32, 64}" "\<And>x n. shr_oversized sample_host x n = drop_bit (unat (n AND 63)) x"
    by (simp_all add: sample_host_def)
  from UpdateFlagsSub_sign [OF h, of 2 1 1 0] UpdateFlagsSub_sign [OF h, of 0 2 "0 - 2" 0] h show ?thesis
    by (simp add: Let_def)
qed

section \<open>The flags requested\<close>

text \<open>The flags of the architecture that an executor keeps: their names and their places in
  RFLAGS. The lines of \<open>ReadFlags\<close> and \<open>WriteFlags\<close> agree with it.\<close>

definition rflags_bits :: "(string \<times> nat) list" where
  "rflags_bits = [(''CF'', 0), (''PF'', 2), (''AF'', 4), (''ZF'', 6), (''SF'', 7), (''DF'', 10), (''OF'', 11)]"

lemma flag_regs_places: "map (\<lambda>fn. (snd fn, flag_bit (fst fn))) flag_regs = rflags_bits"
  by (simp add: flag_regs_def rflags_bits_def flag_bit_eqs)

lemma ball_flag_regs: "(\<forall>fn \<in> set flag_regs. P (snd fn) (flag_bit (fst fn))) \<longleftrightarrow> (\<forall>(nm, i) \<in> set rflags_bits. P nm i)"
  unfolding flag_regs_places [symmetric] by auto

lemma rflags_places: "snd ` set rflags_bits = (flag_bit \<circ> fst) ` set flag_regs"
  unfolding flag_regs_places [symmetric] by (simp add: image_image o_def)

text \<open>The flags an instruction depends on: those it reads, and those it writes only
  conditionally.\<close>

definition depends_on_flag :: "xed_simple_flag \<Rightarrow> nat \<Rightarrow> bool" where
  "depends_on_flag rf i \<longleftrightarrow> bit (flag_read rf) i \<or> flag_may_write rf \<and> bit (flag_written rf) i"

lemma bit_flags_to_read: "(nm, i) \<in> set rflags_bits \<Longrightarrow> bit (flags_to_read rf) i = depends_on_flag rf i"
  by (auto simp: rflags_bits_def flags_to_read_def depends_on_flag_def Let_def bit_simps)

lemma flag_regs_depends: "fn \<in> set flag_regs \<Longrightarrow> flag (fst fn) (flags_to_read rf) = depends_on_flag rf (flag_bit (fst fn))"
  using bit_flags_to_read [of "snd fn" "flag_bit (fst fn)" rf] unfolding flag_regs_places [symmetric] flag_def by auto

text \<open>An executor that answers every flag request, the flag \<open>name\<close> having the value
  \<open>ans name\<close> in the low bit of the answer.\<close>

definition answers_flags :: "'s executor \<Rightarrow> (string \<Rightarrow> bool) \<Rightarrow> bool" where
  "answers_flags E ans \<longleftrightarrow>
     (\<forall>name fv s. \<exists>fv' s'. ReadReg E name 1 kConditionCode fv s = (True, fv', s') \<and> bit fv' 0 = ans name)"

text \<open>An executor whose successful answers are these.\<close>

definition serves_flags :: "'s executor \<Rightarrow> (string \<Rightarrow> bool) \<Rightarrow> bool" where
  "serves_flags E ans \<longleftrightarrow>
     (\<forall>name fv s fv' s'. ReadReg E name 1 kConditionCode fv s = (True, fv', s') \<longrightarrow> bit fv' 0 = ans name)"

lemma serves_flagsD: "serves_flags E ans \<Longrightarrow> ReadReg E name 1 kConditionCode fv s = (True, fv', s') \<Longrightarrow> bit fv' 0 = ans name"
  unfolding serves_flags_def by blast

lemma answers_serves: "answers_flags E ans \<Longrightarrow> serves_flags E ans"
  unfolding answers_flags_def serves_flags_def by (metis prod.inject)

definition flag_answer :: "(string \<Rightarrow> bool) \<Rightarrow> u64 \<Rightarrow> u64 \<Rightarrow> string \<times> string \<Rightarrow> bool" where
  "flag_answer ans rd af fn = (if flag (fst fn) rd then ans (snd fn) else flag (fst fn) af)"

lemma flag_answers_places:
  "(\<forall>fn \<in> set flag_regs. flag (fst fn) af = flag_answer ans (flags_to_read rf) pf fn) \<longleftrightarrow>
   (\<forall>(nm, i) \<in> set rflags_bits. bit af i = (if depends_on_flag rf i then ans nm else bit pf i))"
proof -
  have "flag_answer ans (flags_to_read rf) pf fn =
      (if depends_on_flag rf (flag_bit (fst fn)) then ans (snd fn) else bit pf (flag_bit (fst fn)))" if "fn \<in> set flag_regs" for fn
    using flag_regs_depends [OF that, of rf] by (simp add: flag_answer_def flag_def)
  then show ?thesis
    by (simp add: flag_def flip: ball_flag_regs [of "\<lambda>nm i. bit af i = (if depends_on_flag rf i then ans nm else bit pf i)"])
qed

lemma READ_FLAG_answer:
  assumes "serves_flags E ans" and "flag_bit (fst fn) < 64" and "READ_FLAG E rd fn (af, fv, s) = (True, af', fv', s')"
  shows "flag (fst fn) af' = flag_answer ans rd af fn"
    and "i \<noteq> flag_bit (fst fn) \<Longrightarrow> bit af' i = bit af i"
proof -
  have "flag (fst fn) af' = flag_answer ans rd af fn \<and> (i \<noteq> flag_bit (fst fn) \<longrightarrow> bit af' i = bit af i)"
  proof (cases "flag (fst fn) rd")
    case True
    obtain ok d s1 where r: "ReadReg E (snd fn) 1 kConditionCode fv s = (ok, d, s1)" by (metis prod_cases3)
    then have "ok" "af' = set_flag (fst fn) (bit d 0) af"
      using True assms(3) by (auto simp: READ_FLAG_def case_prod_unfold split: if_splits)
    then show ?thesis
      using True assms(2) r serves_flagsD [OF assms(1)] by (auto simp: flag_answer_def bit_set_flag_other)
  next
    case False
    then show ?thesis using assms(3) by (simp add: READ_FLAG_def flag_answer_def case_prod_unfold)
  qed
  then show "flag (fst fn) af' = flag_answer ans rd af fn" "i \<noteq> flag_bit (fst fn) \<Longrightarrow> bit af' i = bit af i" by simp_all
qed

lemma each_READ_FLAG:
  assumes "serves_flags E ans"
  shows "distinct (map (flag_bit \<circ> fst) fs) \<Longrightarrow> \<forall>fn \<in> set fs. flag_bit (fst fn) < 64 \<Longrightarrow>
    each (READ_FLAG E rd) fs (af, fv, s) = (True, af', fv', s') \<Longrightarrow>
      (\<forall>fn \<in> set fs. flag (fst fn) af' = flag_answer ans rd af fn) \<and>
      (\<forall>i. i \<notin> (flag_bit \<circ> fst) ` set fs \<longrightarrow> bit af' i = bit af i)"
proof (induction fs arbitrary: af fv s)
  case Nil
  then show ?case by simp
next
  case (Cons fn fs)
  obtain ok af1 fv1 s1 where step: "READ_FLAG E rd fn (af, fv, s) = (ok, af1, fv1, s1)" by (metis prod_cases4)
  with Cons.prems(3) have ok: "ok" and e: "each (READ_FLAG E rd) fs (af1, fv1, s1) = (True, af', fv', s')"
    by (simp_all split: if_splits)
  note here = READ_FLAG_answer [OF assms _ step [unfolded eqTrueI [OF ok]]]
  have IH: "\<forall>fn \<in> set fs. flag (fst fn) af' = flag_answer ans rd af1 fn"
    "\<forall>i. i \<notin> (flag_bit \<circ> fst) ` set fs \<longrightarrow> bit af' i = bit af1 i"
    using Cons.IH [OF _ _ e] Cons.prems by auto
  have keep: "flag_answer ans rd af1 f = flag_answer ans rd af f" if "f \<in> set fs" for f
  proof -
    from Cons.prems(1) have "flag_bit (fst fn) \<notin> (flag_bit \<circ> fst) ` set fs" by simp
    with that have "flag_bit (fst f) \<noteq> flag_bit (fst fn)" by (auto simp: image_iff)
    with here(2) Cons.prems(2) show ?thesis by (simp add: flag_answer_def flag_def)
  qed
  have "flag (fst fn) af' = flag (fst fn) af1"
    using IH(2) Cons.prems(1) by (simp add: flag_def)
  then show ?case
    using here IH keep Cons.prems(2) by (auto simp: image_iff)
qed

lemma each_READ_FLAG_succeeds: "answers_flags E ans \<Longrightarrow> fst (each (READ_FLAG E rd) fs st)"
proof (induction fs arbitrary: st)
  case (Cons fn fs)
  obtain field name af fv s where f: "fn = (field, name)" "st = (af, fv, s)" by (metis prod_cases3 surj_pair)
  obtain fv' s' where "ReadReg E name 1 kConditionCode fv s = (True, fv', s')"
    using Cons.prems unfolding answers_flags_def by blast
  then show ?case using Cons.IH [OF Cons.prems] f by (simp add: READ_FLAG_def)
qed simp

lemma flag_regs_bits:
  "distinct (map (flag_bit \<circ> fst) flag_regs)" "\<forall>fn \<in> set flag_regs. flag_bit (fst fn) < 64"
  by (simp_all add: flag_regs_def flag_bit_eqs)

lemma ReadFlags_served:
  assumes "get_rflags_info (gXedd (fst w)) = Some rf" and "serves_flags E ans" and "ReadFlags X H E w = (True, w')"
  obtains af s' where "w' = (set_aflag X af ((fst w)\<lparr>
        gWriteBackFlags := ucast (ucast (flag_written rf) :: u16),
        gUsedRegs := insert (WidestRegister X E (reg X XED_REG_EFLAGS)) (gUsedRegs (fst w)),
        gModifiedRegs := (if ucast (ucast (flag_written rf) :: u16) \<noteq> (0 :: u64)
          then insert (WidestRegister X E (reg X XED_REG_EFLAGS)) (gModifiedRegs (fst w))
          else gModifiedRegs (fst w))\<rparr>), s')"
    and "\<forall>fn \<in> set flag_regs. flag (fst fn) af = flag_answer ans (flags_to_read rf) (pushfq H (fst w)) fn"
    and "\<forall>i. i \<notin> (flag_bit \<circ> fst) ` set flag_regs \<longrightarrow> bit af i = bit (pushfq H (fst w)) i"
proof -
  obtain ok af fv s' where e: "each (READ_FLAG E (flags_to_read rf)) flag_regs (pushfq H (fst w), 0, snd w) = (ok, af, fv, s')"
    by (metis prod_cases4)
  with assms(1,3) have ok: ok by (auto simp: ReadFlags_def Let_def split: if_splits)
  note v = each_READ_FLAG [OF assms(2) flag_regs_bits e [unfolded eqTrueI [OF ok]]]
  show ?thesis
    by (rule that [of af s', OF _ v [THEN conjunct1] v [THEN conjunct2]])
      (use assms(3) [symmetric] in \<open>cases "ucast (ucast (flag_written rf) :: u16) = (0 :: u64)"; simp add: assms(1) e ok ReadFlags_def Let_def\<close>)
qed

text \<open>
  C21: when an instruction has flag information and the executor answers, \<open>ReadFlags\<close>
  succeeds. Each of the flags CF, PF, AF, ZF, SF, DF and OF is then, at its place in the
  cached flags, the executor's answer for its name if the instruction reads the flag or
  writes it conditionally; every other bit is that of the host's own flags, which the inline
  assembly put there. The flags to write back are the low 16 bits XED reports as written, and
  the flags register is in use, and marked as modified if there is anything to write back.
\<close>

theorem ReadFlags_values:
  assumes "get_rflags_info (gXedd (fst w)) = Some rf" and "answers_flags E ans"
  shows "let (ok, g, s) = ReadFlags X H E w; fr = WidestRegister X E (reg X XED_REG_EFLAGS) in ok \<and>
    (\<forall>(nm, i) \<in> set rflags_bits. bit (aflag X g) i =
       (if bit (flag_read rf) i \<or> flag_may_write rf \<and> bit (flag_written rf) i then ans nm else bit (pushfq H (fst w)) i)) \<and>
    (\<forall>i. i \<notin> {0, 2, 4, 6, 7, 10, 11} \<longrightarrow> bit (aflag X g) i = bit (pushfq H (fst w)) i) \<and>
    (\<forall>i. bit (gWriteBackFlags g) i \<longleftrightarrow> i < 16 \<and> bit (flag_written rf) i) \<and>
    gUsedRegs g = insert fr (gUsedRegs (fst w)) \<and>
    gModifiedRegs g = (if gWriteBackFlags g = 0 then gModifiedRegs (fst w) else insert fr (gModifiedRegs (fst w)))"
proof -
  have "fst (ReadFlags X H E w)"
    using each_READ_FLAG_succeeds [OF assms(2), of "flags_to_read rf" flag_regs "(pushfq H (fst w), 0, snd w)"] assms(1)
    by (auto simp: ReadFlags_def Let_def split: prod.splits)
  then obtain w' where w': "ReadFlags X H E w = (True, w')" by (cases "ReadFlags X H E w") auto
  define wb :: u64 where "wb = ucast (ucast (flag_written rf) :: u16)"
  obtain af s' where u: "w' = (set_aflag X af ((fst w)\<lparr>gWriteBackFlags := wb,
        gUsedRegs := insert (WidestRegister X E (reg X XED_REG_EFLAGS)) (gUsedRegs (fst w)),
        gModifiedRegs := (if wb \<noteq> 0 then insert (WidestRegister X E (reg X XED_REG_EFLAGS)) (gModifiedRegs (fst w))
          else gModifiedRegs (fst w))\<rparr>), s')"
    and af: "\<forall>fn \<in> set flag_regs. flag (fst fn) af = flag_answer ans (flags_to_read rf) (pushfq H (fst w)) fn"
    "\<forall>i. i \<notin> (flag_bit \<circ> fst) ` set flag_regs \<longrightarrow> bit af i = bit (pushfq H (fst w)) i"
    unfolding wb_def by (rule ReadFlags_served [OF assms(1) answers_serves [OF assms(2)] w'])
  note v = af(1) [unfolded flag_answers_places]
  have "(flag_bit \<circ> fst) ` set flag_regs = {0, 2, 4, 6, 7, 10, 11}"
    unfolding rflags_places [symmetric] by (simp add: rflags_bits_def)
  with af(2) have "\<forall>i. i \<notin> {0, 2, 4, 6, 7, 10, 11} \<longrightarrow> bit af i = bit (pushfq H (fst w)) i" by simp
  moreover have "bit wb i \<longleftrightarrow> i < 16 \<and> bit (flag_written rf) i" for i
    by (auto simp: wb_def bit_simps)
  ultimately show ?thesis
    using v unfolding w' u by (simp add: depends_on_flag_def) (auto simp: set_aflag_def)
qed

definition sample_rflags :: xed_simple_flag where
  "sample_rflags = \<lparr>flag_read = 0x41, flag_written = 0x40, flag_may_write = False\<rparr>"

definition flags_gstate :: gstate where
  "flags_gstate = sample_gstate\<lparr>gXedd := sample_inst\<lparr>get_rflags_info := Some sample_rflags\<rparr>\<rparr>"

definition carry_executor :: "sample_call list executor" where
  "carry_executor = (sample_executor 64)
     \<lparr>ReadReg := (\<lambda>nm _ _ d l. (True, of_bool (nm = ''CF''), l @ [CallReadReg nm]))\<rparr>"

theorem ReadFlags_values_witness:
  "get_rflags_info (gXedd (fst (flags_gstate, []))) = Some sample_rflags \<and>
   answers_flags carry_executor (\<lambda>nm. nm = ''CF'') \<and>
   bit (aflag sample_xed (fst (snd (ReadFlags sample_xed sample_host carry_executor (flags_gstate, []))))) 0 \<and>
   \<not> bit (aflag sample_xed (fst (snd (ReadFlags sample_xed sample_host carry_executor (flags_gstate, []))))) 6"
proof -
  let ?g = "fst (snd (ReadFlags sample_xed sample_host carry_executor (flags_gstate, [])))"
  have h: "get_rflags_info (gXedd (fst (flags_gstate, []))) = Some sample_rflags"
    "answers_flags carry_executor (\<lambda>nm. nm = ''CF'')"
    by (auto simp: flags_gstate_def answers_flags_def carry_executor_def)
  have "(''CF'', 0) \<in> set rflags_bits" "(''ZF'', 6) \<in> set rflags_bits" "bit (flag_read sample_rflags) 0"
    "bit (flag_read sample_rflags) 6"
    by (simp_all add: rflags_bits_def sample_rflags_def)
  then have "bit (aflag sample_xed ?g) 0 \<and> \<not> bit (aflag sample_xed ?g) 6"
    using ReadFlags_values [OF h, of sample_xed sample_host] by (auto simp: Let_def case_prod_unfold)
  with h show ?thesis by blast
qed

section \<open>The flags reported\<close>

text \<open>The reports of \<open>WriteFlags\<close>: name and value of every flag to write back, in order.\<close>

definition flag_reports :: "u64 \<Rightarrow> u64 \<Rightarrow> (string \<times> bool) list" where
  "flag_reports write_back_flags af =
     map (\<lambda>(nm, i). (nm, bit af i)) (filter (\<lambda>(nm, i). bit write_back_flags i) rflags_bits)"

lemma flag_reports_lines:
  "flag_reports wb af = map (\<lambda>fn. (snd fn, flag (fst fn) af)) (filter (\<lambda>fn. flag (fst fn) wb) flag_regs)"
  unfolding flag_reports_def flag_regs_places [symmetric] by (simp add: filter_map o_def flag_def)

lemma each_WRITE_FLAG:
  "each (WRITE_FLAG E wb af) fs s =
   each (\<lambda>(nm, b). WriteReg E nm 1 (of_bool b))
     (map (\<lambda>fn. (snd fn, flag (fst fn) af)) (filter (\<lambda>fn. flag (fst fn) wb) fs)) s"
proof (induction fs arbitrary: s)
  case Nil
  then show ?case by simp
next
  case (Cons fn fs)
  have "put_bits 0 8 (of_bool b :: u64) 0 = (of_bool b :: Data)" for b
    by (rule bit_word_eqI) (auto simp: bit_simps)
  then show ?case
    using Cons.IH by (cases fn) (simp add: WRITE_FLAG_def split: prod.splits)
qed

lemma WriteFlags_eq:
  "WriteFlags X E w =
    (let g = fst w; fr = WidestRegister X E (reg X XED_REG_EFLAGS);
         g' = g\<lparr>gUsedRegs := gUsedRegs g - {fr}, gModifiedRegs := gModifiedRegs g - {fr}\<rparr>
     in if fr \<notin> gModifiedRegs g then (True, w)
        else case each (\<lambda>(nm, b). WriteReg E nm 1 (of_bool b)) (flag_reports (gWriteBackFlags g) (aflag X g)) (snd w) of
               (ok, s') \<Rightarrow> (ok, if ok then g'\<lparr>gWriteBackFlags := 0\<rparr> else g', s'))"
  by (simp add: WriteFlags_def Let_def each_WRITE_FLAG flag_reports_lines aflag_def split: prod.splits)

text \<open>
  C22: \<open>WriteFlags\<close> reports, of the flags CF, PF, AF, ZF, SF, DF and OF in this order,
  exactly those that are to be written back (the ones the instruction writes, which
  \<open>ReadFlags\<close> has noted), one bit each, with the value at their place in the cached flags; it
  does nothing when the flags are not marked as modified, a refused report stops it, and
  after a success nothing is left to be written back.
\<close>

theorem WriteFlags_reports:
  "WriteFlags X E w =
    (let g = fst w; fr = WidestRegister X E (reg X XED_REG_EFLAGS);
         g' = g\<lparr>gUsedRegs := gUsedRegs g - {fr}, gModifiedRegs := gModifiedRegs g - {fr}\<rparr>;
         lines = filter (\<lambda>(nm, i). bit (gWriteBackFlags g) i)
           [(''CF'', 0), (''PF'', 2), (''AF'', 4), (''ZF'', 6), (''SF'', 7), (''DF'', 10), (''OF'', 11)]
     in if fr \<notin> gModifiedRegs g then (True, w)
        else case each (\<lambda>(nm, i). WriteReg E nm 1 (of_bool (bit (aflag X g) i))) lines (snd w) of
               (ok, s') \<Rightarrow> (ok, if ok then g'\<lparr>gWriteBackFlags := 0\<rparr> else g', s'))"
proof -
  have e: "each (\<lambda>(nm, i). WriteReg E nm 1 (of_bool (bit af i))) ls s =
      each (\<lambda>(nm, b). WriteReg E nm 1 (of_bool b)) (map (\<lambda>(nm, i). (nm, bit af i)) ls) s" for af :: u64 and ls s
    by (induction ls arbitrary: s) (auto split: prod.splits)
  show ?thesis
    by (simp only: WriteFlags_eq flag_reports_def rflags_bits_def Let_def e)
qed

text \<open>The carry flag and the zero flag are to be written back, and the zero flag is set.\<close>

theorem WriteFlags_reports_witness:
  "snd (snd (WriteFlags sample_xed (sample_executor 64)
     (sample_gstate\<lparr>gUsedRegs := {6}, gModifiedRegs := {6}, gWriteBackFlags := 0x41, gRegs := (\<lambda>_. 0x42)\<rparr>, []))) =
   [CallWriteReg ''CF'' 0, CallWriteReg ''ZF'' 1]"
proof -
  have fr: "WidestRegister sample_xed (sample_executor 64) (reg sample_xed XED_REG_EFLAGS) = 6"
    by (simp add: WidestRegister_def sample_simps)
  have f: "aflag sample_xed (sample_gstate\<lparr>gUsedRegs := {6}, gModifiedRegs := {6}, gWriteBackFlags := 0x41, gRegs := (\<lambda>_. 0x42)\<rparr>) = 0x42"
    by (simp add: aflag_def get_bits_def)
  show ?thesis
    unfolding WriteFlags_reports Let_def fst_conv snd_conv fr f
    by (simp add: sample_executor_def)
qed

text \<open>
  After a successful \<open>WriteFlags\<close> the flags register is out of the sets of used and
  modified registers, so \<open>WriteRegisters\<close>, which runs next, does not report it a second
  time as a whole.
\<close>

theorem WriteFlags_hides_register:
  assumes "xed_ok X" and "WriteFlags X E w = (True, w')"
  shows "WidestRegister X E (reg X XED_REG_EFLAGS) \<notin> set (write_order X (fst w'))"
proof -
  let ?fr = "WidestRegister X E (reg X XED_REG_EFLAGS)"
  have "?fr \<in> {reg X XED_REG_EFLAGS, reg X XED_REG_RFLAGS}"
    using WidestRegister_pair [OF xed_ok_pairs(7) [OF assms(1)], of E] by auto
  moreover have "{reg X XED_REG_EFLAGS, reg X XED_REG_RFLAGS} \<inter> {reg X XED_REG_EIP, reg X XED_REG_RIP} = {}"
    using assms(1) unfolding xed_ok_def by (auto simp del: upt_Suc)
  ultimately have "\<not> is_pc X ?fr" by (auto simp: is_pc_def)
  moreover have "?fr \<notin> gModifiedRegs (fst w')"
    using assms(2) by (auto simp: WriteFlags_def Let_def split: if_splits prod.splits)
  moreover have "is_pc X r" if "r \<in> set (pc_regs X g is)" for r g "is"
    using that by (simp add: pc_regs_def)
  ultimately show ?thesis
    by (auto simp: write_order_def plain_regs_def Let_def) (metis last_in_set)
qed

theorem WriteFlags_hides_register_witness:
  "xed_ok sample_xed \<and>
   (6 :: nat) \<notin> set (write_order sample_xed
      (fst (snd (WriteFlags sample_xed (sample_executor 64)
        (sample_gstate\<lparr>gUsedRegs := {6}, gModifiedRegs := {6}, gWriteBackFlags := 1\<rparr>, [])))))"
proof -
  let ?w = "(sample_gstate\<lparr>gUsedRegs := {6}, gModifiedRegs := {6}, gWriteBackFlags := 1\<rparr>, [])"
  have fr: "WidestRegister sample_xed (sample_executor 64) (reg sample_xed XED_REG_EFLAGS) = 6"
    by (simp add: WidestRegister_def sample_simps)
  have ok: "each (\<lambda>(nm, b). WriteReg (sample_executor 64) nm 1 (of_bool b)) xs l =
      (True, l @ map (\<lambda>(nm, b). CallWriteReg nm (of_bool b)) xs)" for xs l
  proof (induction xs arbitrary: l)
    case Nil
    then show ?case by simp
  next
    case (Cons x xs)
    have "(ucast (of_bool b :: Data) :: u64) = of_bool b" for b by (cases b) simp_all
    with Cons show ?case by (cases x) (simp add: sample_executor_def)
  qed
  have "fst (WriteFlags sample_xed (sample_executor 64) ?w)"
    by (simp add: WriteFlags_eq fr ok [unfolded One_nat_def] Let_def)
  then have "WriteFlags sample_xed (sample_executor 64) ?w =
      (True, snd (WriteFlags sample_xed (sample_executor 64) ?w))"
    by (metis prod.collapse)
  from WriteFlags_hides_register [OF sample_xed_ok this] show ?thesis
    using fr sample_xed_ok by simp
qed

end
