(* ===== verification/MemOps.thy ===== *)
theory MemOps
  imports Rflags
begin

text \<open>
  Memory operands and program counters of \<open>Executor.cpp\<close>: \<open>GetBitOpByteOffset\<close>, both
  \<open>ReadMemory\<close> functions, \<open>WriteMemory\<close>, \<open>ReadPC\<close>, \<open>BranchTarget\<close>, \<open>GetPC\<close>,
  \<open>GetNextPC\<close> and \<open>GetSignedImmediate\<close>. The two slots of \<open>gMemory\<close> are filled from the
  memory operands of the instruction, each at the address the executor computes.
\<close>

section \<open>Program counters and immediates\<close>

definition ReadPC :: "xed \<Rightarrow> 's executor \<Rightarrow> 's world \<Rightarrow> bool \<times> 's world" where
  "ReadPC X E w =
     (let r = WidestRegister X E (reg X XED_REG_EIP);
          g = (fst w)\<lparr>gModifiedRegs := insert r (gModifiedRegs (fst w))\<rparr>
      in ReadRegister X E r kProgramCounter (g, snd w))"

definition BranchTarget :: "u64 \<Rightarrow> gstate \<Rightarrow> u64" where
  "BranchTarget next_pc g = next_pc + word_of_int (get_branch_displacement (gXedd g))"

definition GetPC :: "xed \<Rightarrow> 's executor \<Rightarrow> gstate \<Rightarrow> u64" where
  "GetPC X E g =
     (let pc = ReadGPR X (WidestRegister X E (reg X XED_REG_EIP)) g in
      if 32 = addr_size E then ucast (ucast pc :: u32) else pc)"

definition GetNextPC :: "xed \<Rightarrow> 's executor \<Rightarrow> gstate \<Rightarrow> u64" where
  "GetNextPC X E g =
     (let pc = ReadGPR X (WidestRegister X E (reg X XED_REG_EIP)) g;
          next_pc = pc + of_nat (get_length (gXedd g))
      in if 32 = addr_size E then ucast (ucast next_pc :: u32) else next_pc)"

definition GetSignedImmediate :: "gstate \<Rightarrow> u64" where
  "GetSignedImmediate g =
     (let simm0 = get_signed_immediate (gXedd g); n = effective_operand_width (gEmu g) in
      if n = 64 then word_of_int simm0
      else if n = 32 then ucast (word_of_int simm0 :: u32)
      else if n = 16 then ucast (word_of_int simm0 :: u16)
      else if n = 8 then ucast (word_of_int simm0 :: u8)
      else 0)"

section \<open>Bit-test offsets\<close>

text \<open>The forms whose bit offset \<open>GetBitOpByteOffset\<close> takes from the immediate.\<close>

fun bt_by_immediate :: "iform_bt \<Rightarrow> bool" where
  "bt_by_immediate (XED_IFORM_BT_MEMv IMMb) = True"
| "bt_by_immediate (XED_IFORM_BTS_MEMv IMMb) = True"
| "bt_by_immediate (XED_IFORM_BTS_LOCK_MEMv IMMb) = True"
| "bt_by_immediate (XED_IFORM_BTC_LOCK_MEMv IMMb) = True"
| "bt_by_immediate (XED_IFORM_BTR_LOCK_MEMv IMMb) = True"
| "bt_by_immediate _ = False"

definition GetBitOpByteOffset :: "xed \<Rightarrow> gstate \<Rightarrow> u64 \<times> gstate" where
  "GetBitOpByteOffset X g =
     (let bit_width = of_nat (effective_operand_width (gEmu g)) :: u64 in
      case get_iform_enum (gXedd g) of
        Bt f \<Rightarrow>
          if bt_by_immediate f then
            (let bit_offset = get_unsigned_immediate (gXedd g) in
             (8 * (bit_offset div bit_width),
              g\<lparr>gXedd := set_immediate_unsigned X (bit_offset mod bit_width)
                           (get_immediate_width (gXedd g)) (gXedd g)\<rparr>))
          else
            (let reg0 = get_reg (gXedd g) XED_OPERAND_REG0; bit_offset = ReadGPR X reg0 g in
             (8 * (bit_offset div bit_width), WriteGPR X reg0 (bit_offset mod bit_width) g))
      | _ \<Rightarrow> (0, g))"

section \<open>Reading memory\<close>

text \<open>The forms that push: their first memory operand is \<open>[RSP]\<close> in XED, while the cell
  written lies one operand size below.\<close>

fun pushes_mem0 :: "iform \<Rightarrow> bool" where
  "pushes_mem0 (Cfi (XED_IFORM_CALL_NEAR_RELBR b)) = (b = RELBRz \<or> b = RELBRd)"
| "pushes_mem0 (Cfi XED_IFORM_CALL_NEAR_GPRv) = True"
| "pushes_mem0 (Stk XED_IFORM_PUSH_GPRv_FFr6) = True"
| "pushes_mem0 (Stk XED_IFORM_PUSH_GPRv_50) = True"
| "pushes_mem0 (Stk XED_IFORM_PUSH_IMMz) = True"
| "pushes_mem0 (Stk XED_IFORM_PUSH_IMMb) = True"
| "pushes_mem0 (Stk (XED_IFORM_PUSHF f)) = True"
| "pushes_mem0 (Stk (XED_IFORM_PUSH_SEG s)) = True"
| "pushes_mem0 _ = False"

fun pushes_mem1 :: "iform \<Rightarrow> bool" where
  "pushes_mem1 (Cfi XED_IFORM_CALL_NEAR_MEMv) = True"
| "pushes_mem1 (Stk XED_IFORM_PUSH_MEMv) = True"
| "pushes_mem1 _ = False"

text \<open>The adjustment of the displacement; for bit tests it changes the state.\<close>

definition adjust_displacement ::
  "xed \<Rightarrow> nat \<Rightarrow> xed_reg \<Rightarrow> u64 \<Rightarrow> gstate \<Rightarrow> u64 \<times> gstate" where
  "adjust_displacement X mem_index breg disp g =
     (let iform = get_iform_enum (gXedd g);
          op_size_bytes = of_nat (effective_operand_width (gEmu g) div 8)
      in if mem_index = 0 then
           (if pushes_mem0 iform then (disp - op_size_bytes, g)
            else if iform = Stk XED_IFORM_POP_MEMv then
              (if reg X XED_REG_RSP = get_largest_enclosing_register X breg
               then (disp + op_size_bytes, g) else (disp, g))
            else (case iform of
                    Bt f \<Rightarrow> (case GetBitOpByteOffset X g of (off, g') \<Rightarrow> (disp + off, g'))
                  | _ \<Rightarrow> (disp, g)))
         else (if pushes_mem1 iform then (disp - op_size_bytes, g) else (disp, g)))"

definition deduce_segment :: "xed \<Rightarrow> xed_reg \<Rightarrow> xed_reg \<Rightarrow> xed_reg" where
  "deduce_segment X seg breg =
     (if reg X XED_REG_INVALID = seg then
        (if reg X XED_REG_RSP = get_largest_enclosing_register X breg \<or>
            reg X XED_REG_RBP = get_largest_enclosing_register X breg
         then reg X XED_REG_SS else reg X XED_REG_DS)
      else seg)"

definition request_hint :: "xed_inst_operand \<Rightarrow> MemRequestHint" where
  "request_hint xedo =
     (if XED_OPERAND_AGEN = operand_name xedo then kAddressGeneration
      else if (operand_read xedo \<or> operand_conditional_write xedo) \<and> operand_written xedo then kReadWrite
      else if operand_written xedo then kWriteOnly
      else kReadOnly)"

definition mask_address :: "nat \<Rightarrow> u64 \<Rightarrow> u64" where
  "mask_address n a =
     (if 32 = n then ucast (ucast a :: u32) else if 16 = n then ucast (ucast a :: u16) else a)"

text \<open>\<open>ReadMemory(executor, op_num, mem_index)\<close>, \<open>xedo\<close> being the operand \<open>op_num\<close>. The
  size handed to \<open>ComputeAddress\<close> is the one the slot had before.\<close>

definition ReadMemoryOperand ::
  "xed \<Rightarrow> 's executor \<Rightarrow> xed_inst_operand \<Rightarrow> nat \<Rightarrow> 's world \<Rightarrow> bool \<times> 's world" where
  "ReadMemoryOperand X E xedo k w =
     (let g = fst w; d = gXedd g; mem = gMemory g k;
          breg = get_base_reg d k;
          ireg = get_index_reg d k;
          seg = deduce_segment X (get_seg_reg d k) breg;
          base0 = ReadGPR X breg g;
          base = (if reg X XED_REG_EIP = breg \<or> reg X XED_REG_RIP = breg
                  then base0 + of_nat (get_length d) else base0);
          index = ReadGPR X ireg g;
          scale = get_scale d k;
          hint = request_hint xedo
      in case adjust_displacement X k breg (word_of_int (get_memory_displacement d k)) g of
           (disp, g) \<Rightarrow>
         (case ComputeAddress E (reg_enum_t2str X seg) base index scale disp (msize mem) hint (snd w) of
            (addr0, s) \<Rightarrow>
          (let addr = mask_address (get_memop_address_width (gXedd g) k) addr0;
               sz = 8 * get_memory_operand_length (gXedd g) k;
               mem = mem\<lparr>present := True, write_back := operand_written xedo,
                 op_name := operand_name xedo, segment_reg := seg, base_reg := breg,
                 index_reg := ireg, mbase := base, mindex := index, mscale := scale,
                 mdisplacement := disp, maddress := addr, msize := sz, mdata := 0\<rparr>
           in if XED_OPERAND_AGEN = operand_name xedo
              then (True, g\<lparr>gMemory := (gMemory g)(k := mem)\<rparr>, s)
              else (case ReadMem E addr sz hint 0 s of (ok, data, s') \<Rightarrow>
                      (ok, g\<lparr>gMemory := (gMemory g)(k := mem\<lparr>mdata := data\<rparr>)\<rparr>, s')))))"

text \<open>The slot an operand goes to.\<close>

fun mem_slot :: "xed_operand \<Rightarrow> nat option" where
  "mem_slot XED_OPERAND_AGEN = Some 0"
| "mem_slot XED_OPERAND_MEM0 = Some 0"
| "mem_slot XED_OPERAND_MEM1 = Some 1"
| "mem_slot _ = None"

definition clear_present :: "gstate \<Rightarrow> gstate" where
  "clear_present g =
     g\<lparr>gMemory := (gMemory g)(0 := (gMemory g 0)\<lparr>present := False\<rparr>,
                              1 := (gMemory g 1)\<lparr>present := False\<rparr>)\<rparr>"

definition ReadMemory :: "xed \<Rightarrow> 's executor \<Rightarrow> 's world \<Rightarrow> bool \<times> 's world" where
  "ReadMemory X E w =
     each (\<lambda>xedo w. case mem_slot (operand_name xedo) of
                      None \<Rightarrow> (True, w)
                    | Some k \<Rightarrow> ReadMemoryOperand X E xedo k w)
       (get_operands (gXedd (fst w))) (clear_present (fst w), snd w)"

section \<open>Writing memory\<close>

definition WriteSlot :: "'s executor \<Rightarrow> memory \<Rightarrow> 's \<Rightarrow> bool \<times> 's" where
  "WriteSlot E mem s =
     (if \<not> present mem \<or> \<not> write_back mem then (True, s)
      else WriteMem E (maddress mem) (msize mem) (mdata mem) s)"

definition WriteMemory :: "'s executor \<Rightarrow> 's world \<Rightarrow> bool \<times> 's world" where
  "WriteMemory E w =
     (case each (WriteSlot E) [gMemory (fst w) 0, gMemory (fst w) 1] (snd w) of
        (ok, s) \<Rightarrow> (ok, fst w, s))"

section \<open>Program counter arithmetic\<close>

text \<open>
  The next program counter is the current one plus the length of the instruction,
  wrapping at the address size of the executor (32 or 64 bits), so that a 32-bit executor
  never sees a program counter of more than 32 bits.
\<close>

lemma GetNextPC_wraps:
  assumes "addr_size E = 32 \<or> addr_size E = 64"
  shows "unat (GetNextPC X E g) = (unat (GetPC X E g) + get_length (gXedd g)) mod 2 ^ addr_size E"
proof -
  have 32: "unat (ucast (ucast v :: u32) :: u64) = unat v mod 2 ^ 32" for v :: u64
    by (simp add: ucast_u32_u64 unsigned_take_bit_eq) (simp add: take_bit_nat_def)
  show ?thesis
    using assms
    by (auto simp: GetNextPC_def GetPC_def Let_def 32 unat_word_ariths mod_mod_cancel mod_simps
        unat_of_nat)
qed

section \<open>Bit tests\<close>





section \<open>Addresses\<close>


text \<open>The slot as \<open>ReadMemoryOperand\<close> leaves it.\<close>

lemma ReadMemoryOperand_slot:
  "let w' = snd (ReadMemoryOperand X E xedo k w); mem = gMemory (fst w') k in
   present mem \<and> write_back mem = operand_written xedo \<and> op_name mem = operand_name xedo \<and>
   maddress mem = mask_address (get_memop_address_width (gXedd (fst w')) k)
     (fst (ComputeAddress E (reg_enum_t2str X (segment_reg mem)) (mbase mem) (mindex mem) (mscale mem)
        (mdisplacement mem) (msize (gMemory (fst w) k)) (request_hint xedo) (snd w))) \<and>
   msize mem = 8 * get_memory_operand_length (gXedd (fst w')) k \<and>
   mem_op mem = mem_op (gMemory (fst w) k)"
  by (simp add: ReadMemoryOperand_def Let_def split: prod.splits)




definition lea_operand :: xed_inst_operand where
  "lea_operand = \<lparr>operand_name = XED_OPERAND_AGEN, operand_visibility = XED_OPVIS_EXPLICIT,
     operand_read = True, operand_written = False, operand_conditional_write = False\<rparr>"

definition mem_operand :: xed_inst_operand where
  "mem_operand = lea_operand\<lparr>operand_name := XED_OPERAND_MEM0\<rparr>"



text \<open>
  The size given to \<open>ComputeAddress\<close> is not the size of the operand: it is the one
  the slot kept from its previous use, because \<open>mem.size\<close> is assigned only afterwards.
  An executor that answers with the size it is given gets the old size back as the
  address, while the slot records the new one.
\<close>

theorem ReadMemoryOperand_stale_size:
  assumes "ComputeAddress E = (\<lambda>_ _ _ _ _ sz _ s. (of_nat sz, s))"
    and "get_memop_address_width (gXedd (fst (snd (ReadMemoryOperand X E xedo k w)))) k = 64"
  shows "let mem = gMemory (fst (snd (ReadMemoryOperand X E xedo k w))) k in
    maddress mem = of_nat (msize (gMemory (fst w) k)) \<and>
    msize mem = 8 * get_memory_operand_length (gXedd (fst (snd (ReadMemoryOperand X E xedo k w)))) k"
  using ReadMemoryOperand_slot [of X E xedo k w] assms by (simp add: Let_def mask_address_def)

definition size_executor :: "sample_call list executor" where
  "size_executor = (sample_executor 64)\<lparr>ComputeAddress := (\<lambda>_ _ _ _ _ sz _ s. (of_nat sz, s))\<rparr>"

theorem ReadMemoryOperand_stale_size_witness:
  "maddress (gMemory (fst (snd (ReadMemoryOperand sample_xed size_executor mem_operand 0 (sample_gstate, [])))) 0) = 0 \<and>
   msize (gMemory (fst (snd (ReadMemoryOperand sample_xed size_executor mem_operand 0 (sample_gstate, [])))) 0) = 64"
proof -
  let ?r = "ReadMemoryOperand sample_xed size_executor mem_operand 0 (sample_gstate, [])"
  have h: "ComputeAddress size_executor = (\<lambda>_ _ _ _ _ sz _ s. (of_nat sz, s))"
    "get_memop_address_width (gXedd (fst (snd ?r))) 0 = 64"
    by (simp add: size_executor_def, code_simp)
  have "get_memory_operand_length (gXedd (fst (snd ?r))) 0 = 8" by code_simp
  with ReadMemoryOperand_stale_size [OF h] show ?thesis
    by (simp add: Let_def) (simp add: sample_gstate_def sample_memory_def)
qed

section \<open>Slots present after reading\<close>

lemma GetBitOpByteOffset_gMemory: "gMemory (snd (GetBitOpByteOffset X g)) = gMemory g"
  by (simp add: GetBitOpByteOffset_def WriteGPR_def WriteValue_def Let_def split: iform.splits)

lemma adjust_displacement_gMemory: "gMemory (snd (adjust_displacement X k r d g)) = gMemory g"
  using GetBitOpByteOffset_gMemory [of X g]
  by (auto simp: adjust_displacement_def Let_def split: iform.splits prod.splits)

lemma ReadMemoryOperand_other:
  "j \<noteq> k \<Longrightarrow> gMemory (fst (snd (ReadMemoryOperand X E xedo k w))) j = gMemory (fst w) j"
  using adjust_displacement_gMemory
  by (simp add: ReadMemoryOperand_def Let_def split: prod.splits) (metis snd_conv)

definition slot_used :: "xed_inst_operand list \<Rightarrow> nat \<Rightarrow> bool" where
  "slot_used ops k \<longleftrightarrow> (\<exists>xedo \<in> set ops. mem_slot (operand_name xedo) = Some k)"

lemma each_ReadMemory_present:
  "fst (each (\<lambda>xedo w. case mem_slot (operand_name xedo) of None \<Rightarrow> (True, w)
                 | Some k \<Rightarrow> ReadMemoryOperand X E xedo k w) ops w) \<Longrightarrow>
   present (gMemory (fst (snd (each (\<lambda>xedo w. case mem_slot (operand_name xedo) of None \<Rightarrow> (True, w)
                 | Some k \<Rightarrow> ReadMemoryOperand X E xedo k w) ops w))) j) =
     (slot_used ops j \<or> present (gMemory (fst w) j))"
proof (induction ops arbitrary: w)
  case Nil
  then show ?case by (simp add: slot_used_def)
next
  case (Cons xedo ops)
  show ?case
  proof (cases "mem_slot (operand_name xedo)")
    case None
    with Cons show ?thesis by (simp add: slot_used_def)
  next
    case (Some k)
    obtain w1 where w1: "ReadMemoryOperand X E xedo k w = (True, w1)"
      using Cons.prems Some by (cases "ReadMemoryOperand X E xedo k w") (auto split: if_splits)
    have "present (gMemory (fst w1) j) = (j = k \<or> present (gMemory (fst w) j))"
      using ReadMemoryOperand_slot [of X E xedo k w] ReadMemoryOperand_other [of j k X E xedo w] w1
      by (cases "j = k") (simp_all add: Let_def)
    moreover have "slot_used (xedo # ops) j = (j = k \<or> slot_used ops j)"
      using Some by (auto simp: slot_used_def)
    ultimately show ?thesis using Cons Some w1 by auto
  qed
qed

text \<open>
  After a successful \<open>ReadMemory\<close> a slot is marked present exactly when the
  instruction has an operand for it (\<open>AGEN\<close> and \<open>MEM0\<close> for the first, \<open>MEM1\<close> for the
  second): nothing is left over from the previous instruction.
\<close>

theorem ReadMemory_present:
  assumes "fst (ReadMemory X E w)" and "k < 2"
  shows "present (gMemory (fst (snd (ReadMemory X E w))) k) = slot_used (get_operands (gXedd (fst w))) k"
proof -
  have "\<not> present (gMemory (clear_present (fst w)) k)"
    using assms(2) by (auto simp: clear_present_def less_2_cases_iff)
  then show ?thesis
    using assms(1) unfolding ReadMemory_def by (subst each_ReadMemory_present) auto
qed

theorem ReadMemory_present_witness:
  "fst (ReadMemory sample_xed (sample_executor 64) (sample_gstate, [])) \<and> (1 :: nat) < 2 \<and>
   \<not> present (gMemory (fst (snd (ReadMemory sample_xed (sample_executor 64) (sample_gstate, [])))) 1)"
proof -
  have h: "fst (ReadMemory sample_xed (sample_executor 64) (sample_gstate, []))"
    by (simp add: ReadMemory_def sample_gstate_def sample_inst_def)
  have "\<not> slot_used (get_operands (gXedd (fst (sample_gstate, [] :: sample_call list)))) 1"
    by (simp add: slot_used_def sample_gstate_def sample_inst_def)
  then show ?thesis using h ReadMemory_present [OF h, of 1] by simp
qed

text \<open>
  \<open>WriteMemory\<close> writes to the executor exactly the operands that are present and
  written by the instruction, the first slot before the second, each at the address and
  with the size recorded when it was read, and stops at the first refusal; the executor's
  own state is the only thing it changes.
\<close>

theorem WriteMemory_writes:
  "WriteMemory E w =
    (case each (\<lambda>mem. WriteMem E (maddress mem) (msize mem) (mdata mem))
       (filter (\<lambda>mem. present mem \<and> write_back mem) [gMemory (fst w) 0, gMemory (fst w) 1]) (snd w) of
       (ok, s) \<Rightarrow> (ok, fst w, s))"
  by (auto simp: WriteMemory_def WriteSlot_def split: prod.splits)

end
