(* ===== verification/Emulation.thy ===== *)
theory Emulation
  imports MemOps
begin

text \<open>
  \<open>Emulate\<close> of \<open>Executor.cpp\<close>: the instructions that are carried out on the cached values
  instead of being run natively. The locals at the head of the function are the record
  \<open>locals\<close>; the \<open>switch\<close> is one function per group of cases; the string macros \<open>STOS\<close>,
  \<open>SCAS\<close>, \<open>LODS\<close>, \<open>MOVS\<close>, \<open>CMPS\<close> and the repeat macros are functions of the same names.
  The result is (handled, next program counter, status, globals).
\<close>

section \<open>Operands of the emulation\<close>

text \<open>The references \<open>mem0\<close> and \<open>mem1\<close> to the first eight bytes of the memory operands.\<close>

definition memv :: "nat \<Rightarrow> gstate \<Rightarrow> u64" where
  "memv k g = get_bits 0 64 (mdata (gMemory g k))"

definition set_memv :: "nat \<Rightarrow> u64 \<Rightarrow> gstate \<Rightarrow> gstate" where
  "set_memv k v g = g\<lparr>gMemory := (gMemory g)(k := (gMemory g k)
     \<lparr>mdata := put_bits 0 64 v (mdata (gMemory g k))\<rparr>)\<rparr>"

interpretation memcell: cell "memv k" "set_memv k" "take_bit 64" for k
  by unfold_locales (simp_all add: memv_def set_memv_def get_put_bits put_get_bits put_put_bits)

lemma memv_set_memv [simp]: "memv k (set_memv k v g) = v"
  using memcell.rd_wr [of k v g] by simp

record locals =
  branch_target_pc :: u64
  curr_pc :: u64
  next_pc :: u64
  count_reg :: xed_reg
  count :: u64
  src_reg :: xed_reg
  dest_reg :: xed_reg
  stack_reg :: xed_reg
  reg0 :: xed_reg
  reg1 :: xed_reg
  reg2 :: xed_reg
  addr_size_bytes :: u64
  op_size_bytes :: u64
  simm0 :: u64
  stringop_inc :: u64

text \<open>\<open>stringop_inc\<close> is a signed 64-bit value, kept in two's complement.\<close>

definition emulate_locals :: "xed \<Rightarrow> 's executor \<Rightarrow> u64 \<Rightarrow> gstate \<Rightarrow> locals" where
  "emulate_locals X E npc g =
     (let target = BranchTarget npc g;
          c_reg = WidestRegister X E (reg X XED_REG_ECX);
          osize = of_nat (effective_operand_width (gEmu g) div 8)
      in \<lparr>branch_target_pc = (if 32 = addr_size E then ucast (ucast target :: u32) else target),
          curr_pc = ReadGPR X (reg X XED_REG_RIP) g,
          next_pc = (if 32 = addr_size E then ucast (ucast npc :: u32) else npc),
          count_reg = c_reg,
          count = ReadGPR X c_reg g,
          src_reg = WidestRegister X E (reg X XED_REG_ESI),
          dest_reg = WidestRegister X E (reg X XED_REG_EDI),
          stack_reg = WidestRegister X E (reg X XED_REG_ESP),
          reg0 = get_reg (gXedd g) XED_OPERAND_REG0,
          reg1 = get_reg (gXedd g) XED_OPERAND_REG1,
          reg2 = get_reg (gXedd g) XED_OPERAND_REG2,
          addr_size_bytes = of_nat (addr_size E div 8),
          op_size_bytes = osize,
          simm0 = GetSignedImmediate g,
          stringop_inc = (if flag ''df'' (aflag X g) then - osize else osize)\<rparr>)"

type_synonym emu_result = "bool \<times> u64 \<times> ExecutorStatus \<times> gstate"

definition handled :: "u64 \<Rightarrow> gstate \<Rightarrow> emu_result" where
  "handled pc g = (True, pc, kGood, g)"

definition rejected :: "ExecutorStatus \<Rightarrow> locals \<Rightarrow> gstate \<Rightarrow> emu_result" where
  "rejected st l g = (False, next_pc l, st, g)"

section \<open>Conditional branches\<close>

fun cc_taken :: "iform_jcc \<Rightarrow> u64 \<Rightarrow> bool" where
  "cc_taken JNLE f = (\<not> flag ''zf'' f \<and> flag ''sf'' f = flag ''of'' f)"
| "cc_taken JNS f = (\<not> flag ''sf'' f)"
| "cc_taken JL f = (flag ''sf'' f \<noteq> flag ''of'' f)"
| "cc_taken JNP f = (\<not> flag ''pf'' f)"
| "cc_taken JNZ f = (\<not> flag ''zf'' f)"
| "cc_taken JNB f = (\<not> flag ''cf'' f)"
| "cc_taken JNO f = (\<not> flag ''of'' f)"
| "cc_taken JNL f = (flag ''sf'' f = flag ''of'' f)"
| "cc_taken JNBE f = (\<not> flag ''cf'' f \<and> \<not> flag ''zf'' f)"
| "cc_taken JBE f = (flag ''cf'' f \<or> flag ''zf'' f)"
| "cc_taken JZ f = flag ''zf'' f"
| "cc_taken JP f = flag ''pf'' f"
| "cc_taken JS f = flag ''sf'' f"
| "cc_taken JO f = flag ''of'' f"
| "cc_taken JB f = flag ''cf'' f"
| "cc_taken JLE f = (flag ''zf'' f \<or> flag ''sf'' f \<noteq> flag ''of'' f)"

definition emulate_jcc :: "xed \<Rightarrow> locals \<Rightarrow> iform_jcc \<Rightarrow> gstate \<Rightarrow> emu_result" where
  "emulate_jcc X l j g =
     handled (if cc_taken j (aflag X g) then branch_target_pc l else next_pc l) g"

section \<open>Loops, jumps, calls\<close>

definition set_slot_low :: "nat \<Rightarrow> xed_reg \<Rightarrow> u64 \<Rightarrow> gstate \<Rightarrow> gstate" where
  "set_slot_low n r v g = g\<lparr>gRegs := (gRegs g)(r := put_bits 0 n v (gRegs g r))\<rparr>"

definition add_stack :: "xed \<Rightarrow> locals \<Rightarrow> u64 \<Rightarrow> gstate \<Rightarrow> gstate" where
  "add_stack X l k g = WriteGPR X (stack_reg l) (ReadGPR X (stack_reg l) g + k) g"

definition emulate_cfi :: "xed \<Rightarrow> locals \<Rightarrow> iform_cfi \<Rightarrow> gstate \<Rightarrow> emu_result" where
  "emulate_cfi X l f g =
     (case f of
        XED_IFORM_LOOPNE_RELBRb \<Rightarrow>
          (let g = WriteGPR X (count_reg l) (count l - 1) g in
           handled (if count l \<noteq> 0 \<and> \<not> flag ''zf'' (aflag X g) then branch_target_pc l else next_pc l) g)
      | XED_IFORM_LOOPE_RELBRb \<Rightarrow>
          (let g = WriteGPR X (count_reg l) (count l - 1) g in
           handled (if count l \<noteq> 0 \<and> flag ''zf'' (aflag X g) then branch_target_pc l else next_pc l) g)
      | XED_IFORM_LOOP_RELBRb \<Rightarrow>
          (let g = WriteGPR X (count_reg l) (count l - 1) g in
           handled (if count l \<noteq> 0 then branch_target_pc l else next_pc l) g)
      | XED_IFORM_JCXZ_RELBRb \<Rightarrow>
          handled (if ReadGPR X (reg X XED_REG_CX) g = 0 then branch_target_pc l else next_pc l) g
      | XED_IFORM_JECXZ_RELBRb \<Rightarrow>
          handled (if ReadGPR X (reg X XED_REG_ECX) g = 0 then branch_target_pc l else next_pc l) g
      | XED_IFORM_JRCXZ_RELBRb \<Rightarrow>
          handled (if ReadGPR X (reg X XED_REG_RCX) g = 0 then branch_target_pc l else next_pc l) g
      | XED_IFORM_XBEGIN_RELBRz \<Rightarrow>
          handled (branch_target_pc l)
            (set_slot_low 32 (reg X XED_REG_EAX) 8 (set_slot_low 64 (reg X XED_REG_RAX) 8 g))
      | XED_IFORM_XABORT_IMMb \<Rightarrow> rejected kErrorUnsupportedCFI l g
      | XED_IFORM_XEND \<Rightarrow> rejected kErrorUnsupportedCFI l g
      | XED_IFORM_JMP_MEMv \<Rightarrow> handled (memv 0 g) g
      | XED_IFORM_JMP_GPRv \<Rightarrow> handled (ReadGPR X (reg0 l) g) g
      | XED_IFORM_JMP_RELBR _ \<Rightarrow> handled (branch_target_pc l) g
      | XED_IFORM_CALL_NEAR_RELBR b \<Rightarrow>
          (if b = RELBRb then rejected kGood l g
           else handled (branch_target_pc l)
                  (add_stack X l (- addr_size_bytes l) (set_memv 0 (next_pc l) g)))
      | XED_IFORM_CALL_NEAR_MEMv \<Rightarrow>
          (let g = set_memv 1 (next_pc l) g in
           handled (memv 0 g) (add_stack X l (- addr_size_bytes l) g))
      | XED_IFORM_CALL_NEAR_GPRv \<Rightarrow>
          (let g = set_memv 0 (next_pc l) g in
           handled (ReadGPR X (reg0 l) g) (add_stack X l (- addr_size_bytes l) g))
      | XED_IFORM_RET_NEAR \<Rightarrow> handled (memv 0 g) (add_stack X l (addr_size_bytes l) g)
      | XED_IFORM_RET_NEAR_IMMw \<Rightarrow>
          handled (memv 0 g) (add_stack X l (addr_size_bytes l + ucast (ucast (simm0 l) :: u16)) g)
      | XED_IFORM_CALL_FAR_MEMp2 \<Rightarrow> rejected kErrorUnsupportedCFI l g
      | XED_IFORM_CALL_FAR_PTRp_IMMw \<Rightarrow> rejected kErrorUnsupportedCFI l g
      | XED_IFORM_JMP_FAR_MEMp2 \<Rightarrow> rejected kErrorUnsupportedCFI l g
      | XED_IFORM_JMP_FAR_PTRp_IMMw \<Rightarrow> rejected kErrorUnsupportedCFI l g
      | XED_IFORM_RET_FAR_IMMw \<Rightarrow> rejected kErrorUnsupportedCFI l g
      | XED_IFORM_RET_FAR \<Rightarrow> rejected kErrorUnsupportedCFI l g)"

text \<open>There is no \<open>XED_IFORM_CALL_NEAR_RELBRb\<close>; as every form the \<open>switch\<close> does not list it
  falls to \<open>default\<close>, not handled and with status \<open>kGood\<close>.\<close>

section \<open>String instructions\<close>

definition advance :: "xed \<Rightarrow> locals \<Rightarrow> xed_reg \<Rightarrow> gstate \<Rightarrow> gstate" where
  "advance X l r g =
     (let g = WriteGPR X r (ReadGPR X r g + stringop_inc l) g in
      g\<lparr>gModifiedRegs := insert r (gModifiedRegs g)\<rparr>)"

definition STOS :: "xed \<Rightarrow> locals \<Rightarrow> gstate \<Rightarrow> gstate" where
  "STOS X l g = advance X l (dest_reg l) (set_memv 0 (ReadGPR X (reg0 l) g) g)"

definition SCAS :: "xed \<Rightarrow> host \<Rightarrow> locals \<Rightarrow> gstate \<Rightarrow> gstate" where
  "SCAS X H l g =
     (let reg0_val = ReadGPR X (reg0 l) g; temp = reg0_val - memv 0 g;
          op_size = effective_operand_width (gEmu g);
          g = set_aflag X (UpdateFlagsSub H reg0_val (memv 0 g) temp op_size (aflag X g)) g
      in advance X l (dest_reg l) g)"

definition LODS :: "xed \<Rightarrow> locals \<Rightarrow> gstate \<Rightarrow> gstate" where
  "LODS X l g = advance X l (src_reg l) (WriteGPR X (reg0 l) (memv 0 g) g)"

definition MOVS :: "xed \<Rightarrow> locals \<Rightarrow> gstate \<Rightarrow> gstate" where
  "MOVS X l g = advance X l (dest_reg l) (advance X l (src_reg l) (set_memv 0 (memv 1 g) g))"

definition CMPS :: "xed \<Rightarrow> host \<Rightarrow> locals \<Rightarrow> gstate \<Rightarrow> gstate" where
  "CMPS X H l g =
     (let temp = memv 0 g - memv 1 g; op_size = effective_operand_width (gEmu g);
          g = set_aflag X (UpdateFlagsSub H (memv 0 g) (memv 1 g) temp op_size (aflag X g)) g
      in advance X l (dest_reg l) (advance X l (src_reg l) g))"

text \<open>One round of a repeated string instruction; \<open>again\<close> tells from the flags whether it
  goes on.\<close>

definition rep_round ::
  "xed \<Rightarrow> locals \<Rightarrow> (u64 \<Rightarrow> bool) \<Rightarrow> (gstate \<Rightarrow> gstate) \<Rightarrow> gstate \<Rightarrow> emu_result" where
  "rep_round X l again body g =
     (if count l \<noteq> 0 then
        (let g = body g; cnt = count l - 1; g = WriteGPR X (count_reg l) cnt g in
         handled (if cnt \<noteq> 0 \<and> again (aflag X g) then curr_pc l else next_pc l) g)
      else handled (next_pc l) g)"

definition REPNE :: "xed \<Rightarrow> locals \<Rightarrow> (gstate \<Rightarrow> gstate) \<Rightarrow> gstate \<Rightarrow> emu_result" where
  "REPNE X l = rep_round X l (\<lambda>f. \<not> flag ''zf'' f)"

definition REPE :: "xed \<Rightarrow> locals \<Rightarrow> (gstate \<Rightarrow> gstate) \<Rightarrow> gstate \<Rightarrow> emu_result" where
  "REPE X l = rep_round X l (\<lambda>f. flag ''zf'' f)"

definition REP :: "xed \<Rightarrow> locals \<Rightarrow> (gstate \<Rightarrow> gstate) \<Rightarrow> gstate \<Rightarrow> emu_result" where
  "REP X l = rep_round X l (\<lambda>_. True)"

definition emulate_str :: "xed \<Rightarrow> host \<Rightarrow> locals \<Rightarrow> iform_str \<Rightarrow> gstate \<Rightarrow> emu_result" where
  "emulate_str X H l f g =
     (case f of
        XED_IFORM_REPE_SCAS _ \<Rightarrow> REPE X l (SCAS X H l) g
      | XED_IFORM_REP_LODS _ \<Rightarrow> REP X l (LODS X l) g
      | XED_IFORM_REPNE_CMPS _ \<Rightarrow> REPNE X l (CMPS X H l) g
      | XED_IFORM_REP_STOS _ \<Rightarrow> REP X l (STOS X l) g
      | XED_IFORM_REPNE_SCAS _ \<Rightarrow> REPNE X l (SCAS X H l) g
      | XED_IFORM_REP_MOVS _ \<Rightarrow> REP X l (MOVS X l) g
      | XED_IFORM_REPE_CMPS _ \<Rightarrow> REPE X l (CMPS X H l) g
      | XED_IFORM_STOS _ \<Rightarrow> handled (next_pc l) (STOS X l g)
      | XED_IFORM_SCAS _ \<Rightarrow> handled (next_pc l) (SCAS X H l g)
      | XED_IFORM_LODS _ \<Rightarrow> handled (next_pc l) (LODS X l g)
      | XED_IFORM_MOVS _ \<Rightarrow> handled (next_pc l) (MOVS X l g)
      | XED_IFORM_CMPS _ \<Rightarrow> handled (next_pc l) (CMPS X H l g))"

section \<open>Stack instructions\<close>

definition emulate_stk :: "xed \<Rightarrow> locals \<Rightarrow> iform_stk \<Rightarrow> gstate \<Rightarrow> emu_result" where
  "emulate_stk X l f g =
     (case f of
        XED_IFORM_PUSH_MEMv \<Rightarrow>
          handled (next_pc l) (add_stack X l (- op_size_bytes l) (set_memv 1 (memv 0 g) g))
      | XED_IFORM_PUSH_GPRv_FFr6 \<Rightarrow>
          handled (next_pc l) (add_stack X l (- op_size_bytes l) (set_memv 0 (ReadGPR X (reg0 l) g) g))
      | XED_IFORM_PUSH_GPRv_50 \<Rightarrow>
          handled (next_pc l) (add_stack X l (- op_size_bytes l) (set_memv 0 (ReadGPR X (reg0 l) g) g))
      | XED_IFORM_PUSH_IMMz \<Rightarrow>
          handled (next_pc l) (add_stack X l (- op_size_bytes l) (set_memv 0 (ucast (ucast (simm0 l) :: u32)) g))
      | XED_IFORM_PUSH_IMMb \<Rightarrow>
          handled (next_pc l) (add_stack X l (- op_size_bytes l) (set_memv 0 (ucast (ucast (simm0 l) :: u32)) g))
      | XED_IFORM_POP_MEMv \<Rightarrow>
          handled (next_pc l) (add_stack X l (op_size_bytes l) (set_memv 0 (memv 1 g) g))
      | XED_IFORM_POP_GPRv_8F \<Rightarrow>
          handled (next_pc l) (add_stack X l (op_size_bytes l) (WriteGPR X (reg0 l) (memv 0 g) g))
      | XED_IFORM_POP_GPRv_58 \<Rightarrow>
          handled (next_pc l) (add_stack X l (op_size_bytes l) (WriteGPR X (reg0 l) (memv 0 g) g))
      | XED_IFORM_LEAVE \<Rightarrow>
          handled (next_pc l)
            (let g = WriteGPR X (reg1 l) (ReadGPR X (reg0 l) g) g in WriteGPR X (reg0 l) (memv 0 g) g)
      | XED_IFORM_PUSH_SEG _ \<Rightarrow>
          handled (next_pc l) (add_stack X l (- addr_size_bytes l) (set_memv 0 (ReadGPR X (reg0 l) g) g))
      | XED_IFORM_POP_SEG s \<Rightarrow>
          (if s = SegCS then rejected kGood l g
           else handled (next_pc l) (add_stack X l (addr_size_bytes l) (WriteGPR X (reg0 l) (memv 0 g) g)))
      | XED_IFORM_PUSHF _ \<Rightarrow>
          handled (next_pc l) (add_stack X l (- addr_size_bytes l) (set_memv 0 (aflag X g) g))
      | XED_IFORM_POPF _ \<Rightarrow>
          handled (next_pc l) (add_stack X l (addr_size_bytes l) (set_aflag X (memv 0 g) g))
      | XED_IFORM_PUSHA \<Rightarrow> rejected kErrorUnsupportedStack l g
      | XED_IFORM_PUSHAD \<Rightarrow> rejected kErrorUnsupportedStack l g
      | XED_IFORM_POPA \<Rightarrow> rejected kErrorUnsupportedStack l g
      | XED_IFORM_POPAD \<Rightarrow> rejected kErrorUnsupportedStack l g
      | XED_IFORM_ENTER_IMMw_IMMb \<Rightarrow> rejected kErrorUnsupportedStack l g)"

section \<open>The whole function\<close>

definition RDTSC :: "xed \<Rightarrow> locals \<Rightarrow> gstate \<Rightarrow> gstate" where
  "RDTSC X l g =
     (let tsc = ReadValue X 64 (reg X XED_REG_TSC) g;
          g = WriteGPR X (reg0 l) (ucast (ucast tsc :: u32)) g
      in WriteGPR X (reg1 l) (drop_bit 32 tsc) g)"

definition Emulate :: "xed \<Rightarrow> host \<Rightarrow> 's executor \<Rightarrow> u64 \<Rightarrow> gstate \<Rightarrow> emu_result" where
  "Emulate X H E npc g =
     (let l = emulate_locals X E npc g in
      case get_iform_enum (gXedd g) of
        XED_IFORM_LEA_GPRv_AGEN \<Rightarrow> handled (next_pc l) (WriteGPR X (reg0 l) (maddress (gMemory g 0)) g)
      | Jcc j _ \<Rightarrow> emulate_jcc X l j g
      | Cfi f \<Rightarrow> emulate_cfi X l f g
      | Str f \<Rightarrow> emulate_str X H l f g
      | Stk f \<Rightarrow> emulate_stk X l f g
      | XED_IFORM_MOV_MEMw_SEG \<Rightarrow> handled (next_pc l) (set_memv 0 (ReadGPR X (reg0 l) g) g)
      | XED_IFORM_MOV_GPRv_SEG \<Rightarrow> handled (next_pc l) (WriteGPR X (reg0 l) (ReadGPR X (reg1 l) g) g)
      | XED_IFORM_MOV_SEG_MEMw \<Rightarrow> handled (next_pc l) (WriteGPR X (reg0 l) (memv 0 g) g)
      | XED_IFORM_MOV_SEG_GPR16 \<Rightarrow> handled (next_pc l) (WriteGPR X (reg0 l) (ReadGPR X (reg1 l) g) g)
      | XED_IFORM_XLAT \<Rightarrow> handled (next_pc l) (WriteGPR X (reg0 l) (memv 0 g) g)
      | XED_IFORM_RDTSCP \<Rightarrow>
          handled (next_pc l) (RDTSC X l (WriteGPR X (reg2 l) (ReadValue X 32 (reg X XED_REG_TSCAUX) g) g))
      | XED_IFORM_RDTSC \<Rightarrow> handled (next_pc l) (RDTSC X l g)
      | Bt _ \<Rightarrow> rejected kGood l g
      | XED_IFORM_OTHER _ \<Rightarrow> rejected kGood l g)"

end
