(* ===== verification/Support.thy ===== *)
theory Support
  imports Emulation
begin

text \<open>
  Which instructions \<open>Execute\<close> refuses to run: \<open>UsesUnsupportedAttributes\<close> and
  \<open>UsesUnsupportedFeatures\<close> of \<open>Executor.cpp\<close>, and the update of the program counter,
  \<open>SetNextPC\<close>.
\<close>

section \<open>Attributes and categories\<close>

definition UsesUnsupportedAttributes :: "gstate \<Rightarrow> bool" where
  "UsesUnsupportedAttributes g =
     (let attribute = get_attribute (gXedd g) in
      attribute XED_ATTRIBUTE_RING0 \<or>
      attribute XED_ATTRIBUTE_PROTECTED_MODE \<or>
      attribute XED_ATTRIBUTE_FAR_XFER \<or>
      attribute XED_ATTRIBUTE_EXCEPTION_BR \<or>
      attribute XED_ATTRIBUTE_X87_MMX_STATE_R \<or>
      attribute XED_ATTRIBUTE_X87_MMX_STATE_W \<or>
      attribute XED_ATTRIBUTE_X87_MMX_STATE_CW \<or>
      attribute XED_ATTRIBUTE_XMM_STATE_R \<or>
      attribute XED_ATTRIBUTE_XMM_STATE_W \<or>
      attribute XED_ATTRIBUTE_XMM_STATE_CW \<or>
      attribute XED_ATTRIBUTE_EXCEPTION_BR \<or>
      attribute XED_ATTRIBUTE_KMASK \<or>
      attribute XED_ATTRIBUTE_MASKOP \<or>
      attribute XED_ATTRIBUTE_MASKOP_EVEX \<or>
      attribute XED_ATTRIBUTE_MASK_AS_CONTROL \<or>
      attribute XED_ATTRIBUTE_MASK_VARIABLE_MEMOP)"

definition UsesUnsupportedFeatures :: "'s executor \<Rightarrow> gstate \<Rightarrow> bool" where
  "UsesUnsupportedFeatures E g =
     (case get_category (gXedd g) of
        XED_CATEGORY_SYSTEM \<Rightarrow>
          (case get_iform_enum (gXedd g) of
             XED_IFORM_RDTSC \<Rightarrow> False
           | XED_IFORM_RDTSCP \<Rightarrow> False
           | _ \<Rightarrow> True)
      | XED_CATEGORY_3DNOW \<Rightarrow> True
      | XED_CATEGORY_MPX \<Rightarrow> True
      | XED_CATEGORY_AES \<Rightarrow> True
      | XED_CATEGORY_RDRAND \<Rightarrow> True
      | XED_CATEGORY_RDSEED \<Rightarrow> True
      | XED_CATEGORY_SEGOP \<Rightarrow> True
      | XED_CATEGORY_SYSCALL \<Rightarrow> True
      | XED_CATEGORY_INTERRUPT \<Rightarrow> True
      | XED_CATEGORY_SYSRET \<Rightarrow> True
      | XED_CATEGORY_XSAVE \<Rightarrow> True
      | XED_CATEGORY_XSAVEOPT \<Rightarrow> True
      | XED_CATEGORY_IOSTRINGOP \<Rightarrow> True
      | XED_CATEGORY_RDWRFSGS \<Rightarrow> True
      | XED_CATEGORY_VTX \<Rightarrow> True
      | XED_CATEGORY_AVX \<Rightarrow> \<not> has_avx E \<or> UsesUnsupportedAttributes g
      | XED_CATEGORY_AVX2 \<Rightarrow> \<not> has_avx E \<or> UsesUnsupportedAttributes g
      | XED_CATEGORY_AVX2GATHER \<Rightarrow> \<not> has_avx E \<or> UsesUnsupportedAttributes g
      | XED_CATEGORY_AVX512 \<Rightarrow> \<not> has_avx512 E \<or> UsesUnsupportedAttributes g
      | XED_CATEGORY_AVX512_4FMAPS \<Rightarrow> \<not> has_avx512 E \<or> UsesUnsupportedAttributes g
      | XED_CATEGORY_AVX512_4VNNIW \<Rightarrow> \<not> has_avx512 E \<or> UsesUnsupportedAttributes g
      | XED_CATEGORY_AVX512_BITALG \<Rightarrow> \<not> has_avx512 E \<or> UsesUnsupportedAttributes g
      | XED_CATEGORY_AVX512_VBMI \<Rightarrow> \<not> has_avx512 E \<or> UsesUnsupportedAttributes g
      | _ \<Rightarrow> UsesUnsupportedAttributes g)"

section \<open>The program counter\<close>

definition SetNextPC :: "xed \<Rightarrow> u64 \<Rightarrow> gstate \<Rightarrow> gstate" where
  "SetNextPC X npc g = set_slot_low 64 (reg X XED_REG_RIP) npc g"

lemma SetNextPC_slot: "get_bits 0 64 (gRegs (SetNextPC X npc g) (reg X XED_REG_RIP)) = npc"
  by (simp add: SetNextPC_def set_slot_low_def get_put_bits)

end
