(* ===== verification/Encode.thy ===== *)
theory Encode
  imports Support
begin

text \<open>
  Decoding and re-encoding: \<open>DecodeInstruction\<close>, the translation of the decoded operands
  into an encoder request (\<open>DecodeMem0\<close>, \<open>GetStackPointerAlias\<close>, \<open>DecodeRegN\<close>,
  \<open>DecodeImm0\<close>, \<open>DecodeImm1\<close>, \<open>CreateEncodableInstruction\<close>) and both
  \<open>EncodeInstruction\<close> functions, which place the instruction into the executable page
  with a return after it and with its memory operand redirected to \<open>gMemory[0].data\<close>.
\<close>

section \<open>Decoding\<close>

definition zero_operand :: xed_encoder_operand where
  "zero_operand = \<lparr>op_type = XED_ENCODER_OPERAND_TYPE_INVALID, u_mem_displacement = 0,
     u_mem_displacement_bits = 0, u_mem_base = 0, u_reg = 0, u_imm0 = 0, u_imm1 = 0,
     width_bits = 0\<rparr>"

text \<open>\<open>bytes\<close> is the list of the first \<open>num_bytes\<close> bytes of the buffer.\<close>

definition DecodeInstruction :: "xed \<Rightarrow> u8 list \<Rightarrow> nat \<Rightarrow> gstate \<Rightarrow> bool \<times> gstate" where
  "DecodeInstruction X bytes a_size g =
     (let dstate = (if 32 = a_size then kXEDState32 else kXEDState64) in
      case xed_decode X dstate bytes of (ok, d) \<Rightarrow>
        let g = g\<lparr>gXedd := d\<rparr> in
        if ok then
          (True, g\<lparr>gEmuSize := 0,
             gEmu := \<lparr>emu_iclass = get_iclass d, effective_address_width = 64,
               effective_operand_width = get_operand_width d, emu_mode = kXEDState64,
               noperands = 0, operands = (\<lambda>_. zero_operand)\<rparr>\<rparr>)
        else (False, g))"

section \<open>Operands of the request\<close>

text \<open>\<open>auto &op = gEmu.operands[i]\<close> followed by assignments to its members.\<close>

definition update_operand ::
  "nat \<Rightarrow> (xed_encoder_operand \<Rightarrow> xed_encoder_operand) \<Rightarrow> gstate \<Rightarrow> gstate" where
  "update_operand i f g =
     g\<lparr>gEmu := (gEmu g)\<lparr>operands := (operands (gEmu g))(i := f (operands (gEmu g) i))\<rparr>\<rparr>"

definition DecodeMem0 :: "xed \<Rightarrow> nat \<Rightarrow> gstate \<Rightarrow> gstate" where
  "DecodeMem0 X i g =
     (let mem = gMemory g 0;
          g = update_operand i (\<lambda>op. op\<lparr>op_type := XED_ENCODER_OPERAND_TYPE_MEM,
                u_mem_displacement := 0xFFFFFFFF, u_mem_displacement_bits := 32,
                u_mem_base := reg X XED_REG_RIP, width_bits := msize mem\<rparr>) g
      in g\<lparr>gMemory := (gMemory g)(0 := mem\<lparr>mem_op := Some i\<rparr>)\<rparr>)"

definition choose_alias :: "xed \<Rightarrow> xed_reg set \<Rightarrow> xed_reg" where
  "choose_alias X used =
     (if reg X XED_REG_RAX \<notin> used then reg X XED_REG_RAX
      else if reg X XED_REG_RCX \<notin> used then reg X XED_REG_RCX
      else if reg X XED_REG_RDX \<notin> used then reg X XED_REG_RDX
      else if reg X XED_REG_RBX \<notin> used then reg X XED_REG_RBX
      else reg X XED_REG_INVALID)"

text \<open>The arithmetic on enumerators is that of the 32-bit unsigned type behind them.\<close>

definition shift_reg :: "xed_reg \<Rightarrow> xed_reg \<Rightarrow> xed_reg \<Rightarrow> xed_reg" where
  "shift_reg r from_first to_first = nat ((int r - int from_first + int to_first) mod 2 ^ 32)"

definition GetStackPointerAlias :: "xed \<Rightarrow> xed_reg \<Rightarrow> gstate \<Rightarrow> xed_reg \<times> gstate" where
  "GetStackPointerAlias X r g =
     (let g = (if reg X XED_REG_INVALID = gStackPtrAlias g
               then (let al = choose_alias X (gStoreRegs g); g = g\<lparr>gStackPtrAlias := al\<rparr>
                     in WriteGPR X al (ReadGPR X (reg X XED_REG_RSP) g) g)
               else g);
          al = gStackPtrAlias g;
          scaled = (if r = reg X XED_REG_SPL
                    then shift_reg al (reg X XED_REG_GPR64_FIRST) (reg X XED_REG_GPR8_FIRST)
                    else if r = reg X XED_REG_SP
                    then shift_reg al (reg X XED_REG_GPR64_FIRST) (reg X XED_REG_GPR16_FIRST)
                    else if r = reg X XED_REG_ESP
                    then shift_reg al (reg X XED_REG_GPR64_FIRST) (reg X XED_REG_GPR32_FIRST)
                    else if r = reg X XED_REG_RSP then al
                    else reg X XED_REG_INVALID)
      in (scaled, g))"

definition DecodeRegN :: "xed \<Rightarrow> nat \<Rightarrow> xed_reg \<Rightarrow> gstate \<Rightarrow> gstate" where
  "DecodeRegN X i r g =
     (case (if reg X XED_REG_RSP = get_largest_enclosing_register X r
            then GetStackPointerAlias X r g else (r, g)) of (r', g') \<Rightarrow>
        update_operand i (\<lambda>op. op\<lparr>op_type := XED_ENCODER_OPERAND_TYPE_REG, u_reg := r',
          width_bits := get_register_width_bits64 X r'\<rparr>) g')"

definition DecodeImm0 :: "nat \<Rightarrow> xed_operand \<Rightarrow> gstate \<Rightarrow> gstate" where
  "DecodeImm0 i name g =
     (let d = gXedd g in
      update_operand i (\<lambda>op.
        (if XED_OPERAND_IMM0SIGNED = name \<or> get_immediate_is_signed d
         then op\<lparr>op_type := XED_ENCODER_OPERAND_TYPE_SIMM0, u_imm0 := word_of_int (get_signed_immediate d)\<rparr>
         else op\<lparr>op_type := XED_ENCODER_OPERAND_TYPE_IMM0, u_imm0 := get_unsigned_immediate d\<rparr>)
        \<lparr>width_bits := get_immediate_width_bits d\<rparr>) g)"

definition DecodeImm1 :: "nat \<Rightarrow> gstate \<Rightarrow> gstate" where
  "DecodeImm1 i g =
     update_operand i (\<lambda>op. op\<lparr>op_type := XED_ENCODER_OPERAND_TYPE_IMM1,
       u_imm1 := get_second_immediate (gXedd g),
       width_bits := get_immediate_width_bits (gXedd g)\<rparr>) g"

text \<open>One operand of the instruction: the body of the loop after the test of the
  visibility, which takes the next free operand of the request.\<close>

definition EncodeOperand :: "xed \<Rightarrow> xed_operand \<Rightarrow> gstate \<Rightarrow> gstate" where
  "EncodeOperand X name g =
     (let op_index = noperands (gEmu g);
          g = g\<lparr>gEmu := (gEmu g)\<lparr>noperands := op_index + 1\<rparr>\<rparr>
      in if name = XED_OPERAND_MEM0 then DecodeMem0 X op_index g
         else if name \<in> {XED_OPERAND_REG0, XED_OPERAND_REG1, XED_OPERAND_REG2, XED_OPERAND_REG3}
         then (let r = get_reg (gXedd g) name in if r \<noteq> 0 then DecodeRegN X op_index r g else g)
         else if name = XED_OPERAND_IMM0SIGNED \<or> name = XED_OPERAND_IMM0
         then DecodeImm0 op_index name g
         else if name = XED_OPERAND_IMM1_BYTES \<or> name = XED_OPERAND_IMM1
         then DecodeImm1 op_index g
         else g)"

definition is_encoded :: "xed_inst_operand \<Rightarrow> bool" where
  "is_encoded xedo \<longleftrightarrow> operand_visibility xedo = XED_OPVIS_EXPLICIT \<or>
     operand_visibility xedo = XED_OPVIS_IMPLICIT"

definition CreateEncodableInstruction :: "xed \<Rightarrow> gstate \<Rightarrow> gstate" where
  "CreateEncodableInstruction X g =
     fold (\<lambda>xedo g. if is_encoded xedo then EncodeOperand X (operand_name xedo) g else g)
       (get_operands (gXedd g)) g"

section \<open>Placing the instruction into the executable page\<close>

definition overwrite :: "u8 list \<Rightarrow> u8 list \<Rightarrow> u8 list" where
  "overwrite bs area = bs @ drop (length bs) area"

text \<open>\<open>EncodeInstruction(void)\<close>.\<close>

definition EncodeRequest :: "xed \<Rightarrow> gstate \<Rightarrow> bool \<times> gstate" where
  "EncodeRequest X g =
     (if convert_to_encoder_request X (gEmu g) then
        (case xed_encode X (gEmu g) of
           None \<Rightarrow> (False, g)
         | Some bs \<Rightarrow> (True, g\<lparr>gExecArea := overwrite bs (gExecArea g), gEmuSize := length bs\<rparr>))
      else (False, g))"

definition kPageSize :: u64 where
  "kPageSize = 4096"

text \<open>The page-aligned address inside \<open>gExecArea_\<close>, as \<open>Init\<close> computes it.\<close>

definition exec_area_address :: "host \<Rightarrow> u64" where
  "exec_area_address H = (exec_area_storage H + kPageSize - 1) AND NOT (kPageSize - 1)"

text \<open>\<open>EncodeInstruction(executor)\<close>. \<open>None\<close> is the write through the null pointer
  \<open>mem_op\<close>; a pointer left by an earlier instruction writes to that operand of the
  present request.\<close>

definition EncodeInstruction :: "xed \<Rightarrow> host \<Rightarrow> gstate \<Rightarrow> (bool \<times> gstate) option" where
  "EncodeInstruction X H g =
     (let g = CreateEncodableInstruction X g;
          g = g\<lparr>gExecArea := overwrite (replicate 32 0xC3) (gExecArea g)\<rparr>
      in case EncodeRequest X g of (ok, g) \<Rightarrow>
        if \<not> ok then Some (False, g)
        else if present (gMemory g 0) then
          (case mem_op (gMemory g 0) of
             None \<Rightarrow> None
           | Some op \<Rightarrow>
               (let rip = exec_area_address H + of_nat (gEmuSize g);
                    data = mem0_data_address H
                in Some (EncodeRequest X
                     (update_operand op (\<lambda>x. x\<lparr>u_mem_displacement := data - rip\<rparr>) g))))
        else Some (True, g))"

section \<open>MMX registers in the FPU image\<close>

text \<open>\<open>COPY_FROM_MMX_32\<close> and \<open>COPY_FROM_MMX_64\<close>, \<open>COPY_TO_MMX_32\<close> and \<open>COPY_TO_MMX_64\<close>,
  for the layout \<open>fx\<close> of the image.\<close>

definition COPY_FROM_MMX :: "xed \<Rightarrow> layout \<Rightarrow> nat \<Rightarrow> gstate \<Rightarrow> gstate" where
  "COPY_FROM_MMX X fx i g =
     (if reg X (XED_REG_MMX i) \<in> gUsedRegs g then
        g\<lparr>gFPU := put_bits (st_offset fx i ''infinity'') 16 (0xFFFF :: u16)
                   (put_bits (st_offset fx i ''mmx'') 64
                     (get_bits 0 64 (gRegs g (reg X (XED_REG_MMX i))) :: u64) (gFPU g))\<rparr>
      else g)"

definition COPY_TO_MMX :: "xed \<Rightarrow> layout \<Rightarrow> nat \<Rightarrow> gstate \<Rightarrow> gstate" where
  "COPY_TO_MMX X fx i g =
     (if reg X (XED_REG_MMX i) \<in> gUsedRegs g then
        set_slot_low 64 (reg X (XED_REG_MMX i)) (get_bits (st_offset fx i ''mmx'') 64 (gFPU g)) g
      else g)"

definition fpu_layout :: "'s executor \<Rightarrow> layout" where
  "fpu_layout E = (if 32 = addr_size E then FpuFXSAVE else FpuFXSAVE64)"

definition CopyMMXStateToFPU :: "xed \<Rightarrow> 's executor \<Rightarrow> gstate \<Rightarrow> gstate" where
  "CopyMMXStateToFPU X E g = fold (COPY_FROM_MMX X (fpu_layout E)) [0..<8] g"

definition CopyMMXStateFromFPU :: "xed \<Rightarrow> 's executor \<Rightarrow> gstate \<Rightarrow> gstate" where
  "CopyMMXStateFromFPU X E g = fold (COPY_TO_MMX X (fpu_layout E)) [0..<8] g"

end
