(* ===== verification/EmulationProps.thy ===== *)
theory EmulationProps
  imports Encode
begin

text \<open>
  Properties of \<open>Emulate\<close>: the conditions of the branches against the encoding of condition
  codes, what a refused instruction leaves behind, loops and repeated string instructions,
  and the stack discipline of calls, returns, pushes and pops.
\<close>

section \<open>Conditional branches\<close>

text \<open>The condition codes of the architecture: the four-bit number in the opcode of each
  branch, and the meaning of the upper three bits; the lowest bit negates.\<close>

fun cc_number :: "iform_jcc \<Rightarrow> nat" where
  "cc_number JO = 0" | "cc_number JNO = 1" | "cc_number JB = 2" | "cc_number JNB = 3"
| "cc_number JZ = 4" | "cc_number JNZ = 5" | "cc_number JBE = 6" | "cc_number JNBE = 7"
| "cc_number JS = 8" | "cc_number JNS = 9" | "cc_number JP = 10" | "cc_number JNP = 11"
| "cc_number JL = 12" | "cc_number JNL = 13" | "cc_number JLE = 14" | "cc_number JNLE = 15"

definition cc_holds :: "nat \<Rightarrow> u64 \<Rightarrow> bool" where
  "cc_holds n f =
     (([flag ''of'' f, flag ''cf'' f, flag ''zf'' f, flag ''cf'' f \<or> flag ''zf'' f, flag ''sf'' f,
        flag ''pf'' f, flag ''sf'' f \<noteq> flag ''of'' f,
        flag ''zf'' f \<or> flag ''sf'' f \<noteq> flag ''of'' f] ! (n div 2)) \<noteq> odd n)"

text \<open>The program counters of \<open>Emulate\<close>, cut to the address size.\<close>

definition mask_pc :: "'s executor \<Rightarrow> u64 \<Rightarrow> u64" where
  "mask_pc E pc = (if addr_size E = 32 then take_bit 32 pc else pc)"

lemma next_pc_locals [simp]: "next_pc (emulate_locals X E npc g) = mask_pc E npc"
  by (simp add: emulate_locals_def mask_pc_def ucast_u32_u64 Let_def)

lemma branch_target_locals [simp]:
  "branch_target_pc (emulate_locals X E npc g) =
     mask_pc E (npc + word_of_int (get_branch_displacement (gXedd g)))"
  by (simp add: emulate_locals_def mask_pc_def ucast_u32_u64 BranchTarget_def Let_def)

lemma Emulate_Jcc:
  assumes "get_iform_enum (gXedd g) = Jcc j b"
  shows "Emulate X H E npc g =
    (True, mask_pc E (if cc_holds (cc_number j) (aflag X g)
                      then npc + word_of_int (get_branch_displacement (gXedd g)) else npc),
     kGood, g)"
  by (cases j) (simp_all add: assms Emulate_def emulate_jcc_def handled_def cc_holds_def Let_def)

text \<open>
  C20: every conditional branch is taken exactly when the flags satisfy the condition code
  that the architecture gives its opcode; the target is the next program counter plus the
  signed displacement, modulo the address size, and nothing else changes.
\<close>

theorem Emulate_branch:
  assumes "get_iform_enum (gXedd g) = Jcc j b"
  shows "Emulate X H E npc g =
    (True, mask_pc E (if cc_holds (cc_number j) (aflag X g)
                      then npc + word_of_int (get_branch_displacement (gXedd g)) else npc),
     kGood, g)"
  using assms by (rule Emulate_Jcc)

text \<open>JNLE (condition code 15) with ZF clear and SF and OF set.\<close>

definition branch_gstate :: gstate where
  "branch_gstate = sample_gstate\<lparr>
     gXedd := sample_inst\<lparr>get_iform_enum := Jcc JNLE RELBRb, get_branch_displacement := - 2\<rparr>,
     gRegs := (\<lambda>_. 0)(6 := 0x880)\<rparr>"

theorem Emulate_branch_witness:
  "get_iform_enum (gXedd branch_gstate) = Jcc JNLE RELBRb \<and>
   Emulate sample_xed sample_host (sample_executor 32) 0 branch_gstate =
     (True, 0xFFFFFFFE, kGood, branch_gstate)"
proof -
  have h: "get_iform_enum (gXedd branch_gstate) = Jcc JNLE RELBRb" by (simp add: branch_gstate_def)
  have d: "get_branch_displacement (gXedd branch_gstate) = - 2"
    by (simp add: branch_gstate_def)
  have c: "cc_holds (cc_number JNLE) (aflag sample_xed branch_gstate)" by code_simp
  have m: "mask_pc (sample_executor 32) (- 2) = 0xFFFFFFFE" by code_simp
  show ?thesis using Emulate_branch [OF h, of sample_xed sample_host "sample_executor 32" 0] h c d m by simp
qed

section \<open>Refused instructions\<close>

text \<open>
  An instruction that \<open>Emulate\<close> does not handle leaves all globals as they are and
  the program counter at the next instruction; a status other than success is returned
  only with it, and is one of the two for unsupported control flow and stack operations.
\<close>

theorem Emulate_refused:
  assumes "Emulate X H E npc g = (ok, pc, st, g')"
  shows "(\<not> ok \<longrightarrow> g' = g \<and> pc = mask_pc E npc) \<and> (ok \<longrightarrow> st = kGood) \<and>
    st \<in> {kGood, kErrorUnsupportedCFI, kErrorUnsupportedStack}"
  using assms
  by (auto simp: Emulate_def emulate_jcc_def emulate_cfi_def emulate_str_def emulate_stk_def
      REPNE_def REPE_def REP_def rep_round_def handled_def rejected_def Let_def
      split: iform.splits iform_cfi.splits iform_str.splits iform_stk.splits if_splits)

theorem Emulate_refused_witness:
  "Emulate sample_xed sample_host (sample_executor 64) 5
     (sample_gstate\<lparr>gXedd := sample_inst\<lparr>get_iform_enum := Stk XED_IFORM_PUSHA\<rparr>\<rparr>) =
     (False, 5, kErrorUnsupportedStack,
      sample_gstate\<lparr>gXedd := sample_inst\<lparr>get_iform_enum := Stk XED_IFORM_PUSHA\<rparr>\<rparr>) \<and>
   mask_pc (sample_executor 64) 5 = 5"
proof -
  have m: "mask_pc (sample_executor 64) 5 = 5" by code_simp
  then have e: "Emulate sample_xed sample_host (sample_executor 64) 5
     (sample_gstate\<lparr>gXedd := sample_inst\<lparr>get_iform_enum := Stk XED_IFORM_PUSHA\<rparr>\<rparr>) =
     (False, 5, kErrorUnsupportedStack,
      sample_gstate\<lparr>gXedd := sample_inst\<lparr>get_iform_enum := Stk XED_IFORM_PUSHA\<rparr>\<rparr>)"
    by (simp add: Emulate_def emulate_stk_def rejected_def Let_def)
  from Emulate_refused [OF this] e m show ?thesis by simp
qed

section \<open>Registers of the address size\<close>

definition addr_ok :: "'s executor \<Rightarrow> bool" where
  "addr_ok E \<longleftrightarrow> addr_size E = 32 \<or> addr_size E = 64"

text \<open>What \<open>WidestRegister\<close> yields for the 32-bit name of a register.\<close>

lemma widest_pair:
  assumes "gpr_pair X e r" and "addr_ok E"
  shows "is_gpr X (WidestRegister X E (reg X e))"
    "get_register_width_bits64 X (WidestRegister X E (reg X e)) = addr_size E"
    "get_largest_enclosing_register X (WidestRegister X E (reg X e)) = reg X r"
  using gpr_pairD [OF assms(1)] assms(2)
  by (auto simp: WidestRegister_pair [OF assms(1)] is_gpr_def is_gpr8h_def addr_ok_def)

lemma take_bit_addr: "addr_ok E \<Longrightarrow> take_bit (addr_size E) v = mask_pc E v"
  by (auto simp: addr_ok_def mask_pc_def)

lemma ReadGPR_WriteGPR_widest:
  assumes "gpr_pair X e r" and "addr_ok E"
  shows "ReadGPR X (WidestRegister X E (reg X e)) (WriteGPR X (WidestRegister X E (reg X e)) v g) = mask_pc E v"
  using ReadGPR_WriteGPR_eq [OF widest_pair(1) [OF assms]] widest_pair(2) [OF assms] take_bit_addr [OF assms(2)]
  by simp

text \<open>A value read from such a register fits it.\<close>

lemma mask_pc_ReadGPR:
  assumes "gpr_pair X e r" and "addr_ok E"
  shows "mask_pc E (ReadGPR X (WidestRegister X E (reg X e)) g) = ReadGPR X (WidestRegister X E (reg X e)) g"
proof -
  have "gpr_low X (WidestRegister X E (reg X e)) = 0"
    using gpr_pairD [OF assms(1)] by (simp add: gpr_low_def is_gpr8h_def WidestRegister_pair [OF assms(1)])
  then show ?thesis
    unfolding ReadGPR_get_bits [OF widest_pair(1) [OF assms]] widest_pair(2) [OF assms]
    by (intro bit_word_eqI) (auto simp: mask_pc_def bit_simps)
qed

lemma unat_take_bit_32: "unat (take_bit 32 v) = unat v mod 2 ^ 32" for v :: u64
  by (simp add: unsigned_take_bit_eq) (simp add: take_bit_nat_def)

lemma take_bit_add_left: "take_bit 32 (take_bit 32 a + b) = take_bit 32 (a + b :: u64)"
proof -
  have "unat (take_bit 32 (take_bit 32 a + b)) = unat (take_bit 32 (a + b))"
    by (simp add: unat_take_bit_32 unat_word_ariths mod_mod_cancel mod_simps)
  then show ?thesis by (simp only: word_unat_eq_iff)
qed

lemma mask_pc_dec: "mask_pc E c = c \<Longrightarrow> c \<noteq> 0 \<Longrightarrow> mask_pc E (c - 1) = c - 1"
proof -
  assume c: "mask_pc E c = c" "c \<noteq> 0"
  have "unat (c - 1) = unat c - 1" using c(2) by (simp add: unat_minus_one)
  moreover have "unat c < 2 ^ 32" if "addr_size E = 32"
    using c(1) that unat_take_bit_32 [of c] by (metis mask_pc_def mod_less_divisor zero_less_numeral zero_less_power)
  then have "addr_size E = 32 \<Longrightarrow> unat c - 1 < 2 ^ 32" using less_imp_diff_less by blast
  ultimately have "unat (mask_pc E (c - 1)) = unat (c - 1)"
    by (simp add: mask_pc_def unat_take_bit_32)
  then show ?thesis by (simp only: word_unat_eq_iff)
qed

lemma mask_pc_add:
  "mask_pc E (mask_pc E a + b) = mask_pc E (a + b)" "mask_pc E (mask_pc E a - b) = mask_pc E (a - b)"
  using take_bit_add_left [of a b] take_bit_add_left [of a "- b"] by (simp_all add: mask_pc_def)

lemma aflag_WriteGPR:
  "get_largest_enclosing_register X r \<noteq> reg X XED_REG_RFLAGS \<Longrightarrow> aflag X (WriteGPR X r v g) = aflag X g"
  by (simp add: aflag_def gRegs_WriteGPR_other)

lemma gXedd_WriteGPR [simp]: "gXedd (WriteGPR X r v g) = gXedd g"
  by (simp add: WriteGPR_def WriteValue_def Let_def)

lemma gEmu_WriteGPR [simp]: "gEmu (WriteGPR X r v g) = gEmu g"
  by (simp add: WriteGPR_def WriteValue_def Let_def)

lemma gMemory_WriteGPR [simp]: "gMemory (WriteGPR X r v g) = gMemory g"
  by (simp add: WriteGPR_def WriteValue_def Let_def)

lemma memv_WriteGPR [simp]: "memv k (WriteGPR X r v g) = memv k g"
  by (simp add: memv_def)

lemma ReadGPR_set_memv [simp]: "ReadGPR X r (set_memv k v g) = ReadGPR X r g"
  by (simp add: ReadGPR_def ReadValue_def set_memv_def Let_def)

lemma xed_ok_distinct:
  assumes "xed_ok X"
  shows "reg X XED_REG_RFLAGS \<noteq> reg X XED_REG_RCX" "reg X XED_REG_RFLAGS \<noteq> reg X XED_REG_RSI"
    "reg X XED_REG_RFLAGS \<noteq> reg X XED_REG_RDI" "reg X XED_REG_RSI \<noteq> reg X XED_REG_RDI"
    "reg X XED_REG_RCX \<noteq> reg X XED_REG_RSI" "reg X XED_REG_RCX \<noteq> reg X XED_REG_RDI"
    "reg X XED_REG_RIP \<noteq> reg X XED_REG_RCX" "reg X XED_REG_RIP \<noteq> reg X XED_REG_RSI"
    "reg X XED_REG_RIP \<noteq> reg X XED_REG_RDI" "reg X XED_REG_RAX \<noteq> reg X XED_REG_RCX"
    "reg X XED_REG_RIP \<noteq> reg X XED_REG_RAX" "reg X XED_REG_RAX \<noteq> reg X XED_REG_RSI"
  using assms unfolding xed_ok_def by auto

section \<open>Loops\<close>

fun loop_condition :: "iform_cfi \<Rightarrow> u64 \<Rightarrow> bool" where
  "loop_condition XED_IFORM_LOOPNE_RELBRb f = (\<not> flag ''zf'' f)"
| "loop_condition XED_IFORM_LOOPE_RELBRb f = flag ''zf'' f"
| "loop_condition _ f = True"

text \<open>
  LOOP, LOOPE and LOOPNE decrement the counter (ECX or RCX by the address size) and
  test the value it had before, while the architecture tests the decremented value: the
  two tests disagree exactly for the counts 0 and 1.
\<close>

theorem Emulate_loop_count:
  assumes "xed_ok X" and "addr_ok E" and "get_iform_enum (gXedd g) = Cfi f"
    and "f \<in> {XED_IFORM_LOOP_RELBRb, XED_IFORM_LOOPE_RELBRb, XED_IFORM_LOOPNE_RELBRb}"
  shows "let cx = WidestRegister X E (reg X XED_REG_ECX); c = ReadGPR X cx g;
             target = npc + word_of_int (get_branch_displacement (gXedd g));
             (ok, pc, st, g') = Emulate X H E npc g
    in ok \<and> ReadGPR X cx g' = mask_pc E (c - 1) \<and>
       pc = mask_pc E (if c \<noteq> 0 \<and> loop_condition f (aflag X g) then target else npc) \<and>
       ((c \<noteq> 0) = (ReadGPR X cx g' \<noteq> 0) \<longleftrightarrow> c \<noteq> 0 \<and> c \<noteq> 1)"
proof -
  note pair = xed_ok_pairs(4) [OF assms(1)]
  define cx where "cx = WidestRegister X E (reg X XED_REG_ECX)"
  define c where "c = ReadGPR X cx g"
  have dec: "ReadGPR X cx (WriteGPR X cx (c - 1) g) = mask_pc E (c - 1)"
    unfolding cx_def by (rule ReadGPR_WriteGPR_widest [OF pair assms(2)])
  have flags: "aflag X (WriteGPR X cx (c - 1) g) = aflag X g"
    using aflag_WriteGPR [of X cx] widest_pair(3) [OF pair assms(2)] xed_ok_distinct(1) [OF assms(1)]
    by (simp add: cx_def)
  have fits: "mask_pc E c = c"
    unfolding c_def cx_def by (rule mask_pc_ReadGPR [OF pair assms(2)])
  have one: "mask_pc E 1 = 1" by (simp add: mask_pc_def)
  have "mask_pc E (c - 1) = 0 \<longleftrightarrow> c = 1"
  proof
    assume "mask_pc E (c - 1) = 0"
    then have "mask_pc E (mask_pc E (c - 1) + 1) = mask_pc E 1" by simp
    then show "c = 1" by (simp add: mask_pc_add fits one)
  qed (simp add: mask_pc_def)
  moreover have "count_reg (emulate_locals X E npc g) = cx" "count (emulate_locals X E npc g) = c"
    by (simp_all add: emulate_locals_def cx_def c_def Let_def)
  moreover have "Emulate X H E npc g = (True,
      (if c \<noteq> 0 \<and> loop_condition f (aflag X g) then branch_target_pc (emulate_locals X E npc g)
       else next_pc (emulate_locals X E npc g)), kGood, WriteGPR X cx (c - 1) g)"
    using assms(4) flags calculation(2,3)
    by (elim insertE emptyE) (simp_all add: Emulate_def assms(3) emulate_cfi_def handled_def Let_def)
  ultimately show ?thesis
    unfolding cx_def [symmetric] c_def [symmetric] Let_def by (auto simp: dec)
qed

text \<open>LOOP with RCX = 1: the architecture falls through, the code jumps.\<close>

definition loop_gstate :: gstate where
  "loop_gstate = sample_gstate\<lparr>
     gXedd := sample_inst\<lparr>get_iform_enum := Cfi XED_IFORM_LOOP_RELBRb, get_branch_displacement := - 2\<rparr>,
     gRegs := (\<lambda>_. 0)(12 := 1)\<rparr>"

theorem Emulate_loop_count_witness:
  "xed_ok sample_xed \<and> addr_ok (sample_executor 64) \<and>
   (case Emulate sample_xed sample_host (sample_executor 64) 0x402 loop_gstate of (ok, pc, st, g') \<Rightarrow>
      ok \<and> pc = 0x400 \<and> ReadGPR sample_xed 12 g' = 0)"
proof -
  have h: "addr_ok (sample_executor 64)" "get_iform_enum (gXedd loop_gstate) = Cfi XED_IFORM_LOOP_RELBRb"
    "XED_IFORM_LOOP_RELBRb \<in> {XED_IFORM_LOOP_RELBRb, XED_IFORM_LOOPE_RELBRb, XED_IFORM_LOOPNE_RELBRb}"
    by (simp_all add: addr_ok_def sample_executor_def loop_gstate_def)
  have e: "WidestRegister sample_xed (sample_executor 64) (reg sample_xed XED_REG_ECX) = 12"
    "ReadGPR sample_xed 12 loop_gstate = 1" "get_branch_displacement (gXedd loop_gstate) = - 2"
    "\<And>v. mask_pc (sample_executor 64) v = v"
    by (code_simp, code_simp, code_simp, simp add: mask_pc_def sample_executor_def)
  from Emulate_loop_count [OF sample_xed_ok h, where H = sample_host and npc = "0x402"] show ?thesis
    by (simp add: e sample_xed_ok h(1) Let_def case_prod_unfold)
qed

section \<open>Repeated string instructions\<close>

text \<open>The instruction is executed again and again: \<open>env\<close> is what happens to the globals
  between two rounds (everything is read again from the executor). The result is the state
  after the round that moved on to the next instruction, \<open>None\<close> if the fuel does not
  suffice.\<close>

fun rep_run ::
  "xed \<Rightarrow> host \<Rightarrow> 's executor \<Rightarrow> u64 \<Rightarrow> (gstate \<Rightarrow> gstate) \<Rightarrow> nat \<Rightarrow> gstate \<Rightarrow> gstate option" where
  "rep_run X H E npc env 0 g = None"
| "rep_run X H E npc env (Suc k) g =
     (case Emulate X H E npc g of (ok, pc, st, g') \<Rightarrow>
        if pc = mask_pc E npc then Some g' else rep_run X H E npc env k (env g'))"

fun rep_body :: "iform_str \<Rightarrow> xed \<Rightarrow> locals \<Rightarrow> gstate \<Rightarrow> gstate" where
  "rep_body (XED_IFORM_REP_LODS _) = LODS"
| "rep_body (XED_IFORM_REP_STOS _) = STOS"
| "rep_body (XED_IFORM_REP_MOVS _) = MOVS"
| "rep_body _ = (\<lambda>X l g. g)"

definition is_rep :: "iform_str \<Rightarrow> bool" where
  "is_rep f \<longleftrightarrow> (\<exists>s. f \<in> {XED_IFORM_REP_LODS s, XED_IFORM_REP_STOS s, XED_IFORM_REP_MOVS s})"

text \<open>What a round relies on and keeps: the form, the counter, the program counter.\<close>

definition rep_view :: "xed \<Rightarrow> 's executor \<Rightarrow> gstate \<Rightarrow> xed_decoded_inst \<times> u64 \<times> u64" where
  "rep_view X E g = (gXedd g, ReadGPR X (WidestRegister X E (reg X XED_REG_ECX)) g,
     ReadGPR X (reg X XED_REG_RIP) g)"

lemma ReadGPR_gModifiedRegs [simp]: "ReadGPR X r (g\<lparr>gModifiedRegs := m\<rparr>) = ReadGPR X r g"
  by (simp add: ReadGPR_def ReadValue_def Let_def)

lemma ReadGPR_advance_other:
  "get_largest_enclosing_register X q \<noteq> get_largest_enclosing_register X r \<Longrightarrow>
   ReadGPR X q (advance X l r g) = ReadGPR X q g"
  by (simp add: advance_def ReadGPR_WriteGPR_other Let_def)

lemma gXedd_advance [simp]: "gXedd (advance X l r g) = gXedd g"
  by (simp add: advance_def Let_def)

lemma gXedd_set_memv [simp]: "gXedd (set_memv k v g) = gXedd g"
  by (simp add: set_memv_def)

lemma rep_body_view:
  assumes "xed_ok X" and "addr_ok E" and "is_rep f"
    and "f \<in> range XED_IFORM_REP_LODS \<longrightarrow> get_largest_enclosing_register X (reg0 l) = reg X XED_REG_RAX"
    and "src_reg l = WidestRegister X E (reg X XED_REG_ESI)"
    and "dest_reg l = WidestRegister X E (reg X XED_REG_EDI)"
  shows "rep_view X E (rep_body f X l g) = rep_view X E g"
proof -
  note big = widest_pair(3) [OF xed_ok_pairs(4) [OF assms(1)] assms(2)]
    widest_pair(3) [OF xed_ok_pairs(5) [OF assms(1)] assms(2)]
    widest_pair(3) [OF xed_ok_pairs(6) [OF assms(1)] assms(2)]
    gpr_pairD(2) [OF xed_ok_pairs(1) [OF assms(1)]]
  show ?thesis
    using assms(3-6) xed_ok_distinct [OF assms(1)] big
    by (auto simp: is_rep_def rep_view_def STOS_def LODS_def MOVS_def ReadGPR_advance_other
        ReadGPR_WriteGPR_other)
qed

text \<open>One round on a nonzero counter.\<close>

lemma Emulate_rep:
  assumes "xed_ok X" and "addr_ok E" and "is_rep f" and "get_iform_enum (gXedd g) = Str f"
    and "f \<in> range XED_IFORM_REP_LODS \<longrightarrow> get_largest_enclosing_register X (get_reg (gXedd g) XED_OPERAND_REG0) = reg X XED_REG_RAX"
    and "rep_view X E g = (d, c, pc0)"
  shows "c = 0 \<Longrightarrow> Emulate X H E npc g = (True, mask_pc E npc, kGood, g)"
    and "c \<noteq> 0 \<Longrightarrow> \<exists>g'. Emulate X H E npc g = (True, if c = 1 then mask_pc E npc else pc0, kGood, g') \<and>
           rep_view X E g' = (d, c - 1, pc0)"
proof -
  define l where "l = emulate_locals X E npc g"
  define cx where "cx = WidestRegister X E (reg X XED_REG_ECX)"
  note pair = xed_ok_pairs(4) [OF assms(1)]
  have l: "count_reg l = cx" "count l = c" "curr_pc l = pc0" "next_pc l = mask_pc E npc"
    "reg0 l = get_reg (gXedd g) XED_OPERAND_REG0" "src_reg l = WidestRegister X E (reg X XED_REG_ESI)"
    "dest_reg l = WidestRegister X E (reg X XED_REG_EDI)"
    using assms(6) by (simp_all add: l_def) (simp_all add: emulate_locals_def cx_def rep_view_def Let_def)
  have R: "Emulate X H E npc g = REP X l (rep_body f X l) g"
    using assms(3,4) by (auto simp: Emulate_def is_rep_def emulate_str_def l_def Let_def)
  show "c = 0 \<Longrightarrow> Emulate X H E npc g = (True, mask_pc E npc, kGood, g)"
    by (simp add: R REP_def rep_round_def handled_def l)
  assume c: "c \<noteq> 0"
  let ?g' = "WriteGPR X cx (c - 1) (rep_body f X l g)"
  have v: "rep_view X E (rep_body f X l g) = (d, c, pc0)"
    using rep_body_view [OF assms(1-3)] assms(5,6) l by simp
  have fits: "mask_pc E c = c"
    using mask_pc_ReadGPR [OF pair assms(2)] assms(6) by (auto simp: rep_view_def)
  have "mask_pc E (c - 1) = c - 1" using fits c by (rule mask_pc_dec)
  then have "rep_view X E ?g' = (d, c - 1, pc0)"
    using v ReadGPR_WriteGPR_widest [OF pair assms(2)] widest_pair(3) [OF pair assms(2)]
      gpr_pairD(2) [OF xed_ok_pairs(1) [OF assms(1)]] xed_ok_distinct(7) [OF assms(1)]
    by (simp add: rep_view_def cx_def ReadGPR_WriteGPR_other)
  moreover have "Emulate X H E npc g = (True, if c = 1 then mask_pc E npc else pc0, kGood, ?g')"
    using c by (simp add: R REP_def rep_round_def handled_def l Let_def)
  ultimately show "\<exists>g'. Emulate X H E npc g = (True, if c = 1 then mask_pc E npc else pc0, kGood, g') \<and>
           rep_view X E g' = (d, c - 1, pc0)" by blast
qed

lemma rep_run_steps:
  assumes "xed_ok X" and "addr_ok E" and "is_rep f" and "get_iform_enum d = Str f"
    and "f \<in> range XED_IFORM_REP_LODS \<longrightarrow> get_largest_enclosing_register X (get_reg d XED_OPERAND_REG0) = reg X XED_REG_RAX"
    and "pc0 \<noteq> mask_pc E npc" and "\<And>g. rep_view X E (env g) = rep_view X E g"
  shows "rep_view X E g = (d, c, pc0) \<Longrightarrow> unat c = n \<Longrightarrow>
    (\<exists>g'. rep_run X H E npc env (max 1 n) g = Some g' \<and> rep_view X E g' = (d, 0, pc0)) \<and>
    (\<forall>k < max 1 n. rep_run X H E npc env k g = None)"
proof (induction n arbitrary: g c)
  case 0
  then have "c = 0" by (simp add: unat_eq_zero)
  with Emulate_rep(1) [OF assms(1-3) _ _ 0(1), of H npc] 0(1) assms(4,5) show ?case
    by (auto simp: rep_view_def less_Suc_eq_0_disj)
next
  case (Suc n)
  from Suc.prems(2) have c: "c \<noteq> 0" by auto
  have dec: "unat (c - 1) = n" using Suc.prems(2) c by (simp add: unat_minus_one)
  have d: "gXedd g = d" using Suc.prems(1) by (simp add: rep_view_def)
  obtain g1 where g1: "Emulate X H E npc g = (True, if c = 1 then mask_pc E npc else pc0, kGood, g1)"
    "rep_view X E g1 = (d, c - 1, pc0)"
    using Emulate_rep(2) [OF assms(1-3) _ _ Suc.prems(1) c, of H npc] assms(4,5) d by auto
  show ?case
  proof (cases "n = 0")
    case True
    then have "c = 1" using dec c by (metis diff_add_cancel unat_eq_zero add_0)
    with g1 True show ?thesis by (auto simp: less_Suc_eq_0_disj)
  next
    case False
    then have "c \<noteq> 1" using dec by auto
    moreover have "rep_view X E (env g1) = (d, c - 1, pc0)" using g1(2) assms(7) by simp
    note Suc.IH [OF this dec]
    ultimately show ?thesis
      using g1 assms(6) False by (auto simp: less_Suc_eq_0_disj max_def)
  qed
qed

text \<open>
  C23: a REP-prefixed store, load or move, executed one round at a time, needs exactly as
  many executions as its counter says (one if it is zero) until the program counter moves
  on, and the counter is zero then; every earlier round leaves the program counter on the
  instruction. What happens between rounds is arbitrary as long as the instruction, the
  counter and the program counter are handed back. Of the operands only the register that a
  load writes matters: it is a part of RAX.
\<close>

theorem rep_run_count:
  assumes "xed_ok X" and "addr_ok E" and "is_rep f" and "get_iform_enum (gXedd g) = Str f"
    and "f \<in> range XED_IFORM_REP_LODS \<longrightarrow> get_largest_enclosing_register X (get_reg (gXedd g) XED_OPERAND_REG0) = reg X XED_REG_RAX"
    and "ReadGPR X (reg X XED_REG_RIP) g \<noteq> mask_pc E npc"
    and "\<And>g. rep_view X E (env g) = rep_view X E g"
  shows "let cx = WidestRegister X E (reg X XED_REG_ECX); n = max 1 (unat (ReadGPR X cx g)) in
    (\<exists>g'. rep_run X H E npc env n g = Some g' \<and> ReadGPR X cx g' = 0) \<and>
    (\<forall>k < n. rep_run X H E npc env k g = None)"
  using rep_run_steps [where H = H, OF assms(1-3) assms(4-6) assms(7) _ refl, of g "ReadGPR X (WidestRegister X E (reg X XED_REG_ECX)) g"]
  by (auto simp: rep_view_def Let_def)

text \<open>\<open>REP MOVSB\<close> with RCX = 3; its first register operand is RCX.\<close>

definition rep_gstate :: gstate where
  "rep_gstate = sample_gstate\<lparr>
     gXedd := sample_inst\<lparr>get_iform_enum := Str (XED_IFORM_REP_MOVS StrB), get_reg := (\<lambda>_. 0)(XED_OPERAND_REG0 := 12)\<rparr>,
     gRegs := (\<lambda>_. 0)(12 := 3)\<rparr>"

theorem rep_run_count_witness:
  "xed_ok sample_xed \<and> ReadGPR sample_xed 12 rep_gstate = 3 \<and>
   (\<exists>g'. rep_run sample_xed sample_host (sample_executor 64) 2 (\<lambda>g. g) 3 rep_gstate = Some g' \<and>
      ReadGPR sample_xed 12 g' = 0) \<and>
   rep_run sample_xed sample_host (sample_executor 64) 2 (\<lambda>g. g) 2 rep_gstate = None"
proof -
  have h: "addr_ok (sample_executor 64)" "is_rep (XED_IFORM_REP_MOVS StrB)"
    "get_iform_enum (gXedd rep_gstate) = Str (XED_IFORM_REP_MOVS StrB)"
    "XED_IFORM_REP_MOVS StrB \<in> range XED_IFORM_REP_LODS \<longrightarrow>
       get_largest_enclosing_register sample_xed (get_reg (gXedd rep_gstate) XED_OPERAND_REG0) = reg sample_xed XED_REG_RAX"
    by (auto simp: addr_ok_def is_rep_def rep_gstate_def sample_simps)
  have pc: "ReadGPR sample_xed (reg sample_xed XED_REG_RIP) rep_gstate \<noteq> mask_pc (sample_executor 64) 2"
    by code_simp
  have e: "WidestRegister sample_xed (sample_executor 64) (reg sample_xed XED_REG_ECX) = 12"
    "ReadGPR sample_xed 12 rep_gstate = 3" by code_simp+
  have two: "(2 :: nat) < 3" by simp
  from rep_run_count [OF sample_xed_ok h pc, of "\<lambda>g. g" sample_host] show ?thesis
    using sample_xed_ok two by (simp add: e Let_def)
qed

end
