(* ===== verification/StackProps.thy ===== *)
theory StackProps
  imports EmulationProps
begin

text \<open>
  The stack discipline of \<open>Emulate\<close>: a call and the return that answers it, a push and the
  pop that answers it, and the places where the emulation and the architecture differ (POP
  into the stack pointer, LEAVE, immediate pushes); the effect of the string move.
\<close>

section \<open>The stack pointer\<close>

definition stack_pointer :: "xed \<Rightarrow> 's executor \<Rightarrow> gstate \<Rightarrow> u64" where
  "stack_pointer X E g = ReadGPR X (WidestRegister X E (reg X XED_REG_ESP)) g"

lemma stack_pointer_add_stack:
  assumes "xed_ok X" and "addr_ok E" and "stack_reg l = WidestRegister X E (reg X XED_REG_ESP)"
  shows "stack_pointer X E (add_stack X l k g) = mask_pc E (stack_pointer X E g + k)"
  using ReadGPR_WriteGPR_widest [OF xed_ok_pairs(2) [OF assms(1)] assms(2)] assms(3)
  by (simp add: stack_pointer_def add_stack_def)

lemma mask_pc_stack_pointer:
  "xed_ok X \<Longrightarrow> addr_ok E \<Longrightarrow> mask_pc E (stack_pointer X E g) = stack_pointer X E g"
  unfolding stack_pointer_def by (rule mask_pc_ReadGPR [OF xed_ok_pairs(2)])

lemma stack_pointer_set_memv [simp]: "stack_pointer X E (set_memv k v g) = stack_pointer X E g"
  by (simp add: stack_pointer_def)

lemma stack_pointer_gXedd [simp]: "stack_pointer X E (g\<lparr>gXedd := d\<rparr>) = stack_pointer X E g"
  by (simp add: stack_pointer_def ReadGPR_def ReadValue_def Let_def)

lemma stack_pointer_WriteGPR:
  assumes "xed_ok X" and "addr_ok E" and "get_largest_enclosing_register X r \<noteq> reg X XED_REG_RSP"
  shows "stack_pointer X E (WriteGPR X r v g) = stack_pointer X E g"
  using widest_pair(3) [OF xed_ok_pairs(2) [OF assms(1)] assms(2)] assms(3)
  by (simp add: stack_pointer_def ReadGPR_WriteGPR_other)

lemma memv_add_stack [simp]: "memv k (add_stack X l n g) = memv k g"
  by (simp add: add_stack_def)

lemma memv_gXedd [simp]: "memv k (g\<lparr>gXedd := d\<rparr>) = memv k g"
  by (simp add: memv_def)

lemma memv_set_memv_other [simp]: "j \<noteq> k \<Longrightarrow> memv j (set_memv k v g) = memv j g"
  by (simp add: memv_def set_memv_def)

lemma gEmu_set_memv [simp]: "gEmu (set_memv k v g) = gEmu g"
  by (simp add: set_memv_def)

lemma gEmu_add_stack [simp]: "gEmu (add_stack X l n g) = gEmu g"
  by (simp add: add_stack_def)

lemma gXedd_add_stack [simp]: "gXedd (add_stack X l n g) = gXedd g"
  by (simp add: add_stack_def)

text \<open>The locals that matter here.\<close>

lemma locals_stack [simp]:
  "stack_reg (emulate_locals X E npc g) = WidestRegister X E (reg X XED_REG_ESP)"
  "addr_size_bytes (emulate_locals X E npc g) = of_nat (addr_size E div 8)"
  "op_size_bytes (emulate_locals X E npc g) = of_nat (effective_operand_width (gEmu g) div 8)"
  "reg0 (emulate_locals X E npc g) = get_reg (gXedd g) XED_OPERAND_REG0"
  "reg1 (emulate_locals X E npc g) = get_reg (gXedd g) XED_OPERAND_REG1"
  "simm0 (emulate_locals X E npc g) = GetSignedImmediate g"
  by (simp_all add: emulate_locals_def Let_def)

section \<open>Calls and returns\<close>

text \<open>The memory slot a near call stores the return address to.\<close>

fun call_slot :: "iform_cfi \<Rightarrow> nat option" where
  "call_slot (XED_IFORM_CALL_NEAR_RELBR b) = (if b = RELBRb then None else Some 0)"
| "call_slot XED_IFORM_CALL_NEAR_GPRv = Some 0"
| "call_slot XED_IFORM_CALL_NEAR_MEMv = Some 1"
| "call_slot _ = None"

lemma Emulate_call:
  assumes "xed_ok X" and "addr_ok E" and "get_iform_enum (gXedd g) = Cfi f" and "call_slot f = Some k"
  shows "\<exists>pc g1. Emulate X H E npc g = (True, pc, kGood, g1) \<and> memv k g1 = mask_pc E npc \<and>
    stack_pointer X E g1 = mask_pc E (stack_pointer X E g - of_nat (addr_size E div 8))"
  using assms(3,4)
  by (cases f) (auto simp: Emulate_def emulate_cfi_def handled_def Let_def
      stack_pointer_add_stack [OF assms(1,2)] split: if_splits)

lemma Emulate_ret:
  assumes "xed_ok X" and "addr_ok E" and "get_iform_enum (gXedd g) = Cfi XED_IFORM_RET_NEAR"
  shows "\<exists>g2. Emulate X H E npc g = (True, memv 0 g, kGood, g2) \<and>
    stack_pointer X E g2 = mask_pc E (stack_pointer X E g + of_nat (addr_size E div 8))"
  using assms(3)
  by (simp add: Emulate_def emulate_cfi_def handled_def Let_def stack_pointer_add_stack [OF assms(1,2)])

text \<open>
  C24: a near call pushes the address of the next instruction one address size below the
  stack pointer, and a near return that finds this value in its memory operand resumes
  exactly there with the stack pointer as before the call.
\<close>

theorem call_then_return:
  assumes "xed_ok X" and "addr_ok E" and "get_iform_enum (gXedd g) = Cfi f" and "call_slot f = Some k"
    and "get_iform_enum d = Cfi XED_IFORM_RET_NEAR"
  shows "case Emulate X H E npc g of (ok1, pc1, st1, g1) \<Rightarrow>
         case Emulate X H E npc' (set_memv 0 (memv k g1) (g1\<lparr>gXedd := d\<rparr>)) of (ok2, pc2, st2, g2) \<Rightarrow>
           ok1 \<and> ok2 \<and> pc2 = mask_pc E npc \<and> stack_pointer X E g2 = stack_pointer X E g \<and>
           stack_pointer X E g1 = mask_pc E (stack_pointer X E g - of_nat (addr_size E div 8))"
proof -
  obtain pc g1 where 1: "Emulate X H E npc g = (True, pc, kGood, g1)" "memv k g1 = mask_pc E npc"
    "stack_pointer X E g1 = mask_pc E (stack_pointer X E g - of_nat (addr_size E div 8))"
    using Emulate_call [OF assms(1-4)] by blast
  let ?g = "set_memv 0 (memv k g1) (g1\<lparr>gXedd := d\<rparr>)"
  have "get_iform_enum (gXedd ?g) = Cfi XED_IFORM_RET_NEAR" by (simp add: assms(5))
  from Emulate_ret [OF assms(1,2) this] obtain g2 where
    2: "Emulate X H E npc' ?g = (True, memv 0 ?g, kGood, g2)"
    "stack_pointer X E g2 = mask_pc E (stack_pointer X E ?g + of_nat (addr_size E div 8))" by blast
  have "stack_pointer X E g2 = stack_pointer X E g"
    using 2(2) 1(3) by (simp add: mask_pc_add mask_pc_stack_pointer [OF assms(1,2)])
  then show ?thesis using 1 2 by simp
qed

definition call_gstate :: gstate where
  "call_gstate = sample_gstate\<lparr>
     gXedd := sample_inst\<lparr>get_iform_enum := Cfi (XED_IFORM_CALL_NEAR_RELBR RELBRd), get_branch_displacement := 16\<rparr>,
     gRegs := (\<lambda>_. 0)(15 := 0x7000)\<rparr>"

theorem call_then_return_witness:
  "xed_ok sample_xed \<and> addr_ok (sample_executor 64) \<and>
   (case Emulate sample_xed sample_host (sample_executor 64) 0x405 call_gstate of (ok1, pc1, st1, g1) \<Rightarrow>
      stack_pointer sample_xed (sample_executor 64) g1 = 0x6FF8)"
proof -
  have h: "addr_ok (sample_executor 64)"
    "get_iform_enum (gXedd call_gstate) = Cfi (XED_IFORM_CALL_NEAR_RELBR RELBRd)"
    "call_slot (XED_IFORM_CALL_NEAR_RELBR RELBRd) = Some 0"
    "get_iform_enum (sample_inst\<lparr>get_iform_enum := Cfi XED_IFORM_RET_NEAR\<rparr>) = Cfi XED_IFORM_RET_NEAR"
    by (simp_all add: addr_ok_def sample_executor_def call_gstate_def)
  have e: "stack_pointer sample_xed (sample_executor 64) call_gstate = 0x7000"
    "addr_size (sample_executor 64) = 64" "\<And>v. mask_pc (sample_executor 64) v = v"
    by (code_simp, code_simp, simp add: mask_pc_def sample_executor_def)
  from call_then_return [OF sample_xed_ok h, where H = sample_host and npc = "0x405"] show ?thesis
    by (simp add: e sample_xed_ok h(1) case_prod_unfold Let_def)
qed

section \<open>Pushes and pops\<close>

lemma Emulate_push:
  assumes "xed_ok X" and "addr_ok E"
    and "get_iform_enum (gXedd g) \<in> {Stk XED_IFORM_PUSH_GPRv_50, Stk XED_IFORM_PUSH_GPRv_FFr6}"
  shows "\<exists>pc g1. Emulate X H E npc g = (True, pc, kGood, g1) \<and> gEmu g1 = gEmu g \<and>
    memv 0 g1 = ReadGPR X (get_reg (gXedd g) XED_OPERAND_REG0) g \<and>
    stack_pointer X E g1 = mask_pc E (stack_pointer X E g - of_nat (effective_operand_width (gEmu g) div 8))"
  using assms(3)
  by (auto simp: Emulate_def emulate_stk_def handled_def Let_def stack_pointer_add_stack [OF assms(1,2)])

lemma Emulate_pop:
  assumes "get_iform_enum (gXedd g) \<in> {Stk XED_IFORM_POP_GPRv_58, Stk XED_IFORM_POP_GPRv_8F}"
  shows "Emulate X H E npc g = (True, mask_pc E npc, kGood,
    add_stack X (emulate_locals X E npc g) (of_nat (effective_operand_width (gEmu g) div 8))
      (WriteGPR X (get_reg (gXedd g) XED_OPERAND_REG0) (memv 0 g) g))"
  using assms
  by (auto simp: Emulate_def emulate_stk_def handled_def Let_def)

text \<open>
  Pushing a register and popping the pushed cell into a register other than the stack
  pointer moves the value, cut to the width of the destination, and restores the stack
  pointer.
\<close>

theorem push_then_pop:
  assumes "xed_ok X" and "addr_ok E"
    and "get_iform_enum (gXedd g) \<in> {Stk XED_IFORM_PUSH_GPRv_50, Stk XED_IFORM_PUSH_GPRv_FFr6}"
    and "get_iform_enum d \<in> {Stk XED_IFORM_POP_GPRv_58, Stk XED_IFORM_POP_GPRv_8F}"
    and "is_gpr X (get_reg d XED_OPERAND_REG0)"
    and "get_largest_enclosing_register X (get_reg d XED_OPERAND_REG0) \<noteq> reg X XED_REG_RSP"
  shows "case Emulate X H E npc g of (ok1, pc1, st1, g1) \<Rightarrow>
         case Emulate X H E npc' (g1\<lparr>gXedd := d\<rparr>) of (ok2, pc2, st2, g2) \<Rightarrow>
           ok1 \<and> ok2 \<and> stack_pointer X E g2 = stack_pointer X E g \<and>
           ReadGPR X (get_reg d XED_OPERAND_REG0) g2 =
             take_bit (get_register_width_bits64 X (get_reg d XED_OPERAND_REG0))
               (ReadGPR X (get_reg (gXedd g) XED_OPERAND_REG0) g)"
proof -
  let ?n = "of_nat (effective_operand_width (gEmu g) div 8) :: u64"
  let ?r = "get_reg d XED_OPERAND_REG0"
  obtain pc g1 where 1: "Emulate X H E npc g = (True, pc, kGood, g1)" "gEmu g1 = gEmu g"
    "memv 0 g1 = ReadGPR X (get_reg (gXedd g) XED_OPERAND_REG0) g"
    "stack_pointer X E g1 = mask_pc E (stack_pointer X E g - ?n)"
    using Emulate_push [OF assms(1-3)] by blast
  let ?l = "emulate_locals X E npc' (g1\<lparr>gXedd := d\<rparr>)"
  let ?g2 = "add_stack X ?l ?n (WriteGPR X ?r (memv 0 g1) (g1\<lparr>gXedd := d\<rparr>))"
  have 2: "Emulate X H E npc' (g1\<lparr>gXedd := d\<rparr>) = (True, mask_pc E npc', kGood, ?g2)"
    using Emulate_pop [of "g1\<lparr>gXedd := d\<rparr>" X H E npc'] assms(4) 1(2) by simp
  have "stack_pointer X E ?g2 = stack_pointer X E g"
    using stack_pointer_WriteGPR [OF assms(1,2,6)] 1(4)
    by (simp add: stack_pointer_add_stack [OF assms(1,2)] mask_pc_add mask_pc_stack_pointer [OF assms(1,2)])
  moreover have "ReadGPR X ?r ?g2 = take_bit (get_register_width_bits64 X ?r) (memv 0 g1)"
    using assms(6) widest_pair(3) [OF xed_ok_pairs(2) [OF assms(1)] assms(2)]
    by (simp add: add_stack_def ReadGPR_WriteGPR_other ReadGPR_WriteGPR_eq [OF assms(5)])
  ultimately show ?thesis using 1 2 by simp
qed

text \<open>
  Popping into the stack pointer itself leaves it at the popped value plus the operand
  size, because the emulation increments the register after the write; the architecture
  increments it before, and leaves the popped value.
\<close>

theorem pop_stack_pointer:
  assumes "xed_ok X" and "addr_ok E"
    and "get_iform_enum (gXedd g) \<in> {Stk XED_IFORM_POP_GPRv_58, Stk XED_IFORM_POP_GPRv_8F}"
    and "get_reg (gXedd g) XED_OPERAND_REG0 = WidestRegister X E (reg X XED_REG_ESP)"
  shows "case Emulate X H E npc g of (ok, pc, st, g') \<Rightarrow> ok \<and>
    stack_pointer X E g' = mask_pc E (memv 0 g + of_nat (effective_operand_width (gEmu g) div 8))"
proof -
  have "stack_pointer X E (WriteGPR X (get_reg (gXedd g) XED_OPERAND_REG0) (memv 0 g) g) = mask_pc E (memv 0 g)"
    using ReadGPR_WriteGPR_widest [OF xed_ok_pairs(2) [OF assms(1)] assms(2)] assms(4)
    by (simp add: stack_pointer_def)
  then show ?thesis
    by (simp add: Emulate_pop [OF assms(3)] stack_pointer_add_stack [OF assms(1,2)] mask_pc_add)
qed

definition push_gstate :: gstate where
  "push_gstate = sample_gstate\<lparr>
     gXedd := sample_inst\<lparr>get_iform_enum := Stk XED_IFORM_PUSH_GPRv_50, get_reg := (\<lambda>_. 12)\<rparr>,
     gRegs := (\<lambda>_. 0)(15 := 0x7000, 12 := 5)\<rparr>"

definition pop_inst :: "xed_reg \<Rightarrow> xed_decoded_inst" where
  "pop_inst r = sample_inst\<lparr>get_iform_enum := Stk XED_IFORM_POP_GPRv_58, get_reg := (\<lambda>_. r)\<rparr>"

theorem push_then_pop_witness:
  "xed_ok sample_xed \<and> addr_ok (sample_executor 64) \<and>
   (case Emulate sample_xed sample_host (sample_executor 64) 1 push_gstate of (ok1, pc1, st1, g1) \<Rightarrow>
    case Emulate sample_xed sample_host (sample_executor 64) 2 (g1\<lparr>gXedd := pop_inst 11\<rparr>) of (ok2, pc2, st2, g2) \<Rightarrow>
      ReadGPR sample_xed 11 g2 = 5)"
proof -
  have h: "addr_ok (sample_executor 64)"
    "get_iform_enum (gXedd push_gstate) \<in> {Stk XED_IFORM_PUSH_GPRv_50, Stk XED_IFORM_PUSH_GPRv_FFr6}"
    "get_iform_enum (pop_inst 11) \<in> {Stk XED_IFORM_POP_GPRv_58, Stk XED_IFORM_POP_GPRv_8F}"
    "is_gpr sample_xed (get_reg (pop_inst 11) XED_OPERAND_REG0)"
    "get_largest_enclosing_register sample_xed (get_reg (pop_inst 11) XED_OPERAND_REG0) \<noteq> reg sample_xed XED_REG_RSP"
    by (simp_all add: addr_ok_def sample_executor_def push_gstate_def pop_inst_def is_gpr_def
        is_gpr8h_def sample_xed_simps)
  have e: "get_reg (pop_inst 11) XED_OPERAND_REG0 = 11" "get_register_width_bits64 sample_xed 11 = 64"
    "ReadGPR sample_xed (get_reg (gXedd push_gstate) XED_OPERAND_REG0) push_gstate = 5"
    by (simp add: pop_inst_def, code_simp, code_simp)
  from push_then_pop [OF sample_xed_ok h, where H = sample_host and npc = 1 and npc' = 2] show ?thesis
    by (simp add: e sample_xed_ok h(1) case_prod_unfold Let_def)
qed

definition pop_sp_gstate :: gstate where
  "pop_sp_gstate = set_memv 0 0x9000 (sample_gstate\<lparr>gXedd := pop_inst 15\<rparr>)"

theorem pop_stack_pointer_witness:
  "xed_ok sample_xed \<and> addr_ok (sample_executor 64) \<and>
   (case Emulate sample_xed sample_host (sample_executor 64) 1 pop_sp_gstate of (ok, pc, st, g') \<Rightarrow>
      stack_pointer sample_xed (sample_executor 64) g' = 0x9008)"
proof -
  have h: "addr_ok (sample_executor 64)"
    "get_iform_enum (gXedd pop_sp_gstate) \<in> {Stk XED_IFORM_POP_GPRv_58, Stk XED_IFORM_POP_GPRv_8F}"
    "get_reg (gXedd pop_sp_gstate) XED_OPERAND_REG0 = WidestRegister sample_xed (sample_executor 64) (reg sample_xed XED_REG_ESP)"
    by (simp_all add: addr_ok_def pop_sp_gstate_def pop_inst_def WidestRegister_def sample_simps)
  have e: "memv 0 pop_sp_gstate = 0x9000" "effective_operand_width (gEmu pop_sp_gstate) = 64"
    "\<And>v. mask_pc (sample_executor 64) v = v"
    by (simp_all add: pop_sp_gstate_def sample_gstate_def sample_emu_def mask_pc_def sample_executor_def)
  from pop_stack_pointer [OF sample_xed_ok h, where H = sample_host and npc = 1] show ?thesis
    by (simp add: e sample_xed_ok h(1) case_prod_unfold)
qed

section \<open>LEAVE\<close>

text \<open>
  LEAVE (RSP as its second, RBP as its first register) loads the frame pointer from
  memory and sets the stack pointer to the old frame pointer, without adding the operand
  size of the cell it popped, which the architecture does.
\<close>

theorem leave_stack_pointer:
  assumes "xed_ok X" and "addr_ok E" and "get_iform_enum (gXedd g) = Stk XED_IFORM_LEAVE"
    and "get_reg (gXedd g) XED_OPERAND_REG1 = WidestRegister X E (reg X XED_REG_ESP)"
    and "get_reg (gXedd g) XED_OPERAND_REG0 = r" and "is_gpr X r"
    and "get_largest_enclosing_register X r \<noteq> reg X XED_REG_RSP"
  shows "case Emulate X H E npc g of (ok, pc, st, g') \<Rightarrow> ok \<and> pc = mask_pc E npc \<and>
    stack_pointer X E g' = mask_pc E (ReadGPR X r g) \<and>
    ReadGPR X r g' = take_bit (get_register_width_bits64 X r) (memv 0 g)"
  using assms(3-5) ReadGPR_WriteGPR_widest [OF xed_ok_pairs(2) [OF assms(1)] assms(2)]
  by (simp add: Emulate_def emulate_stk_def handled_def Let_def stack_pointer_WriteGPR [OF assms(1,2,7)]
      ReadGPR_WriteGPR_eq [OF assms(6)])
    (simp add: stack_pointer_def)

definition leave_gstate :: gstate where
  "leave_gstate = set_memv 0 0x8000 (sample_gstate\<lparr>gXedd := sample_inst
     \<lparr>get_iform_enum := Stk XED_IFORM_LEAVE, get_reg := (\<lambda>_. 15)(XED_OPERAND_REG0 := 16)\<rparr>,
     gRegs := (\<lambda>_. 0)(15 := 0x6000, 16 := 0x7000)\<rparr>)"

theorem leave_stack_pointer_witness:
  "xed_ok sample_xed \<and> addr_ok (sample_executor 64) \<and>
   (case Emulate sample_xed sample_host (sample_executor 64) 1 leave_gstate of (ok, pc, st, g') \<Rightarrow>
      stack_pointer sample_xed (sample_executor 64) g' = 0x7000 \<and> ReadGPR sample_xed 16 g' = 0x8000)"
proof -
  have h: "addr_ok (sample_executor 64)" "get_iform_enum (gXedd leave_gstate) = Stk XED_IFORM_LEAVE"
    "get_reg (gXedd leave_gstate) XED_OPERAND_REG1 = WidestRegister sample_xed (sample_executor 64) (reg sample_xed XED_REG_ESP)"
    "get_reg (gXedd leave_gstate) XED_OPERAND_REG0 = 16" "is_gpr sample_xed 16"
    "get_largest_enclosing_register sample_xed 16 \<noteq> reg sample_xed XED_REG_RSP"
    by (simp_all add: addr_ok_def leave_gstate_def WidestRegister_def is_gpr_def is_gpr8h_def sample_simps)
  have e: "ReadGPR sample_xed 16 leave_gstate = 0x7000" "get_register_width_bits64 sample_xed 16 = 64"
    "memv 0 leave_gstate = 0x8000" "\<And>v. mask_pc (sample_executor 64) v = v"
    by (code_simp, code_simp, code_simp, simp add: mask_pc_def sample_executor_def)
  from leave_stack_pointer [OF sample_xed_ok h, where H = sample_host and npc = 1] show ?thesis
    by (simp add: e sample_xed_ok h(1) case_prod_unfold)
qed

section \<open>Immediate pushes\<close>

text \<open>
  With a 64-bit operand size an immediate is pushed with its upper 32 bits cleared
  instead of sign-extended: the pushed cell is the immediate exactly when it is not
  negative.
\<close>

theorem push_immediate:
  assumes "get_iform_enum (gXedd g) \<in> {Stk XED_IFORM_PUSH_IMMz, Stk XED_IFORM_PUSH_IMMb}"
    and "effective_operand_width (gEmu g) = 64"
    and "get_signed_immediate (gXedd g) = i" and "- (2 ^ 31) \<le> i" and "i < 2 ^ 31"
  shows "case Emulate X H E npc g of (ok, pc, st, g') \<Rightarrow>
    ok \<and> memv 0 g' = take_bit 32 (word_of_int i) \<and> (memv 0 g' = word_of_int i \<longleftrightarrow> 0 \<le> i)"
proof -
  have "take_bit 32 (word_of_int i :: u64) = word_of_int i \<longleftrightarrow> 0 \<le> i"
  proof
    assume eq: "take_bit 32 (word_of_int i :: u64) = word_of_int i"
    show "0 \<le> i"
    proof (rule ccontr)
      assume "\<not> 0 \<le> i"
      then have "i div 2 ^ 63 = - 1" using assms(4) by (simp; presburger)
      then have "bit i 63" by (simp add: bit_iff_odd)
      then have "bit (word_of_int i :: u64) 63" by (simp add: bit_word_of_int_iff)
      moreover have "\<not> bit (take_bit 32 (word_of_int i :: u64)) 63" by (simp add: bit_take_bit_iff)
      ultimately show False using eq by simp
    qed
  next
    assume "0 \<le> i"
    then have "take_bit 32 i = i" using assms(5) by (simp add: take_bit_int_eq_self)
    then show "take_bit 32 (word_of_int i :: u64) = word_of_int i"
      by (metis of_int_take_bit)
  qed
  moreover have "GetSignedImmediate g = word_of_int i"
    using assms(2,3) by (simp add: GetSignedImmediate_def)
  ultimately show ?thesis
    using assms(1) by (auto simp: Emulate_def emulate_stk_def handled_def Let_def ucast_u32_u64)
qed

definition push_imm_gstate :: gstate where
  "push_imm_gstate = sample_gstate\<lparr>gXedd := sample_inst
     \<lparr>get_iform_enum := Stk XED_IFORM_PUSH_IMMb, get_signed_immediate := - 1\<rparr>\<rparr>"

theorem push_immediate_witness:
  "case Emulate sample_xed sample_host (sample_executor 64) 2 push_imm_gstate of (ok, pc, st, g') \<Rightarrow>
     ok \<and> memv 0 g' = 0xFFFFFFFF"
proof -
  have h: "get_iform_enum (gXedd push_imm_gstate) \<in> {Stk XED_IFORM_PUSH_IMMz, Stk XED_IFORM_PUSH_IMMb}"
    "effective_operand_width (gEmu push_imm_gstate) = 64" "get_signed_immediate (gXedd push_imm_gstate) = - 1"
    "- (2 ^ 31) \<le> (- 1 :: int)" "(- 1 :: int) < 2 ^ 31"
    by (simp_all add: push_imm_gstate_def sample_gstate_def sample_emu_def)
  have "take_bit 32 (word_of_int (- 1) :: u64) = 0xFFFFFFFF" by code_simp
  with push_immediate [OF h, where X = sample_xed and H = sample_host and E = "sample_executor 64" and npc = 2]
  show ?thesis by (simp add: case_prod_unfold)
qed

section \<open>String moves\<close>

text \<open>
  A string move copies the cell at the source to the destination and moves both
  pointers by the operand size, up or down by the direction flag, modulo the address size;
  both are marked as modified, and the flags keep their values.
\<close>

theorem movs_effect:
  assumes "xed_ok X" and "addr_ok E" and "get_iform_enum (gXedd g) = Str (XED_IFORM_MOVS sz)"
  shows "let si = WidestRegister X E (reg X XED_REG_ESI); di = WidestRegister X E (reg X XED_REG_EDI);
             n = of_nat (effective_operand_width (gEmu g) div 8);
             d = (if flag ''df'' (aflag X g) then - n else n);
             (ok, pc, st, g') = Emulate X H E npc g
    in ok \<and> pc = mask_pc E npc \<and> memv 0 g' = memv 1 g \<and>
       ReadGPR X si g' = mask_pc E (ReadGPR X si g + d) \<and>
       ReadGPR X di g' = mask_pc E (ReadGPR X di g + d) \<and>
       {si, di} \<subseteq> gModifiedRegs g' \<and> aflag X g' = aflag X g"
proof -
  define l where "l = emulate_locals X E npc g"
  define si where "si = WidestRegister X E (reg X XED_REG_ESI)"
  define di where "di = WidestRegister X E (reg X XED_REG_EDI)"
  define n where "n = (of_nat (effective_operand_width (gEmu g) div 8) :: u64)"
  define d where "d = (if flag ''df'' (aflag X g) then - n else n)"
  note big = widest_pair(3) [OF xed_ok_pairs(5) [OF assms(1)] assms(2), folded si_def]
    widest_pair(3) [OF xed_ok_pairs(6) [OF assms(1)] assms(2), folded di_def]
  note self = ReadGPR_WriteGPR_widest [OF xed_ok_pairs(5) [OF assms(1)] assms(2), folded si_def]
    ReadGPR_WriteGPR_widest [OF xed_ok_pairs(6) [OF assms(1)] assms(2), folded di_def]
  have l: "src_reg l = si" "dest_reg l = di" "stringop_inc l = d" "next_pc l = mask_pc E npc"
    by (simp_all add: l_def) (simp_all add: emulate_locals_def si_def di_def d_def n_def Let_def)
  have m: "Emulate X H E npc g = (True, mask_pc E npc, kGood, MOVS X l g)"
    using assms(3) l by (simp add: Emulate_def emulate_str_def handled_def l_def Let_def)
  have adv: "gModifiedRegs (advance X l r h) = insert r (gModifiedRegs h)"
    "gRegs (advance X l r h) = gRegs (WriteGPR X r (ReadGPR X r h + d) h)"
    "gMemory (advance X l r h) = gMemory h" for r h
    by (simp_all add: advance_def l Let_def) (simp add: WriteGPR_def WriteValue_def Let_def)
  have R: "ReadGPR X r (advance X l r h) = ReadGPR X r (WriteGPR X r (ReadGPR X r h + d) h)" for r h
    by (simp add: advance_def l Let_def)
  have f: "r \<in> {si, di} \<Longrightarrow> aflag X (advance X l r h) = aflag X h" for r h
    using aflag_WriteGPR [of X r] big xed_ok_distinct(2,3) [OF assms(1)] by (auto simp: aflag_def adv)
  show ?thesis
    unfolding si_def [symmetric] di_def [symmetric] n_def [symmetric] d_def [symmetric] m Let_def
    using big xed_ok_distinct(4) [OF assms(1)] f
    by (simp add: MOVS_def l adv R ReadGPR_advance_other self)
      (simp add: memv_def set_memv_def adv aflag_def get_put_bits)
qed

definition movs_gstate :: gstate where
  "movs_gstate = set_memv 1 0x41 (sample_gstate
     \<lparr>gXedd := sample_inst\<lparr>get_iform_enum := Str (XED_IFORM_MOVS StrQ)\<rparr>,
      gRegs := (\<lambda>_. 0)(6 := 0x400, 17 := 0x5000, 18 := 4)\<rparr>)"

theorem movs_effect_witness:
  "xed_ok sample_xed \<and> addr_ok (sample_executor 64) \<and>
   (case Emulate sample_xed sample_host (sample_executor 64) 2 movs_gstate of (ok, pc, st, g') \<Rightarrow>
      memv 0 g' = 0x41 \<and> ReadGPR sample_xed 17 g' = 0x4FF8 \<and> ReadGPR sample_xed 18 g' = - 4)"
proof -
  have h: "addr_ok (sample_executor 64)" "get_iform_enum (gXedd movs_gstate) = Str (XED_IFORM_MOVS StrQ)"
    by (simp_all add: addr_ok_def sample_executor_def movs_gstate_def)
  have e: "WidestRegister sample_xed (sample_executor 64) (reg sample_xed XED_REG_ESI) = 17"
    "WidestRegister sample_xed (sample_executor 64) (reg sample_xed XED_REG_EDI) = 18"
    "flag ''df'' (aflag sample_xed movs_gstate)" "effective_operand_width (gEmu movs_gstate) = 64"
    "memv 1 movs_gstate = 0x41" "ReadGPR sample_xed 17 movs_gstate = 0x5000"
    "ReadGPR sample_xed 18 movs_gstate = 4" "\<And>v. mask_pc (sample_executor 64) v = v"
    by (code_simp, code_simp, code_simp, code_simp, code_simp, code_simp, code_simp,
        simp add: mask_pc_def sample_executor_def)
  from movs_effect [OF sample_xed_ok h, where H = sample_host and npc = 2] show ?thesis
    by (simp add: e e [unfolded One_nat_def] sample_xed_ok h(1) case_prod_unfold Let_def)
qed

end
