(* ===== verification/EncodeProps.thy ===== *)
theory EncodeProps
  imports StackProps
begin

text \<open>
  Properties of the re-encoding: the executable page and its address, the return after the
  instruction, the memory operand redirected to \<open>gMemory[0].data\<close>, the null pointer of a
  suppressed memory operand, the alias of the stack pointer, and the MMX registers inside
  the FPU image.
\<close>

section \<open>The executable page\<close>

lemma and_not_mask: "w AND NOT (mask n) = w - take_bit n w" for w :: u64
proof -
  have "w AND NOT (mask n) = push_bit n (drop_bit n w)"
    by (rule bit_word_eqI) (auto simp: bit_simps dest: bit_imp_le_length)
  then show ?thesis using bits_ident [of n w] by (simp add: eq_diff_eq)
qed

text \<open>
  The executable page lies inside the two pages of \<open>gExecArea_\<close> and starts at a page
  boundary, wherever the linker has put the array.
\<close>

theorem exec_area_inside:
  assumes "unat (exec_area_storage H) + 2 * 4096 \<le> 2 ^ 64"
  shows "unat (exec_area_address H) mod 4096 = 0 \<and>
    unat (exec_area_storage H) \<le> unat (exec_area_address H) \<and>
    unat (exec_area_address H) + 4096 \<le> unat (exec_area_storage H) + 2 * 4096"
proof -
  define s where "s = unat (exec_area_storage H)"
  have m: "kPageSize - 1 = mask 12" by (simp add: kPageSize_def mask_eq_exp_minus_1)
  have sum: "unat (exec_area_storage H + kPageSize - 1) = s + 4095"
  proof -
    have "exec_area_storage H + kPageSize - 1 = exec_area_storage H + 4095" by (simp add: kPageSize_def)
    moreover have "unat (exec_area_storage H + 4095) = s + 4095"
      using unat_add_lem [of "exec_area_storage H" 4095, THEN iffD1] assms by (simp add: s_def)
    ultimately show ?thesis by (simp add: kPageSize_def add.commute)
  qed
  have t: "unat (take_bit 12 w) = unat w mod 4096" for w :: u64
    by (simp add: unsigned_take_bit_eq) (simp add: take_bit_nat_def)
  have "take_bit 12 w \<le> w" for w :: u64 by (simp add: word_le_nat_alt t)
  then have "unat (exec_area_address H) = (s + 4095) - (s + 4095) mod 4096"
    by (simp add: exec_area_address_def m and_not_mask unat_sub t sum)
  then obtain q where q: "unat (exec_area_address H) = q * 4096" "q = (s + 4095) div 4096"
    by (simp only: minus_mod_eq_div_mult)
  have "s \<le> q * 4096" "q * 4096 \<le> s + 4095"
    using div_mult_mod_eq [of "s + 4095" 4096] mod_less_divisor [of 4096 "s + 4095"] q(2)
    by linarith+
  then show ?thesis
    unfolding q(1) s_def [symmetric] by (intro conjI) (simp, assumption, linarith)
qed

theorem exec_area_inside_witness:
  "unat (exec_area_storage sample_host) + 2 * 4096 \<le> 2 ^ 64 \<and>
   unat (exec_area_address sample_host) + 4096 \<le> 0x2010 + 2 * 4096"
proof -
  have h: "unat (exec_area_storage sample_host) + 2 * 4096 \<le> 2 ^ 64"
    by (simp add: sample_host_def)
  from exec_area_inside [OF h] h show ?thesis by (simp add: sample_host_def)
qed

section \<open>The encoded instruction\<close>

text \<open>What the code relies on of XED's encoder: an instruction has at most 15 bytes, and
  their number does not depend on the value of a displacement.\<close>

definition encoder_ok :: "xed \<Rightarrow> bool" where
  "encoder_ok X \<longleftrightarrow>
     (\<forall>e bs. xed_encode X e = Some bs \<longrightarrow> length bs \<le> 15) \<and>
     (\<forall>e i v bs bs'. xed_encode X e = Some bs \<longrightarrow>
        xed_encode X (e\<lparr>operands := (operands e)(i := (operands e i)\<lparr>u_mem_displacement := v\<rparr>)\<rparr>) = Some bs' \<longrightarrow>
        length bs' = length bs)"

lemma EncodeRequest_Some:
  "EncodeRequest X g = (True, g') \<Longrightarrow>
   \<exists>bs. xed_encode X (gEmu g) = Some bs \<and> g' = g\<lparr>gExecArea := overwrite bs (gExecArea g), gEmuSize := length bs\<rparr>"
  by (auto simp: EncodeRequest_def split: if_splits option.splits)

lemma take_overwrite:
  "length bs \<le> n \<Longrightarrow> take n (overwrite bs area) = bs @ drop (length bs) (take n area)"
  by (simp add: overwrite_def drop_take)

lemma length_overwrite: "length bs \<le> length area \<Longrightarrow> length (overwrite bs area) = length area"
  by (simp add: overwrite_def)

lemma update_operand_simps [simp]:
  "gXedd (update_operand i f g) = gXedd g" "gMemory (update_operand i f g) = gMemory g"
  "gExecArea (update_operand i f g) = gExecArea g" "gEmuSize (update_operand i f g) = gEmuSize g"
  "gRegs (update_operand i f g) = gRegs g" "gStoreRegs (update_operand i f g) = gStoreRegs g"
  "gStackPtrAlias (update_operand i f g) = gStackPtrAlias g"
  "gEmu (update_operand i f g) = (gEmu g)\<lparr>operands := (operands (gEmu g))(i := f (operands (gEmu g) i))\<rparr>"
  by (simp_all add: update_operand_def)

lemma gExecArea_WriteGPR [simp]: "gExecArea (WriteGPR X r v g) = gExecArea g"
  by (simp add: WriteGPR_def WriteValue_def Let_def)

lemma GetStackPointerAlias_same:
  "gExecArea (snd (GetStackPointerAlias X r g)) = gExecArea g"
  "gMemory (snd (GetStackPointerAlias X r g)) = gMemory g"
  "gXedd (snd (GetStackPointerAlias X r g)) = gXedd g"
  by (simp_all add: GetStackPointerAlias_def Let_def)

text \<open>Decoding an operand touches neither the page nor the instruction, and of the memory
  slots only the pointer of the first one, which it sets for a \<open>MEM0\<close> operand.\<close>

lemma DecodeRegN_same:
  "gExecArea (DecodeRegN X i r g) = gExecArea g" "gXedd (DecodeRegN X i r g) = gXedd g"
  "gMemory (DecodeRegN X i r g) = gMemory g"
  using GetStackPointerAlias_same [of X r g]
  by (cases "GetStackPointerAlias X r g"; simp add: DecodeRegN_def)+

lemma DecodeMem0_same:
  "gExecArea (DecodeMem0 X i g) = gExecArea g" "gXedd (DecodeMem0 X i g) = gXedd g"
  "present (gMemory (DecodeMem0 X i g) k) = present (gMemory g k)"
  "mem_op (gMemory (DecodeMem0 X i g) 0) = Some i"
  by (simp_all add: DecodeMem0_def Let_def)

lemma EncodeOperand_same:
  "gExecArea (EncodeOperand X name g) = gExecArea g" "gXedd (EncodeOperand X name g) = gXedd g"
  "present (gMemory (EncodeOperand X name g) k) = present (gMemory g k)"
  "name \<noteq> XED_OPERAND_MEM0 \<Longrightarrow> gMemory (EncodeOperand X name g) = gMemory g"
  by (simp_all add: EncodeOperand_def DecodeMem0_same DecodeRegN_same DecodeImm0_def DecodeImm1_def Let_def)

lemma CreateEncodable_same:
  "gExecArea (CreateEncodableInstruction X g) = gExecArea g"
  "present (gMemory (CreateEncodableInstruction X g) k) = present (gMemory g k)"
proof -
  have "gExecArea (fold (\<lambda>xedo g. if is_encoded xedo then EncodeOperand X (operand_name xedo) g else g) ops g) = gExecArea g \<and>
    present (gMemory (fold (\<lambda>xedo g. if is_encoded xedo then EncodeOperand X (operand_name xedo) g else g) ops g) k) = present (gMemory g k)" for ops
    by (induction ops arbitrary: g) (simp_all add: EncodeOperand_same)
  then show "gExecArea (CreateEncodableInstruction X g) = gExecArea g"
    "present (gMemory (CreateEncodableInstruction X g) k) = present (gMemory g k)"
    by (simp_all add: CreateEncodableInstruction_def)
qed

text \<open>The request is encoded once, and a second time with the displacement of the first
  memory slot; the second encoding has the length of the first one and takes its place.\<close>

lemma overwrite_twice:
  "length bs' = length bs \<Longrightarrow> overwrite bs' (overwrite bs area) = overwrite bs' area"
  by (simp add: overwrite_def)

lemma EncodeInstruction_result:
  assumes "EncodeInstruction X H g = Some (True, g')" and "encoder_ok X"
  obtains bs where "xed_encode X (gEmu g') = Some bs" and "length bs \<le> 15" and "gEmuSize g' = length bs"
    and "gExecArea g' = overwrite bs (overwrite (replicate 32 0xC3) (gExecArea g))"
    and "present (gMemory g' 0) \<Longrightarrow> \<exists>op. mem_op (gMemory g' 0) = Some op \<and>
       exec_area_address H + of_nat (length bs) + u_mem_displacement (operands (gEmu g') op) = mem0_data_address H"
proof -
  define g0 where "g0 = CreateEncodableInstruction X g"
  define area where "area = overwrite (replicate 32 0xC3) (gExecArea g0)"
  have a: "area = overwrite (replicate 32 0xC3) (gExecArea g)"
    by (simp add: area_def g0_def CreateEncodable_same)
  obtain bs where 1: "xed_encode X (gEmu g0) = Some bs"
    and g1: "EncodeRequest X (g0\<lparr>gExecArea := area\<rparr>) =
      (True, g0\<lparr>gExecArea := overwrite bs area, gEmuSize := length bs\<rparr>)"
    using assms(1) EncodeRequest_Some [of X "g0\<lparr>gExecArea := area\<rparr>"]
    by (cases "EncodeRequest X (g0\<lparr>gExecArea := area\<rparr>)")
      (fastforce simp: EncodeInstruction_def g0_def area_def Let_def split: if_splits)
  have len: "length bs \<le> 15" using 1 assms(2) by (auto simp: encoder_ok_def)
  show thesis
  proof (cases "present (gMemory g0 0)")
    case False
    then have "g' = g0\<lparr>gExecArea := overwrite bs area, gEmuSize := length bs\<rparr>"
      using assms(1) g1 by (simp add: EncodeInstruction_def g0_def area_def Let_def)
    with False 1 len a show thesis by (intro that) simp_all
  next
    case True
    then obtain op where op: "mem_op (gMemory g0 0) = Some op"
      using assms(1) g1 by (auto simp: EncodeInstruction_def g0_def area_def Let_def split: option.splits)
    define v where "v = mem0_data_address H - (exec_area_address H + of_nat (length bs))"
    define g2 where "g2 = update_operand op (\<lambda>x. x\<lparr>u_mem_displacement := v\<rparr>)
      (g0\<lparr>gExecArea := overwrite bs area, gEmuSize := length bs\<rparr>)"
    have "EncodeRequest X g2 = (True, g')"
      using assms(1) g1 True op by (simp add: EncodeInstruction_def g0_def area_def g2_def v_def Let_def)
    from EncodeRequest_Some [OF this] obtain bs' where 2: "xed_encode X (gEmu g2) = Some bs'"
      "g' = g2\<lparr>gExecArea := overwrite bs' (gExecArea g2), gEmuSize := length bs'\<rparr>" by blast
    have l: "length bs' = length bs"
      using 2(1) 1 assms(2) unfolding encoder_ok_def g2_def by (simp; blast)
    show thesis
      using 2 op l len by (intro that [of bs']) (simp_all add: g2_def v_def overwrite_twice a)
  qed
qed

text \<open>
  C19: when an instruction has been encoded, the executable page starts with its bytes, a
  return follows them, and the displacement of its memory operand (if it has one), added
  to the address of the next instruction, is the address of the data of the first memory
  slot.
\<close>

theorem EncodeInstruction_page:
  assumes "EncodeInstruction X H g = Some (True, g')" and "encoder_ok X" and "32 \<le> length (gExecArea g)"
  shows "\<exists>bs. xed_encode X (gEmu g') = Some bs \<and> gEmuSize g' = length bs \<and>
    take 32 (gExecArea g') = bs @ replicate (32 - length bs) 0xC3 \<and>
    gExecArea g' ! gEmuSize g' = 0xC3 \<and>
    (present (gMemory g' 0) \<longrightarrow> (\<exists>op. mem_op (gMemory g' 0) = Some op \<and>
       exec_area_address H + of_nat (gEmuSize g') + u_mem_displacement (operands (gEmu g') op) =
         mem0_data_address H))"
proof -
  obtain bs where r: "xed_encode X (gEmu g') = Some bs" "length bs \<le> 15" "gEmuSize g' = length bs"
    "gExecArea g' = overwrite bs (overwrite (replicate 32 0xC3) (gExecArea g))"
    "present (gMemory g' 0) \<Longrightarrow> \<exists>op. mem_op (gMemory g' 0) = Some op \<and>
       exec_area_address H + of_nat (length bs) + u_mem_displacement (operands (gEmu g') op) = mem0_data_address H"
    by (rule EncodeInstruction_result [OF assms(1,2)], rule that)
  have page: "take 32 (gExecArea g') = bs @ replicate (32 - length bs) 0xC3"
    using r(2,4) by (simp add: take_overwrite overwrite_def)
  have "gExecArea g' ! length bs = take 32 (gExecArea g') ! length bs" using r(2) by simp
  also have "\<dots> = 0xC3" using r(2) by (simp add: page nth_append)
  finally show ?thesis using r page by simp
qed

section \<open>Memory operands that are not encoded\<close>

definition encodes_mem0 :: "xed_inst_operand list \<Rightarrow> bool" where
  "encodes_mem0 ops \<longleftrightarrow> (\<exists>xedo \<in> set ops. is_encoded xedo \<and> operand_name xedo = XED_OPERAND_MEM0)"

lemma CreateEncodable_mem_op:
  "\<not> encodes_mem0 (get_operands (gXedd g)) \<Longrightarrow> gMemory (CreateEncodableInstruction X g) = gMemory g"
proof -
  have "\<not> encodes_mem0 ops \<Longrightarrow> gMemory (fold (\<lambda>xedo g. if is_encoded xedo then
      EncodeOperand X (operand_name xedo) g else g) ops g) = gMemory g" for ops
    by (induction ops arbitrary: g) (auto simp: encodes_mem0_def EncodeOperand_same)
  then show "\<not> encodes_mem0 (get_operands (gXedd g)) \<Longrightarrow> ?thesis"
    by (simp add: CreateEncodableInstruction_def)
qed

text \<open>
  An instruction whose memory operand is suppressed (as that of MASKMOVQ is) has a
  present first slot but no operand in the request; if no earlier instruction has set the
  pointer, \<open>EncodeInstruction\<close> writes through the null pointer.
\<close>

theorem EncodeInstruction_null:
  assumes "present (gMemory g 0)" and "mem_op (gMemory g 0) = None"
    and "\<not> encodes_mem0 (get_operands (gXedd g))"
    and "\<And>e. convert_to_encoder_request X e \<and> xed_encode X e \<noteq> None"
  shows "EncodeInstruction X H g = None"
proof -
  let ?g = "CreateEncodableInstruction X g"
  let ?h = "?g\<lparr>gExecArea := overwrite (replicate 32 0xC3) (gExecArea ?g)\<rparr>"
  obtain ok g1 where e: "EncodeRequest X ?h = (ok, g1)" by (cases "EncodeRequest X ?h")
  obtain bs where "xed_encode X (gEmu ?h) = Some bs" "convert_to_encoder_request X (gEmu ?h)"
    using assms(4) [of "gEmu ?h"] by auto
  with e have "ok" "gMemory g1 = gMemory ?h"
    by (auto simp: EncodeRequest_def)
  then show ?thesis
    using e assms(1,2) CreateEncodable_mem_op [OF assms(3), of X]
    by (simp add: EncodeInstruction_def Let_def)
qed

text \<open>An instruction that is encoded as NOP, with a MEM0 operand, explicit or suppressed.\<close>

definition mem0_gstate :: "xed_opvis \<Rightarrow> gstate" where
  "mem0_gstate vis = sample_gstate\<lparr>
     gXedd := sample_inst\<lparr>get_operands := [mem_operand\<lparr>operand_visibility := vis\<rparr>]\<rparr>,
     gExecArea := replicate 32 0, gMemory := (\<lambda>_. sample_memory\<lparr>present := True\<rparr>)\<rparr>"

lemma sample_encoder_ok: "encoder_ok sample_xed"
  by (auto simp: encoder_ok_def sample_xed_def)

theorem EncodeInstruction_page_witness:
  "\<exists>g'. EncodeInstruction sample_xed sample_host (mem0_gstate XED_OPVIS_EXPLICIT) = Some (True, g') \<and>
     take 3 (gExecArea g') = [0x90, 0xC3, 0xC3] \<and>
     (\<exists>op. exec_area_address sample_host + 1 + u_mem_displacement (operands (gEmu g') op) = 0x5000)"
proof -
  let ?r = "EncodeInstruction sample_xed sample_host (mem0_gstate XED_OPVIS_EXPLICIT)"
  obtain g' where g': "?r = Some (True, g')"
  proof -
    have "map_option fst ?r = Some True" by code_simp
    then show ?thesis using that by (cases ?r) auto
  qed
  have "32 \<le> length (gExecArea (mem0_gstate XED_OPVIS_EXPLICIT))" by (simp add: mem0_gstate_def)
  note page = EncodeInstruction_page [OF g' sample_encoder_ok this]
  have enc: "xed_encode sample_xed e = Some [0x90]" for e by (simp add: sample_xed_def)
  from page have area: "take 32 (gExecArea g') = 0x90 # replicate 31 0xC3"
    by (auto simp: enc)
  have "take 3 (gExecArea g') = take 3 (take 32 (gExecArea g'))" by simp
  also have "\<dots> = [0x90, 0xC3, 0xC3]" unfolding area by code_simp
  finally have three: "take 3 (gExecArea g') = [0x90, 0xC3, 0xC3]" .
  have "map_option (\<lambda>(ok, g). present (gMemory g 0)) ?r = Some True" by code_simp
  then have "present (gMemory g' 0)" using g' by simp
  with page obtain op where "exec_area_address sample_host + 1 + u_mem_displacement (operands (gEmu g') op) =
      mem0_data_address sample_host" by (auto simp: enc)
  moreover have "mem0_data_address sample_host = 0x5000" by (simp add: sample_host_def)
  ultimately show ?thesis using g' three by auto
qed

theorem EncodeInstruction_null_witness:
  "EncodeInstruction sample_xed sample_host (mem0_gstate XED_OPVIS_SUPPRESSED) = None"
proof -
  have h: "present (gMemory (mem0_gstate XED_OPVIS_SUPPRESSED) 0)"
    "mem_op (gMemory (mem0_gstate XED_OPVIS_SUPPRESSED) 0) = None"
    "\<not> encodes_mem0 (get_operands (gXedd (mem0_gstate XED_OPVIS_SUPPRESSED)))"
    "\<And>e. convert_to_encoder_request sample_xed e \<and> xed_encode sample_xed e \<noteq> None"
    by (simp_all add: mem0_gstate_def sample_memory_def encodes_mem0_def is_encoded_def sample_xed_def)
  from EncodeInstruction_null [OF h] show ?thesis .
qed

section \<open>The alias of the stack pointer\<close>

definition alias_names :: "xed_reg_name list" where
  "alias_names = [XED_REG_RAX, XED_REG_RCX, XED_REG_RDX, XED_REG_RBX]"

text \<open>The four candidates and RSP are 64-bit registers of their own.\<close>

definition alias_regs_ok :: "xed \<Rightarrow> bool" where
  "alias_regs_ok X \<longleftrightarrow>
     (\<forall>n \<in> set (XED_REG_RSP # alias_names).
        get_largest_enclosing_register X (reg X n) = reg X n \<and>
        get_register_width_bits64 X (reg X n) = 64 \<and> \<not> is_gpr8h X (reg X n)) \<and>
     distinct (map (reg X) (XED_REG_INVALID # XED_REG_RSP # alias_names))"

lemma choose_alias_free:
  assumes "\<exists>n \<in> set alias_names. reg X n \<notin> used"
  shows "choose_alias X used \<in> reg X ` set alias_names \<and> choose_alias X used \<notin> used"
  using assms by (auto simp: choose_alias_def alias_names_def)

text \<open>
  When one of RAX, RCX, RDX and RBX is not used by the instruction, the alias of the
  stack pointer is one of them, holds the stack pointer's value and disturbs no other
  register; whatever value the instruction leaves in it becomes the stack pointer when the
  registers are reported.
\<close>

theorem stack_alias:
  assumes "alias_regs_ok X" and "gStackPtrAlias g = reg X XED_REG_INVALID"
    and "\<exists>n \<in> set alias_names. reg X n \<notin> gStoreRegs g"
  shows "let g1 = snd (GetStackPointerAlias X r g); al = gStackPtrAlias g1;
             g2 = restore_stack_pointer X (WriteGPR X al v g1) in
    al \<notin> gStoreRegs g \<and> ReadGPR X al g1 = ReadGPR X (reg X XED_REG_RSP) g \<and>
    (\<forall>q. q \<noteq> al \<longrightarrow> gRegs g1 q = gRegs g q) \<and>
    ReadGPR X (reg X XED_REG_RSP) g2 = v \<and> gStackPtrAlias g2 = reg X XED_REG_INVALID"
proof -
  define al where "al = choose_alias X (gStoreRegs g)"
  define sp where "sp = reg X XED_REG_RSP"
  have al: "al \<in> reg X ` set alias_names" "al \<notin> gStoreRegs g"
    using choose_alias_free [OF assms(3)] by (simp_all add: al_def)
  have "reg X XED_REG_INVALID \<notin> reg X ` set alias_names" "sp \<notin> reg X ` set alias_names"
    using assms(1) by (simp_all add: alias_regs_ok_def sp_def)
  with al have ne: "al \<noteq> reg X XED_REG_INVALID" "al \<noteq> sp" by metis+
  have big: "get_largest_enclosing_register X q = q" "get_register_width_bits64 X q = 64" "is_gpr X q"
    if "q \<in> {al, sp}" for q
    using that al assms(1) by (auto simp: alias_regs_ok_def sp_def is_gpr_def)
  define g1 where "g1 = WriteGPR X al (ReadGPR X sp g) (g\<lparr>gStackPtrAlias := al\<rparr>)"
  have A: "snd (GetStackPointerAlias X r g) = g1"
    by (simp add: GetStackPointerAlias_def assms(2) g1_def al_def sp_def Let_def)
      (simp add: ReadGPR_def ReadValue_def Let_def)
  have ga: "gStackPtrAlias (WriteGPR X q u h) = gStackPtrAlias h" for q u h
    by (simp add: WriteGPR_def WriteValue_def Let_def)
  have rd: "ReadGPR X q (WriteGPR X q u h) = u" if "q \<in> {al, sp}" for q u h
    using ReadGPR_WriteGPR_eq [OF big(3) [OF that]] big(2) [OF that] by simp
  have rest: "restore_stack_pointer X (WriteGPR X al v g1) =
      (WriteGPR X sp v (WriteGPR X al v g1))\<lparr>gStackPtrAlias := reg X XED_REG_INVALID\<rparr>"
    using ne(1) rd [of al] by (simp add: restore_stack_pointer_def ga g1_def sp_def)
  have "ReadGPR X sp (h\<lparr>gStackPtrAlias := z\<rparr>) = ReadGPR X sp h" for h z
    by (simp add: ReadGPR_def ReadValue_def Let_def)
  then show ?thesis
    using al(2) big(1) [of al] rd [of al] rd [of sp]
    unfolding A sp_def [symmetric] Let_def
    by (simp add: ga g1_def rest [unfolded g1_def] gRegs_WriteGPR_other)
qed

theorem stack_alias_witness:
  "alias_regs_ok sample_xed \<and>
   ReadGPR sample_xed 15 (restore_stack_pointer sample_xed (WriteGPR sample_xed
     (gStackPtrAlias (snd (GetStackPointerAlias sample_xed 31 (sample_gstate\<lparr>gStoreRegs := {11}\<rparr>)))) 8
     (snd (GetStackPointerAlias sample_xed 31 (sample_gstate\<lparr>gStoreRegs := {11}\<rparr>))))) = 8"
proof -
  have h: "alias_regs_ok sample_xed"
    "gStackPtrAlias (sample_gstate\<lparr>gStoreRegs := {11}\<rparr>) = reg sample_xed XED_REG_INVALID"
    "\<exists>n \<in> set alias_names. reg sample_xed n \<notin> gStoreRegs (sample_gstate\<lparr>gStoreRegs := {11}\<rparr>)"
    by (simp_all add: alias_regs_ok_def alias_names_def is_gpr8h_def sample_gstate_def sample_xed_simps)
  have "reg sample_xed XED_REG_RSP = 15" by (simp add: sample_xed_simps)
  with stack_alias [OF h, of 31 8] h(1) show ?thesis by (simp add: Let_def)
qed

text \<open>
  With all four candidates in use, no alias exists; the register put into the request is
  then computed from the invalid enumerator and is not an alias of the stack pointer.
\<close>

lemma stack_alias_exhausted:
  assumes "gStackPtrAlias g = reg X XED_REG_INVALID" and "\<forall>n \<in> set alias_names. reg X n \<in> gStoreRegs g"
    and "get_register_width_bits64 X (reg X XED_REG_INVALID) = 0" and "\<not> is_gpr8h X (reg X XED_REG_INVALID)"
    and "r = reg X XED_REG_ESP" and "r \<noteq> reg X XED_REG_SPL" and "r \<noteq> reg X XED_REG_SP"
  shows "GetStackPointerAlias X r g =
    (shift_reg (reg X XED_REG_INVALID) (reg X XED_REG_GPR64_FIRST) (reg X XED_REG_GPR32_FIRST), g)"
  using assms
  by (simp add: GetStackPointerAlias_def choose_alias_def alias_names_def WriteGPR_def Let_def)

section \<open>MMX registers in the FPU image\<close>

lemma fpu_layout_offsets:
  "st_offset (fpu_layout E) i ''mmx'' = 256 + i * 128"
  "st_offset (fpu_layout E) i ''infinity'' = 320 + i * 128"
  by (simp_all add: fpu_layout_def st_offset_fxsave)

text \<open>The MMX part of a stack slot, and the exponent bits above it, as fields of the
  image; the slots are numbered modulo their number, eight.\<close>

interpretation slot: cell_pair
  "get_bits (256 + i mod 8 * 128) 64 :: FPU \<Rightarrow> u64" "put_bits (256 + i mod 8 * 128) 64" "take_bit 64"
  "get_bits (320 + i mod 8 * 128) 16 :: FPU \<Rightarrow> u16" "put_bits (320 + i mod 8 * 128) 16" "take_bit 16"
  for i
proof -
  have "i mod 8 < 8" by simp
  then have "256 + i mod 8 * 128 + 64 \<le> 4096" "320 + i mod 8 * 128 + 16 \<le> 4096" by linarith+
  then show "cell_pair
      (get_bits (256 + i mod 8 * 128) 64 :: FPU \<Rightarrow> u64) (put_bits (256 + i mod 8 * 128) 64) (take_bit 64)
      (get_bits (320 + i mod 8 * 128) 16 :: FPU \<Rightarrow> u16) (put_bits (320 + i mod 8 * 128) 16) (take_bit 16)"
    by unfold_locales (simp_all add: get_put_bits put_get_bits put_put_bits, rule put_bits_swap, simp)
qed

definition mmx_used :: "xed \<Rightarrow> gstate \<Rightarrow> nat \<Rightarrow> bool" where
  "mmx_used X g i \<longleftrightarrow> reg X (XED_REG_MMX i) \<in> gUsedRegs g"

definition mmx_low :: "xed \<Rightarrow> gstate \<Rightarrow> nat \<Rightarrow> u64" where
  "mmx_low X g i = get_bits 0 64 (gRegs g (reg X (XED_REG_MMX i)))"

lemma COPY_FROM_MMX_same:
  "gRegs (COPY_FROM_MMX X fx i g) = gRegs g" "gUsedRegs (COPY_FROM_MMX X fx i g) = gUsedRegs g"
  by (simp_all add: COPY_FROM_MMX_def)

lemma fold_COPY_FROM_same:
  "gRegs (fold (COPY_FROM_MMX X fx) is g) = gRegs g"
  "gUsedRegs (fold (COPY_FROM_MMX X fx) is g) = gUsedRegs g"
  by (induction "is" arbitrary: g) (simp_all add: COPY_FROM_MMX_same)

lemma COPY_FROM_MMX_other:
  "off + n \<le> 256 + i * 128 \<or> 336 + i * 128 \<le> off \<Longrightarrow>
   get_bits off n (gFPU (COPY_FROM_MMX X (fpu_layout E) i g)) = get_bits off n (gFPU g)"
  by (auto simp: COPY_FROM_MMX_def fpu_layout_offsets get_put_bits_other)

lemma COPY_FROM_MMX_slot:
  assumes "i < 8" and "mmx_used X g i"
  shows "get_bits (256 + i * 128) 64 (gFPU (COPY_FROM_MMX X (fpu_layout E) i g)) = mmx_low X g i"
    "get_bits (320 + i * 128) 16 (gFPU (COPY_FROM_MMX X (fpu_layout E) i g)) = (0xFFFF :: u16)"
  using assms slot.rd1_after_both [of i] slot.b.rd_wr [of i]
  by (simp_all add: COPY_FROM_MMX_def fpu_layout_offsets mmx_used_def mmx_low_def)

lemma fold_COPY_FROM_other:
  "\<forall>i \<in> set is. off + n \<le> 256 + i * 128 \<or> 336 + i * 128 \<le> off \<Longrightarrow>
   get_bits off n (gFPU (fold (COPY_FROM_MMX X (fpu_layout E)) is g)) = get_bits off n (gFPU g)"
  by (induction "is" arbitrary: g) (simp_all add: COPY_FROM_MMX_other)

lemma fold_COPY_FROM_slot:
  assumes "i \<in> set is" and "distinct is" and "i < 8" and "mmx_used X g i"
  shows "get_bits (256 + i * 128) 64 (gFPU (fold (COPY_FROM_MMX X (fpu_layout E)) is g)) = mmx_low X g i"
    "get_bits (320 + i * 128) 16 (gFPU (fold (COPY_FROM_MMX X (fpu_layout E)) is g)) = (0xFFFF :: u16)"
proof -
  obtain ys zs where "is": "is = ys @ i # zs" using assms(1) by (meson split_list)
  let ?h = "fold (COPY_FROM_MMX X (fpu_layout E)) ys g"
  have h: "mmx_used X ?h i" "mmx_low X ?h i = mmx_low X g i"
    using assms(4) by (simp_all add: mmx_used_def mmx_low_def fold_COPY_FROM_same)
  have "256 + i * 128 + 64 \<le> 256 + j * 128 \<or> 336 + j * 128 \<le> 256 + i * 128"
    "320 + i * 128 + 16 \<le> 256 + j * 128 \<or> 336 + j * 128 \<le> 320 + i * 128" if "j \<noteq> i" for j
    using that by arith+
  then have far: "\<forall>j \<in> set zs. 256 + i * 128 + 64 \<le> 256 + j * 128 \<or> 336 + j * 128 \<le> 256 + i * 128"
    "\<forall>j \<in> set zs. 320 + i * 128 + 16 \<le> 256 + j * 128 \<or> 336 + j * 128 \<le> 320 + i * 128"
    using assms(2) "is" by (metis distinct.simps(2) distinct_append)+
  show "get_bits (256 + i * 128) 64 (gFPU (fold (COPY_FROM_MMX X (fpu_layout E)) is g)) = mmx_low X g i"
    "get_bits (320 + i * 128) 16 (gFPU (fold (COPY_FROM_MMX X (fpu_layout E)) is g)) = (0xFFFF :: u16)"
    using COPY_FROM_MMX_slot [OF assms(3) h(1), of E]
    by (simp_all add: "is" fold_COPY_FROM_other [OF far(1)] fold_COPY_FROM_other [OF far(2)] h(2))
qed

text \<open>The bits of the image that the slots of the used registers take up.\<close>

definition mmx_bits :: "xed \<Rightarrow> gstate \<Rightarrow> nat set" where
  "mmx_bits X g = {j. \<exists>i < 8. mmx_used X g i \<and> 256 + i * 128 \<le> j \<and> j < 336 + i * 128}"

lemma COPY_FROM_MMX_bit:
  "i < 8 \<Longrightarrow> j \<notin> mmx_bits X g \<Longrightarrow> bit (gFPU (COPY_FROM_MMX X (fpu_layout E) i g)) j = bit (gFPU g) j"
  by (auto simp: COPY_FROM_MMX_def fpu_layout_offsets mmx_bits_def mmx_used_def bit_simps dest: bit_imp_le_length)

lemma fold_COPY_FROM_bit:
  "\<forall>i \<in> set is. i < 8 \<Longrightarrow> j \<notin> mmx_bits X g \<Longrightarrow>
   bit (gFPU (fold (COPY_FROM_MMX X (fpu_layout E)) is g)) j = bit (gFPU g) j"
proof (induction "is" arbitrary: g)
  case (Cons i "is")
  have "mmx_bits X (COPY_FROM_MMX X (fpu_layout E) i g) = mmx_bits X g"
    by (simp add: mmx_bits_def mmx_used_def COPY_FROM_MMX_same)
  with Cons show ?case by (simp add: COPY_FROM_MMX_bit)
qed simp

text \<open>
  C37: writing the used MMX registers into the FPU image puts, for each of them, its 64 bits
  into its slot and all ones above it; every other bit of the image, the slots of the
  unused registers and the gaps between the slots among them, keeps its value, and so does
  every register; reading them back gives the same registers.
\<close>

theorem mmx_image:
  "let g' = CopyMMXStateToFPU X E g; used = (\<lambda>i. reg X (XED_REG_MMX i) \<in> gUsedRegs g) in
   (\<forall>i < 8. used i \<longrightarrow>
      get_bits (256 + i * 128) 64 (gFPU g') = (get_bits 0 64 (gRegs g (reg X (XED_REG_MMX i))) :: u64) \<and>
      get_bits (320 + i * 128) 16 (gFPU g') = (0xFFFF :: u16)) \<and>
   (\<forall>j. (\<forall>i < 8. used i \<longrightarrow> j < 256 + i * 128 \<or> 336 + i * 128 \<le> j) \<longrightarrow> bit (gFPU g') j = bit (gFPU g) j) \<and>
   gRegs g' = gRegs g \<and> gUsedRegs g' = gUsedRegs g \<and> CopyMMXStateFromFPU X E g' = g'"
proof -
  define g' where "g' = CopyMMXStateToFPU X E g"
  have same: "gRegs g' = gRegs g" "gUsedRegs g' = gUsedRegs g"
    by (simp_all add: g'_def CopyMMXStateToFPU_def fold_COPY_FROM_same)
  have slots: "get_bits (256 + i * 128) 64 (gFPU g') = mmx_low X g i"
    "get_bits (320 + i * 128) 16 (gFPU g') = (0xFFFF :: u16)" if "i < 8" "mmx_used X g i" for i
    using that fold_COPY_FROM_slot [of i "[0..<8]"] by (simp_all add: g'_def CopyMMXStateToFPU_def)
  have out: "bit (gFPU g') j = bit (gFPU g) j" if "\<forall>i < 8. mmx_used X g i \<longrightarrow> j < 256 + i * 128 \<or> 336 + i * 128 \<le> j" for j
  proof -
    have "j \<notin> mmx_bits X g" using that by (fastforce simp: mmx_bits_def)
    then show ?thesis
      using fold_COPY_FROM_bit [of "[0..<8]" j X g E] by (simp add: g'_def CopyMMXStateToFPU_def)
  qed
  have "COPY_TO_MMX X (fpu_layout E) i g' = g'" if "i < 8" for i
    using slots(1) [OF that] data64.wr_rd
    by (auto simp: COPY_TO_MMX_def fpu_layout_offsets mmx_used_def mmx_low_def same set_slot_low_def)
  then have "\<forall>i \<in> set is. i < 8 \<Longrightarrow> fold (COPY_TO_MMX X (fpu_layout E)) is g' = g'" for "is"
    by (induction "is") simp_all
  then have "CopyMMXStateFromFPU X E g' = g'" by (simp add: CopyMMXStateFromFPU_def)
  with same slots out show ?thesis
    unfolding g'_def [symmetric] Let_def mmx_used_def mmx_low_def by blast
qed

text \<open>Only the first register is in use: the slot of the second one stays.\<close>

theorem mmx_image_witness:
  "let g = sample_gstate\<lparr>gUsedRegs := {79}, gRegs := (\<lambda>_. 5)\<rparr>;
       g' = CopyMMXStateToFPU sample_xed (sample_executor 64) g
   in get_bits 256 64 (gFPU g') = (5 :: u64) \<and> bit (gFPU g') 384 = bit (gFPU g) 384 \<and>
      CopyMMXStateFromFPU sample_xed (sample_executor 64) g' = g'"
proof -
  define g where "g = sample_gstate\<lparr>gUsedRegs := {79}, gRegs := (\<lambda>_. 5)\<rparr>"
  define g' where "g' = CopyMMXStateToFPU sample_xed (sample_executor 64) g"
  have u: "reg sample_xed (XED_REG_MMX i) \<in> gUsedRegs g \<longleftrightarrow> i = 0" for i
    by (simp add: g_def sample_xed_simps)
  have v: "(get_bits 0 64 (gRegs g (reg sample_xed (XED_REG_MMX 0))) :: u64) = 5" by (simp add: g_def get_bits_def)
  note m = mmx_image [of sample_xed "sample_executor 64" g, unfolded Let_def g'_def [symmetric] u]
  have "get_bits (256 + 0 * 128) 64 (gFPU g') = (5 :: u64)"
    using m [THEN conjunct1, THEN spec, of 0] v by simp
  moreover have "bit (gFPU g') 384 = bit (gFPU g) 384"
    using m [THEN conjunct2, THEN conjunct1, THEN spec, of 384] by simp
  ultimately show ?thesis using m unfolding g_def [symmetric] g'_def [symmetric] Let_def by simp
qed

end
