(* ===== verification/Native.thy ===== *)
theory Native
  imports Encode
begin

text \<open>
  Running the encoded instruction: \<open>LoadFPU\<close>, \<open>StoreFPU\<close>, \<open>ExecuteNative\<close>,
  \<open>ExecuteNativeAVX\<close>, \<open>ExecuteNativeAVX512\<close> and \<open>RecoverFromError\<close> of
  \<open>Executor.cpp\<close>. The inline assembly exchanges the cached registers with those of the
  processor around the call of the executable page; what the page does to the registers is
  \<open>run_native\<close> of the host.
\<close>

section \<open>The FPU\<close>

text \<open>The x87 state the instruction starts with, and the globals. When the processor refuses
  the image there is no outcome: the signal handlers are installed, but they jump to a
  \<open>gRecoveryTarget\<close> that \<open>sigsetjmp\<close> has not yet set for this run.\<close>

definition LoadFPU :: "host \<Rightarrow> 's executor \<Rightarrow> gstate \<Rightarrow> (FPU \<times> gstate) option" where
  "LoadFPU H E g =
     (if \<not> gUsesFPU g then Some (host_fpu H, g)
      else if fxrstor_faults H (32 \<noteq> addr_size E) (gFPU g) then None
      else Some (fxrstor H (32 \<noteq> addr_size E) (gFPU g),
                 g\<lparr>gNativeFPU := fxsave H True (host_fpu H) (gNativeFPU g)\<rparr>))"

text \<open>\<open>fpu\<close> is the state the instruction left; the result is the state the process goes on
  with, and the globals.\<close>

definition StoreFPU :: "host \<Rightarrow> 's executor \<Rightarrow> FPU \<Rightarrow> gstate \<Rightarrow> FPU \<times> gstate" where
  "StoreFPU H E fpu g =
     (if \<not> gUsesFPU g then (fpu, g)
      else (fxrstor H True (gNativeFPU g),
            g\<lparr>gFPU := fxsave H (32 \<noteq> addr_size E) fpu (gFPU g)\<rparr>))"

section \<open>The registers\<close>

text \<open>The slots exchanged with general-purpose registers, in the order of the \<open>xchg\<close>
  instructions.\<close>

definition native_gprs :: "xed_reg_name list" where
  "native_gprs = [XED_REG_RAX, XED_REG_RBX, XED_REG_RCX, XED_REG_RDX, XED_REG_RBP, XED_REG_RSI,
     XED_REG_RDI, XED_REG_R 8, XED_REG_R 9, XED_REG_R 10, XED_REG_R 11, XED_REG_R 12,
     XED_REG_R 13, XED_REG_R 14, XED_REG_R 15]"

definition get_gprs :: "xed \<Rightarrow> gstate \<Rightarrow> u64 list" where
  "get_gprs X g = map (\<lambda>n. get_bits 0 64 (gRegs g (reg X n))) native_gprs"

definition set_gprs :: "xed \<Rightarrow> u64 list \<Rightarrow> gstate \<Rightarrow> gstate" where
  "set_gprs X vs g = fold (\<lambda>(n, v). set_slot_low 64 (reg X n) v) (zip native_gprs vs) g"

text \<open>The slot the reference \<open>XMM\<open>k\<close>\<close> of \<open>ExecuteNative\<close> is bound to.\<close>

definition xmm_slot :: "xed \<Rightarrow> nat \<Rightarrow> xed_reg" where
  "xmm_slot X k = get_largest_enclosing_register X (reg X (XED_REG_XMM k))"

definition get_xmms :: "xed \<Rightarrow> gstate \<Rightarrow> 128 word list" where
  "get_xmms X g = map (\<lambda>k. get_bits 0 128 (gRegs g (xmm_slot X k))) [0..<8]"

definition set_xmms :: "xed \<Rightarrow> 128 word list \<Rightarrow> gstate \<Rightarrow> gstate" where
  "set_xmms X vs g =
     fold (\<lambda>(k, v) g. g\<lparr>gRegs := (gRegs g)(xmm_slot X k := put_bits 0 128 v (gRegs g (xmm_slot X k)))\<rparr>)
       (zip [0..<8] vs) g"

definition set_mem0_data :: "Data \<Rightarrow> gstate \<Rightarrow> gstate" where
  "set_mem0_data d g = g\<lparr>gMemory := (gMemory g)(0 := (gMemory g 0)\<lparr>mdata := d\<rparr>)\<rparr>"

section \<open>The call\<close>

text \<open>The signal handler: the non-local jump leaves everything else as the instruction left
  it, the exchange of the registers not undone.\<close>

definition RecoverFromError :: "signal \<Rightarrow> gstate \<Rightarrow> gstate" where
  "RecoverFromError sig g = g\<lparr>gSignal := Some sig\<rparr>"

definition native_entry :: "xed \<Rightarrow> host \<Rightarrow> FPU \<Rightarrow> gstate \<Rightarrow> cpu" where
  "native_entry X H fpu g = \<lparr>cpu_gprs = get_gprs X g, cpu_xmms = get_xmms X g,
     cpu_rflags = aflag X g, cpu_fpu = fnclex H fpu, cpu_mem0 = mdata (gMemory g 0)\<rparr>"

text \<open>What follows the call: the second exchange of the registers.\<close>

definition leave_native :: "xed \<Rightarrow> host \<Rightarrow> cpu \<Rightarrow> gstate \<Rightarrow> FPU \<times> gstate" where
  "leave_native X H c g =
     (fnclex H (cpu_fpu c),
      set_xmms X (cpu_xmms c) (set_gprs X (cpu_gprs c)
        (set_aflag X (cpu_rflags c) (set_mem0_data (cpu_mem0 c) g))))"

text \<open>A signal goes to the handler the process has for it; one that is not
  \<open>RecoverFromError\<close> does not come back to \<open>Execute\<close>.\<close>

definition ExecuteNative :: "xed \<Rightarrow> host \<Rightarrow> FPU \<Rightarrow> gstate \<Rightarrow> (FPU \<times> gstate) option" where
  "ExecuteNative X H fpu g =
     (case run_native H (gExecArea g) (native_entry X H fpu g) of
        Returned c \<Rightarrow> Some (leave_native X H c g)
      | Raised sig c \<Rightarrow>
          if disposition g sig = SIG_RecoverFromError then Some
            (cpu_fpu c,
             RecoverFromError sig (set_gprs X (host_gprs H) (set_mem0_data (cpu_mem0 c) g)))
          else None)"

definition ExecuteNativeAVX :: "gstate \<Rightarrow> gstate" where
  "ExecuteNativeAVX g = g\<lparr>gSignal := Some SIGILL\<rparr>"

definition ExecuteNativeAVX512 :: "gstate \<Rightarrow> gstate" where
  "ExecuteNativeAVX512 g = g\<lparr>gSignal := Some SIGILL\<rparr>"

text \<open>The calls of \<open>sigaction\<close> before and after the run.\<close>

definition install_handlers :: "gstate \<Rightarrow> gstate" where
  "install_handlers g =
     g\<lparr>gSIGILL := disposition g SIGILL, gSIGBUS := disposition g SIGBUS,
       gSIGSEGV := disposition g SIGSEGV, gSIGFPE := disposition g SIGFPE,
       disposition := (disposition g)(SIGILL := gSignalHandler g, SIGBUS := gSignalHandler g,
         SIGSEGV := gSignalHandler g, SIGFPE := gSignalHandler g)\<rparr>"

definition restore_handlers :: "gstate \<Rightarrow> gstate" where
  "restore_handlers g =
     g\<lparr>disposition := (disposition g)(SIGILL := gSIGILL g, SIGBUS := gSIGBUS g,
         SIGSEGV := gSIGSEGV g, SIGFPE := gSIGFPE g)\<rparr>"

text \<open>\<open>Execute\<close> from \<open>gSignal = 0\<close> to the removal of the signal handlers.\<close>

definition run_encoded :: "xed \<Rightarrow> host \<Rightarrow> 's executor \<Rightarrow> gstate \<Rightarrow> gstate option" where
  "run_encoded X H E g =
     (case LoadFPU H E (install_handlers (g\<lparr>gSignal := None\<rparr>)) of
        None \<Rightarrow> None
      | Some (fpu, g) \<Rightarrow>
          (case (if has_avx512 E then Some (fpu, ExecuteNativeAVX512 g)
                 else if has_avx E then Some (fpu, ExecuteNativeAVX g)
                 else ExecuteNative X H fpu g) of
             None \<Rightarrow> None
           | Some (fpu, g) \<Rightarrow> Some (restore_handlers (snd (StoreFPU H E fpu g)))))"

text \<open>The \<open>switch\<close> on the signal; \<open>kGood\<close> where execution goes on.\<close>

fun status_of_signal :: "signal option \<Rightarrow> ExecutorStatus" where
  "status_of_signal None = kGood"
| "status_of_signal (Some SIGSEGV) = kErrorFault"
| "status_of_signal (Some SIGBUS) = kErrorFault"
| "status_of_signal (Some SIGFPE) = kErrorFloatingPointException"
| "status_of_signal (Some SIGILL) = kErrorExecute"
| "status_of_signal (Some (SIG_OTHER n)) = kErrorExecute"

end
