(* ===== verification/Exec.thy ===== *)
theory Exec
  imports Native
begin

text \<open>
  \<open>Executor::Init\<close> and \<open>Executor::Execute\<close>. An execution is a function of the world whose
  outcome is a status and a world, or \<open>None\<close> where the C++ program does not get that far:
  it writes through a null pointer, or a signal is raised that no handler of its own
  brings back. The \<open>for\<close> loop over the instructions is a recursion on the number of
  instructions left.
\<close>

section \<open>Initialisation\<close>

definition Init :: "host \<Rightarrow> gstate \<Rightarrow> bool \<times> gstate" where
  "Init H g =
     (if gIsInitialized g then (True, g)
      else if \<not> mmap_exec_area H (exec_area_address H) then (False, g\<lparr>gExecArea := []\<rparr>)
      else (True, g\<lparr>gExecArea := replicate (unat kPageSize) 0, gWriteBackFlags := 0,
                    gRegs := (\<lambda>_. 0), gSignalHandler := SIG_RecoverFromError,
                    gIsInitialized := True\<rparr>))"

section \<open>Fetching and decoding\<close>

definition reset_instruction :: "xed \<Rightarrow> gstate \<Rightarrow> gstate" where
  "reset_instruction X g =
     g\<lparr>gUsedRegs := {}, gModifiedRegs := {}, gStoreRegs := {},
       gStackPtrAlias := reg X XED_REG_INVALID, gUsesFPU := False, gUsesMMX := False\<rparr>"

text \<open>The loop over \<open>inst_length\<close>; the result is the length reached (0 when every read
  failed).\<close>

fun fetch :: "'s executor \<Rightarrow> u64 \<Rightarrow> nat \<Rightarrow> 's world \<Rightarrow> nat \<times> 's world" where
  "fetch E pc 0 w = (0, w)"
| "fetch E pc (Suc n) w =
     (case ReadMem E pc (Suc n * 8) kReadExecutable (idata (fst w)) (snd w) of (ok, d, s) \<Rightarrow>
        if ok then (Suc n, (fst w)\<lparr>idata := d\<rparr>, s)
        else fetch E pc n ((fst w)\<lparr>idata := d\<rparr>, ClearFetchError E s))"

definition max_inst_length :: nat where
  "max_inst_length = 15"

text \<open>From \<open>ComputeAddress\<close> to the end of the loop.\<close>

definition FetchInstruction :: "xed \<Rightarrow> 's executor \<Rightarrow> 's world \<Rightarrow> nat \<times> 's world" where
  "FetchInstruction X E w =
     (case ComputeAddress E ''CS'' (GetPC X E (fst w)) 0 0 0 8 kReadExecutable (snd w) of (pc, s) \<Rightarrow>
        fetch E pc max_inst_length (fst w, s))"

section \<open>One instruction\<close>

text \<open>A step that consults only the globals, and one that is made only under a condition.\<close>

definition on_globals :: "(gstate \<Rightarrow> bool \<times> gstate) \<Rightarrow> 's world \<Rightarrow> bool \<times> 's world" where
  "on_globals f w = (case f (fst w) of (ok, g) \<Rightarrow> (ok, g, snd w))"

definition fpu_read :: "'s executor \<Rightarrow> 's world \<Rightarrow> bool \<times> 's world" where
  "fpu_read E w =
     (if gUsesFPU (fst w) then
        (case ReadFPU E (gFPU (fst w)) (snd w) of (ok, f, s) \<Rightarrow> (ok, (fst w)\<lparr>gFPU := f\<rparr>, s))
      else (True, w))"

definition fpu_write :: "'s executor \<Rightarrow> 's world \<Rightarrow> bool \<times> 's world" where
  "fpu_write E w =
     (if gUsesFPU (fst w) then
        (case WriteFPU E (gFPU (fst w)) (snd w) of (ok, s) \<Rightarrow> (ok, fst w, s))
      else (True, w))"

definition is_nop :: "gstate \<Rightarrow> bool" where
  "is_nop g \<longleftrightarrow> get_category (gXedd g) = XED_CATEGORY_NOP \<or> get_category (gXedd g) = XED_CATEGORY_WIDENOP"

text \<open>Emulation or native execution of the instruction: the status, the next program
  counter and the globals.\<close>

definition perform ::
  "xed \<Rightarrow> host \<Rightarrow> 's executor \<Rightarrow> u64 \<Rightarrow> gstate \<Rightarrow> (ExecutorStatus \<times> u64 \<times> gstate) option" where
  "perform X H E npc g =
     (case Emulate X H E npc g of (done, npc, emulation_status, g) \<Rightarrow>
        if done then Some (kGood, npc, g)
        else if kGood \<noteq> emulation_status then Some (emulation_status, npc, g)
        else (case EncodeInstruction X H g of
                None \<Rightarrow> None
              | Some (ok, g) \<Rightarrow>
                  if \<not> ok then Some (kErrorExecute, npc, g)
                  else (case run_encoded X H E g of
                          None \<Rightarrow> None
                        | Some g \<Rightarrow> Some (status_of_signal (gSignal g), npc, g))))"

type_synonym 's outcome = "(ExecutorStatus \<times> 's world) option"

text \<open>The end of the loop body: flags, program counter, registers.\<close>

definition report_back :: "xed \<Rightarrow> 's executor \<Rightarrow> u64 \<Rightarrow> 's world \<Rightarrow> 's outcome" where
  "report_back X E npc =
     or_return (WriteFlags X E) kErrorWriteFlags (\<lambda>w.
     or_return (WriteRegisters X E) kErrorWriteReg (\<lambda>w. Some (kGood, w))
       (SetNextPC X npc (fst w), snd w))"

text \<open>What follows a performed instruction.\<close>

definition commit :: "xed \<Rightarrow> 's executor \<Rightarrow> u64 \<Rightarrow> 's world \<Rightarrow> 's outcome" where
  "commit X E npc =
     or_return (WriteMemory E) kErrorWriteMem (
     or_return (fpu_write E) kErrorWriteFPU (\<lambda>w.
       report_back X E npc
         ((if gUsesMMX (fst w) then CopyMMXStateFromFPU X E (fst w) else fst w), snd w)))"

text \<open>The instruction itself, for a category other than \<open>NOP\<close> and \<open>WIDENOP\<close>.\<close>

definition operate :: "xed \<Rightarrow> host \<Rightarrow> 's executor \<Rightarrow> u64 \<Rightarrow> 's world \<Rightarrow> 's outcome" where
  "operate X H E npc =
     or_return (fpu_read E) kErrorReadFPU (\<lambda>w.
     or_return (ReadMemory X E) kErrorReadMem (\<lambda>w.
       case perform X H E npc (fst w) of
         None \<Rightarrow> None
       | Some (st, npc', g) \<Rightarrow>
           if st \<noteq> kGood then Some (st, g, snd w) else commit X E npc' (g, snd w))
       ((if gUsesMMX (fst w) then CopyMMXStateToFPU X E (fst w) else fst w), snd w))"

text \<open>After the instruction has been decoded.\<close>

definition decoded :: "xed \<Rightarrow> host \<Rightarrow> 's executor \<Rightarrow> 's world \<Rightarrow> 's outcome" where
  "decoded X H E w =
     (if UsesUnsupportedFeatures E (fst w) then Some (kErrorUnsupportedFeatures, w)
      else or_return (ReadFlags X H E) kErrorReadFlags (
           or_return (ReadRegisters X E) kErrorReadReg (\<lambda>w.
             let npc = GetNextPC X E (fst w) in
             if is_nop (fst w) then report_back X E npc w else operate X H E npc w)) w)"

text \<open>The body of the loop.\<close>

definition ExecuteOne :: "xed \<Rightarrow> host \<Rightarrow> 's executor \<Rightarrow> 's world \<Rightarrow> 's outcome" where
  "ExecuteOne X H E w =
     or_return (ReadPC X E) kErrorReadReg (\<lambda>w.
       case FetchInstruction X E w of (inst_length, w) \<Rightarrow>
         if inst_length = 0 then Some (kErrorReadInstMem, w)
         else or_return (on_globals (\<lambda>g.
                  DecodeInstruction X (word_bytes inst_length (idata g)) (addr_size E) g))
                kErrorDecode (decoded X H E) w)
       (reset_instruction X (fst w), snd w)"

section \<open>The loop\<close>

fun execute_loop :: "xed \<Rightarrow> host \<Rightarrow> 's executor \<Rightarrow> nat \<Rightarrow> 's world \<Rightarrow> 's outcome" where
  "execute_loop X H E 0 w = Some (kGood, w)"
| "execute_loop X H E (Suc n) w =
     (case ExecuteOne X H E w of
        None \<Rightarrow> None
      | Some (st, w') \<Rightarrow> if st = kGood then execute_loop X H E n w' else Some (st, w'))"

definition Execute :: "xed \<Rightarrow> host \<Rightarrow> 's executor \<Rightarrow> nat \<Rightarrow> 's world \<Rightarrow> 's outcome" where
  "Execute X H E max_num_executions w =
     (if max_num_executions = 0 then Some (kGood, w)
      else if \<not> gIsInitialized (fst w) then Some (kErrorNotInitialized, w)
      else execute_loop X H E max_num_executions w)"

end
