(* ===== verification/NativeProps.thy ===== *)
theory NativeProps
  imports EncodeProps Exec
begin

text \<open>
  Properties of the native execution: what the exchange of the registers leaves in the cache
  after a normal return and after a signal, and what an executor that announces AVX gets.
\<close>

section \<open>The register exchange\<close>

lemma gRegs_set_slot_low:
  "gRegs (set_slot_low n r v g) q = (if q = r then put_bits 0 n v (gRegs g r) else gRegs g q)"
  by (simp add: set_slot_low_def)

lemma fold_slots_other:
  "q \<notin> reg X ` fst ` set nvs \<Longrightarrow>
   gRegs (fold (\<lambda>(n, v). set_slot_low 64 (reg X n) v) nvs g) q = gRegs g q"
  by (induction nvs arbitrary: g) (auto simp: gRegs_set_slot_low)

lemma fold_slots:
  "distinct (map (reg X \<circ> fst) nvs) \<Longrightarrow> (n, v) \<in> set nvs \<Longrightarrow>
   get_bits 0 64 (gRegs (fold (\<lambda>(n, v). set_slot_low 64 (reg X n) v) nvs g) (reg X n)) = v"
proof (induction nvs arbitrary: g)
  case Nil
  then show ?case by simp
next
  case (Cons x nvs)
  show ?case
  proof (cases "x = (n, v)")
    case True
    with Cons.prems(1) have "reg X n \<notin> reg X ` fst ` set nvs" by (auto simp: image_iff)
    with True show ?thesis by (simp add: fold_slots_other gRegs_set_slot_low data64.rd_wr)
  next
    case False
    with Cons show ?thesis by (auto split: prod.splits)
  qed
qed

text \<open>The fifteen registers of the exchange have slots of their own.\<close>

definition native_regs_ok :: "xed \<Rightarrow> bool" where
  "native_regs_ok X \<longleftrightarrow> distinct (map (reg X) (XED_REG_RFLAGS # native_gprs)) \<and>
     distinct (map (xmm_slot X) [0..<8]) \<and>
     xmm_slot X ` {0..<8} \<inter> reg X ` set (XED_REG_RFLAGS # native_gprs) = {}"

lemma get_set_gprs:
  assumes "native_regs_ok X" and "length vs = 15"
  shows "get_gprs X (set_gprs X vs g) = vs"
proof (rule nth_equalityI)
  have n: "length native_gprs = 15" by (simp add: native_gprs_def)
  then show "length (get_gprs X (set_gprs X vs g)) = length vs" using assms(2) by (simp add: get_gprs_def)
  fix i assume "i < length (get_gprs X (set_gprs X vs g))"
  then have i: "i < 15" using n by (simp add: get_gprs_def)
  then have "(native_gprs ! i, vs ! i) \<in> set (zip native_gprs vs)"
    using n assms(2) by (metis length_zip min.idem nth_mem nth_zip)
  moreover have "map (reg X \<circ> fst) (zip native_gprs vs) = map (reg X) native_gprs"
    using n assms(2) by (metis map_fst_zip map_map)
  then have "distinct (map (reg X \<circ> fst) (zip native_gprs vs))"
    using assms(1) by (simp only: native_regs_ok_def) simp
  ultimately show "get_gprs X (set_gprs X vs g) ! i = vs ! i"
    using i n by (simp add: get_gprs_def set_gprs_def fold_slots)
qed

lemma set_gprs_other:
  "q \<notin> reg X ` set native_gprs \<Longrightarrow> gRegs (set_gprs X vs g) q = gRegs g q"
  unfolding set_gprs_def by (rule fold_slots_other) (auto dest: set_zip_leftD)

lemma gRegs_set_xmms_other:
  "q \<notin> xmm_slot X ` {0..<8} \<Longrightarrow> gRegs (set_xmms X vs g) q = gRegs g q"
proof -
  have "q \<notin> xmm_slot X ` fst ` set kvs \<Longrightarrow> gRegs (fold (\<lambda>(k, v) g. g\<lparr>gRegs := (gRegs g)(xmm_slot X k :=
      put_bits 0 128 v (gRegs g (xmm_slot X k)))\<rparr>) kvs g) q = gRegs g q" for kvs :: "(nat \<times> 128 word) list"
    by (induction kvs arbitrary: g) auto
  moreover assume "q \<notin> xmm_slot X ` {0..<8}"
  then have "q \<notin> xmm_slot X ` fst ` set (zip [0..<8] vs)" by (auto dest: set_zip_leftD)
  ultimately show ?thesis unfolding set_xmms_def by blast
qed

lemma get_gprs_cong:
  "(\<And>n. n \<in> set native_gprs \<Longrightarrow> gRegs g (reg X n) = gRegs h (reg X n)) \<Longrightarrow> get_gprs X g = get_gprs X h"
  by (simp add: get_gprs_def)

text \<open>Neither exchange touches the signal; the flags' slot is not among those of the
  registers.\<close>

lemma gSignal_exchange [simp]:
  "gSignal (set_gprs X vs g) = gSignal g" "gSignal (set_xmms X xs g) = gSignal g"
  "gSignal (set_aflag X d g) = gSignal g" "gSignal (set_mem0_data e g) = gSignal g"
proof -
  have fold: "(\<And>x g. gSignal (f x g) = gSignal g) \<Longrightarrow> gSignal (fold f xs g) = gSignal g"
    for f :: "'x \<Rightarrow> gstate \<Rightarrow> gstate" and xs
    by (induction xs arbitrary: g) simp_all
  show "gSignal (set_gprs X vs g) = gSignal g" "gSignal (set_xmms X xs g) = gSignal g"
    unfolding set_gprs_def set_xmms_def by (rule fold; auto simp: set_slot_low_def split: prod.splits)+
qed (simp_all add: set_aflag_def set_mem0_data_def)

lemma aflag_set_gprs:
  "native_regs_ok X \<Longrightarrow> aflag X (set_gprs X vs g) = aflag X g"
  by (auto simp: aflag_def native_regs_ok_def set_gprs_other)

lemma leave_native_registers:
  assumes "native_regs_ok X" and "length (cpu_gprs c) = 15"
  shows "get_gprs X (snd (leave_native X H c g)) = cpu_gprs c"
    "aflag X (snd (leave_native X H c g)) = cpu_rflags c"
    "gSignal (snd (leave_native X H c g)) = gSignal g"
proof -
  have gp: "reg X n \<notin> xmm_slot X ` {0..<8}" if "n \<in> set (XED_REG_RFLAGS # native_gprs)" for n
    using assms(1) that by (auto simp: native_regs_ok_def)
  have x: "get_gprs X (set_xmms X xs h) = get_gprs X h" "aflag X (set_xmms X xs h) = aflag X h" for xs h
  proof -
    show "get_gprs X (set_xmms X xs h) = get_gprs X h"
      by (rule get_gprs_cong) (simp add: gRegs_set_xmms_other gp)
    show "aflag X (set_xmms X xs h) = aflag X h"
      by (simp add: aflag_def gRegs_set_xmms_other gp)
  qed
  show "get_gprs X (snd (leave_native X H c g)) = cpu_gprs c"
    "aflag X (snd (leave_native X H c g)) = cpu_rflags c"
    "gSignal (snd (leave_native X H c g)) = gSignal g"
    by (simp_all add: leave_native_def x get_set_gprs [OF assms] aflag_set_gprs [OF assms(1)])
qed

text \<open>
  A normal return of the native code leaves the processor's general-purpose registers
  and flags in their slots. After a signal, which jumps out of the exchange, the slots of
  the general-purpose registers hold the registers of the host process, and the flags are
  as before.
\<close>

theorem ExecuteNative_registers:
  assumes "native_regs_ok X" and "length (host_gprs H) = 15"
  shows "case run_native H (gExecArea g) (native_entry X H fpu g) of
      Returned c \<Rightarrow> length (cpu_gprs c) = 15 \<longrightarrow>
        (\<exists>fpu' g'. ExecuteNative X H fpu g = Some (fpu', g') \<and> get_gprs X g' = cpu_gprs c \<and>
           aflag X g' = cpu_rflags c \<and> gSignal g' = gSignal g)
    | Raised sig c \<Rightarrow> disposition g sig = SIG_RecoverFromError \<longrightarrow>
        (\<exists>fpu' g'. ExecuteNative X H fpu g = Some (fpu', g') \<and> get_gprs X g' = host_gprs H \<and>
           aflag X g' = aflag X g \<and> gSignal g' = Some sig)"
proof -
  have m: "get_gprs X (h\<lparr>gSignal := s\<rparr>) = get_gprs X h" "aflag X (h\<lparr>gSignal := s\<rparr>) = aflag X h"
    "aflag X (set_mem0_data d h) = aflag X h" for h s d
    by (simp_all add: aflag_def get_gprs_def set_mem0_data_def)
  show ?thesis
    using leave_native_registers [OF assms(1)]
    by (auto simp: ExecuteNative_def RecoverFromError_def m get_set_gprs [OF assms]
        aflag_set_gprs [OF assms(1)] split: native_outcome.split)
      (metis prod.collapse)
qed

text \<open>A division that faults, with host registers 1 to 15.\<close>

definition fault_host :: host where
  "fault_host = sample_host\<lparr>run_native := (\<lambda>_ c. Raised SIGFPE c),
     host_gprs := [1, 2, 3, 4, 5, 6, 7, 8, 9, 10, 11, 12, 13, 14, 15]\<rparr>"

abbreviation guarded_gstate :: gstate where
  "guarded_gstate \<equiv> install_handlers sample_gstate"

theorem ExecuteNative_registers_witness:
  "native_regs_ok sample_xed \<and> length (host_gprs fault_host) = 15 \<and>
   (\<exists>fpu' g'. ExecuteNative sample_xed fault_host 0 guarded_gstate = Some (fpu', g') \<and>
      get_gprs sample_xed g' ! 3 = 4)"
proof -
  have h: "native_regs_ok sample_xed" by code_simp
  have l: "length (host_gprs fault_host) = 15" by (simp add: fault_host_def)
  have r: "run_native fault_host as c = Raised SIGFPE c" for as c by (simp add: fault_host_def)
  have "host_gprs fault_host ! 3 = 4" by (simp add: fault_host_def)
  then show ?thesis
    using ExecuteNative_registers [OF h l, where g = guarded_gstate and fpu = 0] h l
    by (auto simp: r install_handlers_def sample_gstate_def)
qed

section \<open>Executors with AVX\<close>

text \<open>
  An executor that announces AVX or AVX-512 cannot run anything natively: every
  instruction that is not emulated ends without success, whatever the instruction is.
\<close>

theorem avx_never_native:
  assumes "has_avx E \<or> has_avx512 E" and "\<not> fst (Emulate X H E npc g)"
    and "perform X H E npc g = Some (st, npc', g')"
  shows "st \<noteq> kGood"
proof -
  obtain pc st1 where e: "Emulate X H E npc g = (False, pc, st1, snd (snd (snd (Emulate X H E npc g))))"
    using assms(2) by (metis prod.collapse)
  have "gSignal h' = Some SIGILL" if "run_encoded X H E h = Some h'" for h h'
    using assms(1) that by (auto simp: run_encoded_def LoadFPU_def StoreFPU_def ExecuteNativeAVX_def
        ExecuteNativeAVX512_def restore_handlers_def split: if_splits)
  then show ?thesis
    using assms(3) by (subst (asm) perform_def, subst (asm) e)
      (auto split: if_splits option.splits prod.splits simp: Let_def)
qed

theorem avx_never_native_witness:
  "perform sample_xed sample_host ((sample_executor 64)\<lparr>has_avx := True\<rparr>) 1 (sample_gstate\<lparr>gExecArea := replicate 32 0\<rparr>) \<noteq> None \<and>
   map_option fst (perform sample_xed sample_host ((sample_executor 64)\<lparr>has_avx := True\<rparr>) 1
     (sample_gstate\<lparr>gExecArea := replicate 32 0\<rparr>)) \<noteq> Some kGood"
proof -
  let ?E = "(sample_executor 64)\<lparr>has_avx := True\<rparr>" and ?g = "sample_gstate\<lparr>gExecArea := replicate 32 0\<rparr>"
  have h: "has_avx ?E \<or> has_avx512 ?E" by simp
  have e: "\<not> fst (Emulate sample_xed sample_host ?E 1 ?g)"
    by (simp add: Emulate_def rejected_def sample_gstate_def sample_inst_def Let_def)
  have s: "perform sample_xed sample_host ?E 1 ?g \<noteq> None"
    by (simp add: perform_def Emulate_def rejected_def EncodeInstruction_def EncodeRequest_def
        CreateEncodableInstruction_def run_encoded_def LoadFPU_def install_handlers_def sample_simps Let_def)
  then obtain st pc g' where p: "perform sample_xed sample_host ?E 1 ?g = Some (st, pc, g')" by auto
  from avx_never_native [OF h e p] s p show ?thesis by simp
qed

end
