(* ===== verification/ExecProps.thy ===== *)
theory ExecProps
  imports NativeProps
begin

text \<open>
  Properties of \<open>Execute\<close>: what an embedding program sees of an instruction that fails or
  succeeds. The contract between \<open>Execute\<close> and the embedding program is the locale
  \<open>reader\<close>: the reading methods keep some observable part of the machine. It is
  interpreted on \<open>logged E\<close>, which is any executor \<open>E\<close> with a log of the writes, so that
  the log of an execution can be read off.
\<close>

section \<open>Executors whose reading methods keep an observation\<close>

locale reader =
  fixes E :: "'s executor" and obs :: "'s \<Rightarrow> 'o"
  assumes compute_keeps: "obs (snd (ComputeAddress E nm b i sc d n h s)) = obs s"
    and readreg_keeps: "obs (snd (snd (ReadReg E nm n rh v s))) = obs s"
    and readmem_keeps: "obs (snd (snd (ReadMem E a n h v s))) = obs s"
    and readfpu_keeps: "obs (snd (snd (ReadFPU E f s))) = obs s"
    and clear_keeps: "obs (ClearFetchError E s) = obs s"

text \<open>Two worlds that look the same.\<close>

definition looks :: "('s \<Rightarrow> 'o) \<Rightarrow> 's world \<Rightarrow> 's world \<Rightarrow> bool" where
  "looks obs w w' \<longleftrightarrow> obs (snd w') = obs (snd w)"

interpretation looks: step_relation "looks obs" for obs
  by unfold_locales (simp_all add: looks_def)

context reader
begin

lemma request_register_looks: "looks obs w (snd (request_register X E r h w))"
proof -
  have "obs s' = obs s" if "ReadReg E nm n rh v s = (ok, d, s')" for nm n rh v s ok d s'
    using readreg_keeps that by (metis snd_conv)
  then show ?thesis
    by (auto simp: request_register_def looks_def Let_def split: prod.splits)
qed

lemma ReadRegister_looks: "looks obs w (snd (ReadRegister X E r h w))"
  using request_register_looks [of "((fst w)\<lparr>gUsesFPU := True, gUsesMMX := True\<rparr>, snd w)" X]
    request_register_looks [of w X]
  by (simp add: ReadRegister_def looks_def Let_def)

lemma ReadRegisters_looks: "looks obs w (snd (ReadRegisters X E w))"
  unfolding ReadRegisters_def Let_def ReadRegistersMemOp_def ReadOperandRegister_def
  by (intro looks.and_also_keeps looks.each_keeps)
    (auto simp: looks.R_refl ReadRegister_looks Let_def intro!: looks.and_also_keeps ReadRegister_looks)

lemma ReadPC_looks: "looks obs w (snd (ReadPC X E w))"
  using ReadRegister_looks [of "(g, snd w)" X for g] by (simp add: ReadPC_def looks_def Let_def)

lemma READ_FLAG_keeps: "obs (snd (snd (snd (READ_FLAG E rd fn st)))) = obs (snd (snd st))"
  using readreg_keeps
  by (auto simp: READ_FLAG_def split: prod.splits) (metis snd_conv)+

lemma each_READ_FLAG_keeps: "obs (snd (snd (snd (each (READ_FLAG E rd) fs st)))) = obs (snd (snd st))"
proof (induction fs arbitrary: st)
  case Nil
  then show ?case by simp
next
  case (Cons fn fs)
  then show ?case using READ_FLAG_keeps [of rd fn st] by (auto split: prod.splits)
qed

lemma ReadFlags_looks: "looks obs w (snd (ReadFlags X H E w))"
proof (cases "get_rflags_info (gXedd (fst w))")
  case None
  then show ?thesis by (simp add: ReadFlags_def looks_def)
next
  case (Some rf)
  obtain ok af fv s where e: "each (READ_FLAG E (flags_to_read rf)) flag_regs (pushfq H (fst w), 0, snd w) = (ok, af, fv, s)"
    by (metis prod_cases4)
  then have "obs s = obs (snd w)" using each_READ_FLAG_keeps by (metis snd_conv)
  with Some e show ?thesis by (simp add: ReadFlags_def looks_def Let_def)
qed

lemma fetch_looks: "looks obs w (snd (fetch E pc n w))"
proof (induction n arbitrary: w)
  case 0
  then show ?case by (simp add: looks.R_refl)
next
  case (Suc n)
  obtain ok d s where R: "ReadMem E pc (Suc n * 8) kReadExecutable (idata (fst w)) (snd w) = (ok, d, s)"
    by (metis prod_cases3)
  then have "obs s = obs (snd w)" using readmem_keeps by (metis snd_conv)
  then show ?case
    using R Suc.IH [of "((fst w)\<lparr>idata := d\<rparr>, ClearFetchError E s)"] clear_keeps [of s]
    by (simp add: looks_def)
qed

lemma FetchInstruction_looks: "looks obs w (snd (FetchInstruction X E w))"
proof -
  obtain pc s where c: "ComputeAddress E ''CS'' (GetPC X E (fst w)) 0 0 0 8 kReadExecutable (snd w) = (pc, s)"
    by (metis surj_pair)
  then have "obs s = obs (snd w)" using compute_keeps by (metis snd_conv)
  then show ?thesis
    using fetch_looks [of "(fst w, s)" pc max_inst_length] c by (simp add: FetchInstruction_def looks_def)
qed

lemma fpu_read_looks: "looks obs w (snd (fpu_read E w))"
  using readfpu_keeps by (auto simp: fpu_read_def looks_def split: prod.splits) (metis snd_conv)

lemma ReadMemoryOperand_looks: "looks obs w (snd (ReadMemoryOperand X E xedo k w))"
proof -
  have "obs s' = obs s" if "ReadMem E a n h v s = (ok, d, s')" for a n h v s ok d s'
    using readmem_keeps that by (metis snd_conv)
  moreover have "obs s' = obs s" if "ComputeAddress E nm b i sc d n h s = (a, s')" for nm b i sc d n h s a s'
    using compute_keeps that by (metis snd_conv)
  ultimately show ?thesis
    by (auto simp: ReadMemoryOperand_def looks_def Let_def split: prod.splits)
qed

lemma ReadMemory_looks: "looks obs w (snd (ReadMemory X E w))"
proof -
  have "looks obs w' (snd (case mem_slot (operand_name xedo) of None \<Rightarrow> (True, w')
      | Some k \<Rightarrow> ReadMemoryOperand X E xedo k w'))" for xedo w'
    by (simp add: ReadMemoryOperand_looks looks.R_refl split: option.splits)
  then have "looks obs (clear_present (fst w), snd w) (snd (ReadMemory X E w))"
    unfolding ReadMemory_def by (intro looks.each_keeps)
  then show ?thesis by (simp add: looks_def)
qed

end

section \<open>Executors with a log of the writes\<close>

datatype written = WroteMem u64 nat Data | WroteFPU FPU | WroteReg string nat Data

definition logged :: "'s executor \<Rightarrow> ('s \<times> written list) executor" where
  "logged E = \<lparr>addr_size = addr_size E, has_avx = has_avx E, has_avx512 = has_avx512 E,
     ComputeAddress = (\<lambda>nm b i sc d n h (s, l).
       case ComputeAddress E nm b i sc d n h s of (a, s') \<Rightarrow> (a, s', l)),
     ReadReg = (\<lambda>nm n h v (s, l). case ReadReg E nm n h v s of (ok, v', s') \<Rightarrow> (ok, v', s', l)),
     WriteReg = (\<lambda>nm n v (s, l).
       case WriteReg E nm n v s of (ok, s') \<Rightarrow> (ok, s', l @ [WroteReg nm n v])),
     ReadMem = (\<lambda>a n h v (s, l). case ReadMem E a n h v s of (ok, v', s') \<Rightarrow> (ok, v', s', l)),
     WriteMem = (\<lambda>a n v (s, l).
       case WriteMem E a n v s of (ok, s') \<Rightarrow> (ok, s', l @ [WroteMem a n v])),
     ReadFPU = (\<lambda>f (s, l). case ReadFPU E f s of (ok, f', s') \<Rightarrow> (ok, f', s', l)),
     WriteFPU = (\<lambda>f (s, l). case WriteFPU E f s of (ok, s') \<Rightarrow> (ok, s', l @ [WroteFPU f])),
     ClearFetchError = (\<lambda>(s, l). (ClearFetchError E s, l))\<rparr>"

interpretation logged: reader "logged E" snd for E
  by unfold_locales (auto simp: logged_def split: prod.splits)

text \<open>The order of the writes of an instruction.\<close>

fun phase :: "written \<Rightarrow> nat" where
  "phase (WroteMem a n v) = 0"
| "phase (WroteFPU f) = 1"
| "phase (WroteReg nm n v) = 2"

definition adds :: "nat \<Rightarrow> 's \<times> written list \<Rightarrow> 's \<times> written list \<Rightarrow> bool" where
  "adds k s s' \<longleftrightarrow> (\<exists>l. snd s' = snd s @ l \<and> (\<forall>c \<in> set l. phase c = k))"

interpretation adds: step_relation "adds k" for k
proof unfold_locales
  fix u v w :: "'s \<times> written list"
  show "adds k w w" by (auto simp: adds_def intro: exI [of _ "[]"])
  assume "adds k u v" and "adds k v w"
  then obtain l l' where "snd v = snd u @ l" "snd w = snd v @ l'"
    "\<forall>c \<in> set l. phase c = k" "\<forall>c \<in> set l'. phase c = k" unfolding adds_def by blast
  then show "adds k u w" unfolding adds_def by (intro exI [of _ "l @ l'"]) auto
qed

lemma logged_writes:
  "adds 0 s (snd (WriteMem (logged E) a n v s))"
  "adds 1 s (snd (WriteFPU (logged E) f s))"
  "adds 2 s (snd (WriteReg (logged E) nm n v s))"
  by (auto simp: adds_def logged_def split: prod.splits)

lemma WriteMemory_adds: "adds 0 (snd w) (snd (snd (WriteMemory (logged E) w)))"
proof -
  have "adds 0 s (snd (each (WriteSlot (logged E)) mems s))" for mems s
    by (rule adds.each_keeps) (simp add: WriteSlot_def logged_writes adds.R_refl)
  moreover obtain ok s where "each (WriteSlot (logged E)) [gMemory (fst w) 0, gMemory (fst w) 1] (snd w) = (ok, s)"
    by (metis surj_pair)
  ultimately show ?thesis by (metis WriteMemory_def case_prod_conv snd_conv)
qed

lemma fpu_write_adds: "adds 1 (snd w) (snd (snd (fpu_write (logged E) w)))"
  using logged_writes(2) [of "snd w" E "gFPU (fst w)"]
  by (cases "WriteFPU (logged E) (gFPU (fst w)) (snd w)") (simp add: fpu_write_def adds.R_refl)

lemma WriteFlags_adds: "adds 2 (snd w) (snd (snd (WriteFlags X (logged E) w)))"
proof -
  have "adds 2 s (snd (each (WRITE_FLAG (logged E) wb af) fs s))" for wb af fs s
    by (rule adds.each_keeps) (simp add: WRITE_FLAG_def logged_writes adds.R_refl split: prod.splits)
  then show ?thesis
    by (simp add: WriteFlags_def Let_def adds.R_refl split: prod.splits) (metis snd_conv)
qed

lemma WriteRegisters_adds: "adds 2 (snd w) (snd (snd (WriteRegisters X (logged E) w)))"
proof -
  have one: "adds 2 s (snd (write_one X (logged E) g r s))" for g r s
    by (simp add: write_one_def logged_writes)
  have loop: "adds 2 s (snd (snd (write_loop X (logged E) g is pc s)))" for g "is" pc s
    unfolding write_loop_each by (rule adds.each_keeps) (rule one)
  let ?g = "restore_stack_pointer X (fst w)"
  obtain ok pc s where L: "write_loop X (logged E) ?g [0..<reg X XED_REG_LAST] (reg X XED_REG_INVALID) (snd w) = (ok, pc, s)"
    by (metis prod_cases3)
  have "adds 2 (snd w) s"
    using loop [of "snd w" ?g "[0..<reg X XED_REG_LAST]" "reg X XED_REG_INVALID"] by (simp only: L snd_conv)
  moreover obtain ok2 s2 where O: "write_one X (logged E) ?g pc s = (ok2, s2)" by (metis surj_pair)
  then have "adds 2 s s2" using one by (metis snd_conv)
  ultimately show ?thesis
    using adds.R_trans [of 2 "snd w" s s2] by (simp add: WriteRegisters_def L O adds.R_refl Let_def del: upt_Suc)
qed

section \<open>The writes of an instruction\<close>

definition write_errors :: "ExecutorStatus set" where
  "write_errors = {kErrorWriteMem, kErrorWriteFPU, kErrorWriteFlags, kErrorWriteReg}"

text \<open>What an execution that ends with status \<open>st\<close> may have written.\<close>

definition wrote :: "ExecutorStatus \<Rightarrow> ('s \<times> written list) world \<Rightarrow> ('s \<times> written list) world \<Rightarrow> bool" where
  "wrote st w w' \<longleftrightarrow> (\<exists>l. snd (snd w') = snd (snd w) @ l \<and> sorted (map phase l) \<and>
     (st \<notin> insert kGood write_errors \<longrightarrow> l = []))"

lemma wrote_nothing: "looks snd w w' \<Longrightarrow> wrote st w w'"
  by (auto simp: wrote_def looks_def intro: exI [of _ "[]"])

lemma wrote_or_return:
  assumes "or_return a err k w = Some (st, w')" and "looks snd w (snd (a w))"
    and "\<And>w1. k w1 = Some (st, w') \<Longrightarrow> wrote st w1 w'"
  shows "wrote st w w'"
proof -
  obtain ok w1 where Pair: "a w = (ok, w1)" by (metis surj_pair)
  have l: "looks snd w w1" using assms(2) Pair by simp
  show ?thesis
  proof (cases ok)
    case True
    then have "wrote st w1 w'" using assms(1,3) Pair by (simp add: or_return_def)
    then show ?thesis using l by (simp add: wrote_def looks_def)
  next
    case False
    then show ?thesis using assms(1) l Pair by (simp add: or_return_def wrote_nothing)
  qed
qed

lemma report_back_adds:
  assumes "report_back X (logged E) npc w = Some (st, w')"
  shows "adds 2 (snd w) (snd w') \<and> st \<in> insert kGood write_errors"
proof -
  obtain ok w1 where 1: "WriteFlags X (logged E) w = (ok, w1)" by (metis surj_pair)
  have a1: "adds 2 (snd w) (snd w1)" using WriteFlags_adds [of w X E] 1 by simp
  obtain ok2 w2 where 2: "WriteRegisters X (logged E) (SetNextPC X npc (fst w1), snd w1) = (ok2, w2)"
    by (metis surj_pair)
  have "adds 2 (snd w1) (snd w2)"
    using WriteRegisters_adds [of "(SetNextPC X npc (fst w1), snd w1)" X E] 2 by simp
  then show ?thesis
    using assms 1 2 a1 adds.R_trans [of 2 "snd w" "snd w1" "snd w2"]
    by (cases ok; cases ok2) (auto simp: report_back_def or_return_def write_errors_def)
qed

lemma adds_wrote: "adds k (snd w) (snd w') \<Longrightarrow> st \<in> insert kGood write_errors \<Longrightarrow> wrote st w w'"
proof -
  assume "adds k (snd w) (snd w')" and st: "st \<in> insert kGood write_errors"
  then obtain l where l: "snd (snd w') = snd (snd w) @ l" "\<forall>c \<in> set l. phase c = k"
    by (auto simp: adds_def)
  then have "map phase l = replicate (length l) k" by (intro replicate_eqI) auto
  then show ?thesis using l(1) st unfolding wrote_def by (intro exI [of _ l]) auto
qed

text \<open>Later phases after earlier ones.\<close>

lemma adds_then_wrote:
  assumes "adds k (snd w) (snd w1)" and "\<exists>l. snd (snd w') = snd (snd w1) @ l \<and> sorted (map phase l) \<and>
      (\<forall>c \<in> set l. k \<le> phase c)"
  shows "\<exists>l. snd (snd w') = snd (snd w) @ l \<and> sorted (map phase l) \<and> (\<forall>c \<in> set l. k \<le> phase c)"
proof -
  obtain l l' where "snd (snd w1) = snd (snd w) @ l" "\<forall>c \<in> set l. phase c = k"
    "snd (snd w') = snd (snd w1) @ l'" "sorted (map phase l')" "\<forall>c \<in> set l'. k \<le> phase c"
    using assms by (auto simp: adds_def)
  moreover from this have "map phase l = replicate (length l) k" by (intro replicate_eqI) auto
  ultimately show ?thesis by (intro exI [of _ "l @ l'"]) (auto simp: sorted_append)
qed

lemma adds_sorted:
  "adds k s s' \<Longrightarrow> j \<le> k \<Longrightarrow> \<exists>l. snd s' = snd s @ l \<and> sorted (map phase l) \<and> (\<forall>c \<in> set l. j \<le> phase c)"
proof -
  assume "adds k s s'" "j \<le> k"
  then obtain l where "snd s' = snd s @ l" "\<forall>c \<in> set l. phase c = k" by (auto simp: adds_def)
  moreover from this have "map phase l = replicate (length l) k" by (intro replicate_eqI) auto
  ultimately show ?thesis using \<open>j \<le> k\<close> by (intro exI [of _ l]) auto
qed

lemma commit_wrote:
  assumes "commit X (logged E) npc w = Some (st, w')"
  shows "wrote st w w'"
proof -
  obtain ok w1 where 1: "WriteMemory (logged E) w = (ok, w1)" by (metis surj_pair)
  have a1: "adds 0 (snd w) (snd w1)" using WriteMemory_adds [of w E] 1 by simp
  obtain ok2 w2 where 2: "fpu_write (logged E) w1 = (ok2, w2)" by (metis surj_pair)
  have a2: "adds 1 (snd w1) (snd w2)" using fpu_write_adds [of w1 E] 2 by simp
  define g where "g = (if gUsesMMX (fst w2) then CopyMMXStateFromFPU X (logged E) (fst w2) else fst w2)"
  have "Some (st, w') = (if ok then if ok2 then report_back X (logged E) npc (g, snd w2)
      else Some (kErrorWriteFPU, w2) else Some (kErrorWriteMem, w1))"
    using assms by (simp add: commit_def or_return_def 1 2 g_def cong: if_cong)
  then consider "\<not> ok" "w' = w1" "st = kErrorWriteMem" | "ok" "\<not> ok2" "w' = w2" "st = kErrorWriteFPU"
    | "report_back X (logged E) npc (g, snd w2) = Some (st, w')"
    by (cases ok; cases ok2) simp_all
  then show ?thesis
  proof cases
    case 1
    then show ?thesis using a1 adds_wrote [of 0 w w1 st] by (simp add: write_errors_def)
  next
    case 2
    have "\<exists>l. snd (snd w2) = snd (snd w) @ l \<and> sorted (map phase l) \<and> (\<forall>c \<in> set l. 0 \<le> phase c)"
      by (rule adds_then_wrote [OF a1]) (rule adds_sorted [OF a2], simp)
    then show ?thesis using 2 by (auto simp: wrote_def write_errors_def)
  next
    case 3
    from report_back_adds [OF 3] have a3: "adds 2 (snd w2) (snd w')" and st: "st \<in> insert kGood write_errors"
      by simp_all
    have "\<exists>l. snd (snd w') = snd (snd w1) @ l \<and> sorted (map phase l) \<and> (\<forall>c \<in> set l. 1 \<le> phase c)"
      by (rule adds_then_wrote [OF a2]) (rule adds_sorted [OF a3], simp)
    then have "\<exists>l. snd (snd w') = snd (snd w1) @ l \<and> sorted (map phase l) \<and> (\<forall>c \<in> set l. 0 \<le> phase c)"
      by blast
    from adds_then_wrote [OF a1 this] st show ?thesis by (auto simp: wrote_def)
  qed
qed

lemma operate_wrote: "operate X H (logged E) npc w = Some (st, w') \<Longrightarrow> wrote st w w'"
  unfolding operate_def
proof (erule wrote_or_return)
  show "looks snd w (snd (fpu_read (logged E) w))" by (rule logged.fpu_read_looks)
next
  fix w1 :: "('a \<times> written list) world"
  let ?w2 = "(if gUsesMMX (fst w1) then CopyMMXStateToFPU X (logged E) (fst w1) else fst w1, snd w1)"
  assume r: "or_return (ReadMemory X (logged E)) kErrorReadMem (\<lambda>w. case perform X H (logged E) npc (fst w) of
       None \<Rightarrow> None
     | Some (st, npc', g) \<Rightarrow>
         if st \<noteq> kGood then Some (st, g, snd w) else commit X (logged E) npc' (g, snd w)) ?w2 = Some (st, w')"
  have "wrote st ?w2 w'"
  proof (rule wrote_or_return [OF r])
    show "looks snd ?w2 (snd (ReadMemory X (logged E) ?w2))" by (rule logged.ReadMemory_looks)
  next
    fix v :: "('a \<times> written list) world"
    assume "(case perform X H (logged E) npc (fst v) of None \<Rightarrow> None
     | Some (st, npc', g) \<Rightarrow>
         if st \<noteq> kGood then Some (st, g, snd v) else commit X (logged E) npc' (g, snd v)) = Some (st, w')"
    then consider g where "w' = (g, snd v)" | npc' g where "commit X (logged E) npc' (g, snd v) = Some (st, w')"
      by (auto split: option.splits if_splits)
    then show "wrote st v w'"
    proof cases
      case 1
      then show ?thesis by (intro wrote_nothing) (simp add: looks_def)
    next
      case 2
      then have "wrote st (g, snd v) w'" by (rule commit_wrote)
      then show ?thesis by (simp add: wrote_def)
    qed
  qed
  then show "wrote st w1 w'" by (simp add: wrote_def)
qed

lemma decoded_wrote: "decoded X H (logged E) w = Some (st, w') \<Longrightarrow> wrote st w w'"
proof (cases "UsesUnsupportedFeatures (logged E) (fst w)")
  case True
  assume "decoded X H (logged E) w = Some (st, w')"
  with True show ?thesis by (auto simp: decoded_def intro: wrote_nothing looks.R_refl)
next
  case False
  assume d: "decoded X H (logged E) w = Some (st, w')"
  have last: "(let npc = GetNextPC X (logged E) (fst v) in if is_nop (fst v) then report_back X (logged E) npc v
      else operate X H (logged E) npc v) = Some (st, w') \<Longrightarrow> wrote st v w'" for v
  proof -
    let ?npc = "GetNextPC X (logged E) (fst v)"
    assume "(let npc = GetNextPC X (logged E) (fst v) in if is_nop (fst v) then report_back X (logged E) npc v
      else operate X H (logged E) npc v) = Some (st, w')"
    then consider "report_back X (logged E) ?npc v = Some (st, w')" | "operate X H (logged E) ?npc v = Some (st, w')"
      by (auto simp: Let_def split: if_splits)
    then show "wrote st v w'"
    proof cases
      case 1
      from report_back_adds [OF this] show ?thesis using adds_wrote by blast
    next
      case 2
      then show ?thesis by (rule operate_wrote)
    qed
  qed
  have mid: "or_return (ReadRegisters X (logged E)) kErrorReadReg (\<lambda>w.
      let npc = GetNextPC X (logged E) (fst w) in if is_nop (fst w) then report_back X (logged E) npc w
      else operate X H (logged E) npc w) v = Some (st, w') \<Longrightarrow> wrote st v w'" for v
    by (erule wrote_or_return) (rule logged.ReadRegisters_looks, rule last)
  have "or_return (ReadFlags X H (logged E)) kErrorReadFlags (or_return (ReadRegisters X (logged E)) kErrorReadReg (\<lambda>w.
      let npc = GetNextPC X (logged E) (fst w) in if is_nop (fst w) then report_back X (logged E) npc w
      else operate X H (logged E) npc w)) w = Some (st, w')"
    using d False by (simp add: decoded_def)
  then show ?thesis by (rule wrote_or_return) (rule logged.ReadFlags_looks, rule mid)
qed

lemma ExecuteOne_wrote: "ExecuteOne X H (logged E) w = Some (st, w') \<Longrightarrow> wrote st w w'"
proof -
  assume "ExecuteOne X H (logged E) w = Some (st, w')"
  then have "wrote st (reset_instruction X (fst w), snd w) w'"
    unfolding ExecuteOne_def
  proof (rule wrote_or_return)
    show "looks snd (reset_instruction X (fst w), snd w)
        (snd (ReadPC X (logged E) (reset_instruction X (fst w), snd w)))"
      by (rule logged.ReadPC_looks)
  next
    fix v :: "('a \<times> written list) world"
    assume k: "(case FetchInstruction X (logged E) v of (n, w) \<Rightarrow>
        if n = 0 then Some (kErrorReadInstMem, w)
        else or_return (on_globals (\<lambda>g. DecodeInstruction X (word_bytes n (idata g)) (addr_size (logged E)) g))
          kErrorDecode (decoded X H (logged E)) w) = Some (st, w')"
    obtain n u where F: "FetchInstruction X (logged E) v = (n, u)" by (metis surj_pair)
    then have l: "looks snd v u" using logged.FetchInstruction_looks [of v X E] by simp
    have "wrote st u w'"
    proof (cases "n = 0")
      case True
      with k F show ?thesis by (simp add: wrote_nothing looks.R_refl)
    next
      case False
      with k F have "or_return (on_globals (\<lambda>g. DecodeInstruction X (word_bytes n (idata g)) (addr_size (logged E)) g))
          kErrorDecode (decoded X H (logged E)) u = Some (st, w')" by simp
      then show ?thesis
        by (rule wrote_or_return) (simp add: looks_def on_globals_def split: prod.splits, rule decoded_wrote)
    qed
    with l show "wrote st v w'" by (simp add: wrote_def looks_def)
  qed
  then show "wrote st w w'" by (simp add: wrote_def)
qed

text \<open>
  C14: whatever the executor does, an instruction writes memory before the FPU and the FPU
  before any register or flag, and an instruction that ends with an error other than one of
  the four write errors has written nothing at all.
\<close>

theorem Execute_writes:
  assumes "Execute X H (logged E) 1 (g, s, log) = Some (st, g', s', log')"
  shows "\<exists>l. log' = log @ l \<and> sorted (map phase l) \<and>
    (st \<notin> {kGood, kErrorWriteMem, kErrorWriteFPU, kErrorWriteFlags, kErrorWriteReg} \<longrightarrow> l = [])"
proof -
  have "wrote st (g, s, log) (g', s', log')"
  proof (cases "gIsInitialized g")
    case True
    then obtain st1 w1 where e: "ExecuteOne X H (logged E) (g, s, log) = Some (st1, w1)"
      "st = st1" "w1 = (g', s', log')"
      using assms by (auto simp: Execute_def split: option.splits if_splits)
    then show ?thesis using ExecuteOne_wrote by blast
  next
    case False
    then show ?thesis using assms by (auto simp: Execute_def intro: wrote_nothing looks.R_refl)
  qed
  then show ?thesis by (simp add: wrote_def write_errors_def)
qed

text \<open>The sample instruction with a category that is not supported.\<close>

definition refused_xed :: xed where
  "refused_xed = sample_xed\<lparr>xed_decode := (\<lambda>st bs. (True, sample_inst\<lparr>get_category := XED_CATEGORY_SYSCALL\<rparr>))\<rparr>"

theorem Execute_writes_witness:
  "\<exists>g' s' log'. Execute refused_xed sample_host (logged (sample_executor 64)) 1 (sample_gstate, [], []) =
     Some (kErrorUnsupportedFeatures, g', s', log') \<and> log' = []"
proof -
  let ?r = "Execute refused_xed sample_host (logged (sample_executor 64)) 1 (sample_gstate, [], [])"
  have "map_option fst ?r = Some kErrorUnsupportedFeatures" by code_simp
  then obtain g' s' log' where r: "?r = Some (kErrorUnsupportedFeatures, g', s', log')" by auto
  from Execute_writes [OF this] r show ?thesis by simp
qed

section \<open>Fetching\<close>

text \<open>
  From a memory whose readability at the fetch address depends only on the number of
  bytes asked for, \<open>fetch\<close> takes the largest readable number of bytes up to the limit (0 if
  none is readable).
\<close>

theorem fetch_longest:
  assumes "\<And>k v s. fst (ReadMem E pc (k * 8) kReadExecutable v s) = ok k"
  shows "fst (fetch E pc n w) = Max (insert 0 {k. k \<le> n \<and> ok k})"
proof (induction n arbitrary: w)
  case 0
  have eq: "insert 0 {k. k \<le> 0 \<and> ok k} = {0}" by auto
  show ?case unfolding eq by simp
next
  case (Suc n)
  obtain b d s where R: "ReadMem E pc (Suc n * 8) kReadExecutable (idata (fst w)) (snd w) = (b, d, s)"
    by (metis prod_cases3)
  then have b: "b = ok (Suc n)" using assms [of "Suc n"] by (metis fst_conv)
  show ?case
  proof (cases "ok (Suc n)")
    case True
    have "Max (insert 0 {k. k \<le> Suc n \<and> ok k}) = Suc n"
      using True by (intro Max_eqI) auto
    then show ?thesis using R b True by simp
  next
    case False
    then have "{k. k \<le> Suc n \<and> ok k} = {k. k \<le> n \<and> ok k}" by (auto simp: le_Suc_eq)
    then show ?thesis using R b False Suc.IH by simp
  qed
qed

text \<open>Two readable bytes at the end of a page.\<close>

definition short_executor :: "sample_call list executor" where
  "short_executor = (sample_executor 64)\<lparr>ReadMem := (\<lambda>a n _ d l. (n \<le> 16, d, l @ [CallReadMem a n]))\<rparr>"

theorem fetch_longest_witness:
  "fst (fetch short_executor 0xFFE 15 (sample_gstate, [])) = 2"
proof -
  have "\<And>k v s. fst (ReadMem short_executor 0xFFE (k * 8) kReadExecutable v s) = (k \<le> 2)"
    by (auto simp: short_executor_def)
  from fetch_longest [OF this, of 15 "(sample_gstate, [])"]
  have "fst (fetch short_executor 0xFFE 15 (sample_gstate, [])) = Max (insert 0 {k. k \<le> 15 \<and> k \<le> 2})" .
  also have "\<dots> = 2" by (intro Max_eqI) auto
  finally show ?thesis .
qed

end
