(* ===== verification/Lifecycle.thy ===== *)
theory Lifecycle
  imports ExecProps
begin

text \<open>
  The life of the globals: \<open>Init\<close> makes them usable once, every execution keeps them
  usable, and an execution of several instructions is the sequence of the executions of
  its parts; the end-to-end execution of an instruction without operands.
\<close>

section \<open>Nothing but Init initialises\<close>

definition same_init :: "'s world \<Rightarrow> 's world \<Rightarrow> bool" where
  "same_init w w' \<longleftrightarrow> gIsInitialized (fst w') = gIsInitialized (fst w) \<and>
     gSignalHandler (fst w') = gSignalHandler (fst w) \<and> disposition (fst w') = disposition (fst w)"

interpretation init: step_relation same_init
  by unfold_locales (simp_all add: same_init_def)

text \<open>Where the memory operands are, and which of them are written: what \<open>WriteMemory\<close> takes
  from the slots besides the data.\<close>

definition slots_of :: "gstate \<Rightarrow> nat \<Rightarrow> bool \<times> bool \<times> u64 \<times> nat" where
  "slots_of g = (\<lambda>k. (present (gMemory g k), write_back (gMemory g k), maddress (gMemory g k), msize (gMemory g k)))"

lemma slots_of_cong: "gMemory h = gMemory g \<Longrightarrow> slots_of h = slots_of g"
  by (simp add: slots_of_def)

lemma slots_of_updates [simp]:
  "slots_of (g\<lparr>gXedd := x0\<rparr>) = slots_of g" "slots_of (g\<lparr>gEmu := x1\<rparr>) = slots_of g"
  "slots_of (g\<lparr>gEmuSize := x2\<rparr>) = slots_of g" "slots_of (g\<lparr>gExecArea := x3\<rparr>) = slots_of g"
  "slots_of (g\<lparr>gUsedRegs := x4\<rparr>) = slots_of g" "slots_of (g\<lparr>gModifiedRegs := x5\<rparr>) = slots_of g"
  "slots_of (g\<lparr>gStoreRegs := x6\<rparr>) = slots_of g" "slots_of (g\<lparr>gRegs := x7\<rparr>) = slots_of g"
  "slots_of (g\<lparr>gStackPtrAlias := x8\<rparr>) = slots_of g" "slots_of (g\<lparr>gUsesFPU := x9\<rparr>) = slots_of g"
  "slots_of (g\<lparr>gUsesMMX := x10\<rparr>) = slots_of g" "slots_of (g\<lparr>gFPU := x11\<rparr>) = slots_of g"
  "slots_of (g\<lparr>gNativeFPU := x12\<rparr>) = slots_of g" "slots_of (g\<lparr>gSignal := x13\<rparr>) = slots_of g"
  "slots_of (g\<lparr>gWriteBackFlags := x14\<rparr>) = slots_of g" "slots_of (g\<lparr>gIsInitialized := x15\<rparr>) = slots_of g"
  "slots_of (g\<lparr>gSIGILL := x16\<rparr>) = slots_of g" "slots_of (g\<lparr>gSIGSEGV := x17\<rparr>) = slots_of g"
  "slots_of (g\<lparr>gSIGBUS := x18\<rparr>) = slots_of g" "slots_of (g\<lparr>gSIGFPE := x19\<rparr>) = slots_of g"
  "slots_of (g\<lparr>disposition := x20\<rparr>) = slots_of g" "slots_of (g\<lparr>idata := x21\<rparr>) = slots_of g"
  "slots_of (h\<lparr>gMemory := (gMemory g)(k := (gMemory g k)\<lparr>mdata := d\<rparr>)\<rparr>) = slots_of g"
  "slots_of (h\<lparr>gMemory := (gMemory g)(k := (gMemory g k)\<lparr>mem_op := mo\<rparr>)\<rparr>) = slots_of g"
  by (auto simp: slots_of_def fun_eq_iff)

text \<open>What the operations on the globals between the reading and the reporting of registers
  leave alone: whether the globals are initialised, which registers are in use, where the
  memory operands are, and the signal handlers.\<close>

abbreviation kept :: "gstate \<Rightarrow> gstate \<Rightarrow> bool" where
  "kept h g \<equiv> gIsInitialized h = gIsInitialized g \<and> gUsedRegs h = gUsedRegs g \<and> slots_of h = slots_of g \<and>
     gSignalHandler h = gSignalHandler g \<and> disposition h = disposition g"

lemma kept_updates [simp]:
  "kept (WriteGPR X r v g) g" "kept (set_memv k d g) g" "kept (set_aflag X d g) g"
  "kept (set_slot_low n r d g) g" "kept (update_operand i f g) g"
  "kept (set_mem0_data e g) g" "kept (SetNextPC X d g) g"
  by (simp_all add: WriteGPR_def WriteValue_def set_memv_def set_aflag_def set_slot_low_def
      update_operand_def set_mem0_data_def SetNextPC_def slots_of_def fun_eq_iff Let_def)

lemma kept_advance [simp]: "kept (advance X l r g) g" "kept (add_stack X l k g) g"
  by (simp_all add: advance_def add_stack_def Let_def)

lemma kept_strings [simp]:
  "kept (STOS X l g) g" "kept (LODS X l g) g" "kept (MOVS X l g) g"
  "kept (SCAS X H l g) g" "kept (CMPS X H l g) g" "kept (RDTSC X l g) g"
  by (simp_all add: STOS_def LODS_def MOVS_def SCAS_def CMPS_def RDTSC_def Let_def)

lemma kept_rep_round:
  "(\<And>g. kept (body g) g) \<Longrightarrow> kept (snd (snd (snd (rep_round X l again body g)))) g"
  by (simp add: rep_round_def handled_def Let_def)

lemma kept_Emulate [simp]: "kept (snd (snd (snd (Emulate X H E npc g)))) g"
  by (simp add: Emulate_def emulate_jcc_def handled_def rejected_def Let_def split: iform.split)
    (simp add: emulate_cfi_def emulate_str_def emulate_stk_def REP_def REPE_def REPNE_def kept_rep_round
      handled_def rejected_def Let_def split: iform_cfi.split iform_str.split iform_stk.split)

lemma kept_fold: "(\<And>x g. kept (f x g) g) \<Longrightarrow> kept (fold f xs g) g"
  by (induction xs arbitrary: g) simp_all

lemma kept_DecodeRegN [simp]: "kept (DecodeRegN X i r g) g"
  by (simp add: DecodeRegN_def GetStackPointerAlias_def Let_def)

lemma kept_EncodeOperand [simp]: "kept (EncodeOperand X name g) g"
  by (simp add: EncodeOperand_def DecodeMem0_def DecodeImm0_def DecodeImm1_def Let_def)

lemma kept_Create [simp]: "kept (CreateEncodableInstruction X g) g"
  unfolding CreateEncodableInstruction_def by (rule kept_fold) simp

lemma kept_EncodeRequest: "EncodeRequest X g = (ok, g') \<Longrightarrow> kept g' g"
  by (auto simp: EncodeRequest_def split: if_splits option.splits)

lemma kept_EncodeInstruction:
  assumes "EncodeInstruction X H g = Some (ok, g')"
  shows "kept g' g"
proof -
  define h where "h = (CreateEncodableInstruction X g)
    \<lparr>gExecArea := overwrite (replicate 32 0xC3) (gExecArea (CreateEncodableInstruction X g))\<rparr>"
  obtain b k where e: "EncodeRequest X h = (b, k)" by fastforce
  have h: "kept h g" by (simp add: h_def)
  have k: "kept k h" by (rule kept_EncodeRequest [OF e])
  have "g' = k \<or> (\<exists>op f. EncodeRequest X (update_operand op f k) = (ok, g'))"
    using assms unfolding EncodeInstruction_def Let_def h_def [symmetric] e
    by (simp split: if_splits option.splits) blast+
  then show ?thesis
  proof
    assume "g' = k"
    with h k show ?thesis by simp
  next
    assume "\<exists>op f. EncodeRequest X (update_operand op f k) = (ok, g')"
    then obtain op f where "EncodeRequest X (update_operand op f k) = (ok, g')" by blast
    from kept_EncodeRequest [OF this] h k show ?thesis by simp
  qed
qed

text \<open>The run itself also leaves alone the handlers to go back to.\<close>

abbreviation kept_run :: "gstate \<Rightarrow> gstate \<Rightarrow> bool" where
  "kept_run h g \<equiv> kept h g \<and> gSIGILL h = gSIGILL g \<and> gSIGBUS h = gSIGBUS g \<and>
     gSIGSEGV h = gSIGSEGV g \<and> gSIGFPE h = gSIGFPE g"

lemma kept_run_fold: "(\<And>x g. kept_run (f x g) g) \<Longrightarrow> kept_run (fold f xs g) g"
  by (induction xs arbitrary: g) simp_all

lemma kept_native [simp]:
  "kept_run (set_gprs X vs g) g" "kept_run (set_xmms X xs g) g" "kept_run (set_aflag X d g) g"
  "kept_run (set_mem0_data e g) g"
  unfolding set_gprs_def set_xmms_def set_aflag_def set_mem0_data_def set_slot_low_def
  by (rule kept_run_fold; auto split: prod.splits)+ simp_all

lemma kept_call:
  "LoadFPU H E g = Some (fpu, g') \<Longrightarrow> kept_run g' g"
  "ExecuteNative X H fpu g = Some (fpu', g') \<Longrightarrow> kept_run g' g"
  "kept_run (snd (StoreFPU H E fpu g)) g"
  "kept_run (ExecuteNativeAVX g) g" "kept_run (ExecuteNativeAVX512 g) g"
  by (auto simp: LoadFPU_def StoreFPU_def ExecuteNative_def RecoverFromError_def leave_native_def
      ExecuteNativeAVX_def ExecuteNativeAVX512_def split: native_outcome.splits if_splits)

lemma restore_install:
  "kept_run h (install_handlers g) \<Longrightarrow> kept (restore_handlers h) g"
  by (auto simp: restore_handlers_def install_handlers_def)

lemma kept_run_encoded:
  assumes "run_encoded X H E g = Some g'"
  shows "kept g' g"
proof -
  let ?g = "install_handlers (g\<lparr>gSignal := None\<rparr>)"
  obtain fpu g1 where l: "LoadFPU H E ?g = Some (fpu, g1)"
    using assms by (auto simp: run_encoded_def split: option.splits)
  obtain fpu' g2 where x: "(if has_avx512 E then Some (fpu, ExecuteNativeAVX512 g1)
      else if has_avx E then Some (fpu, ExecuteNativeAVX g1) else ExecuteNative X H fpu g1) = Some (fpu', g2)"
    and g': "g' = restore_handlers (snd (StoreFPU H E fpu' g2))"
    using assms l by (auto simp: run_encoded_def split: option.splits)
  have "kept_run g2 g1" using x kept_call(2,4,5) by (auto split: if_splits)
  then have "kept_run (snd (StoreFPU H E fpu' g2)) ?g"
    using kept_call(1) [OF l] kept_call(3) [of H E fpu' g2] by simp
  then show ?thesis using restore_install [of _ "g\<lparr>gSignal := None\<rparr>"] unfolding g' by simp
qed

lemma kept_perform: "perform X H E npc g = Some (st, npc', g') \<Longrightarrow> kept g' g"
proof -
  obtain ok pc est g1 where e: "Emulate X H E npc g = (ok, pc, est, g1)" by (metis prod_cases4)
  then have i: "kept g1 g" using kept_Emulate [of X H E npc g] by simp
  assume "perform X H E npc g = Some (st, npc', g')"
  with e i show "kept g' g"
    by (auto simp: perform_def Let_def split: if_splits option.splits
        dest!: kept_EncodeInstruction kept_run_encoded)
qed

lemma kept_CopyMMX [simp]:
  "kept (CopyMMXStateToFPU X E g) g" "kept (CopyMMXStateFromFPU X E g) g"
  unfolding CopyMMXStateToFPU_def CopyMMXStateFromFPU_def
  by (rule kept_fold; simp add: COPY_FROM_MMX_def COPY_TO_MMX_def)+

section \<open>The operations on worlds\<close>

lemma same_inst_init: "same_inst w w' \<Longrightarrow> same_init w w'"
  by (simp add: same_inst_def same_init_def)

lemma ReadPC_init: "same_init w (snd (ReadPC X E w))"
  using ReadRegister_same [of "(g, snd w)" X E for g]
  by (simp add: ReadPC_def same_init_def same_inst_def Let_def)

lemma ReadFlags_init: "same_init w (snd (ReadFlags X H E w))"
  by (auto simp: ReadFlags_def same_init_def Let_def split: option.splits prod.splits)

lemma fetch_init: "same_init w (snd (fetch E pc n w))"
proof (induction n arbitrary: w)
  case 0
  then show ?case by (simp add: init.R_refl)
next
  case (Suc n)
  show ?case
    using Suc.IH [of "((fst w)\<lparr>idata := d\<rparr>, s)" for d s]
    by (auto simp: same_init_def split: prod.splits)
qed

lemma FetchInstruction_init: "same_init w (snd (FetchInstruction X E w))"
  using fetch_init [of "(fst w, s)" E for s]
  by (auto simp: FetchInstruction_def same_init_def split: prod.splits)

lemma Decode_init: "same_init w (snd (on_globals (\<lambda>g. DecodeInstruction X (bs g) n g) w))"
  by (auto simp: on_globals_def DecodeInstruction_def same_init_def Let_def split: prod.splits)

lemma fpu_init: "same_init w (snd (fpu_read E w))" "same_init w (snd (fpu_write E w))"
  by (auto simp: fpu_read_def fpu_write_def same_init_def split: prod.splits)

lemma kept_adjust: "kept (snd (adjust_displacement X k r d g)) g"
  by (auto simp: adjust_displacement_def GetBitOpByteOffset_def Let_def split: iform.splits prod.splits)

lemma ReadMemoryOperand_init: "same_init w (snd (ReadMemoryOperand X E xedo k w))"
  using kept_adjust
  by (simp add: ReadMemoryOperand_def same_init_def Let_def split: prod.splits) (metis snd_conv)

lemma ReadMemory_init: "same_init w (snd (ReadMemory X E w))"
proof -
  have "same_init w' (snd (case mem_slot (operand_name xedo) of None \<Rightarrow> (True, w')
      | Some k \<Rightarrow> ReadMemoryOperand X E xedo k w'))" for xedo w'
    by (simp add: ReadMemoryOperand_init init.R_refl split: option.splits)
  then have "same_init (clear_present (fst w), snd w) (snd (ReadMemory X E w))"
    unfolding ReadMemory_def by (intro init.each_keeps)
  then show ?thesis by (simp add: same_init_def clear_present_def)
qed

lemma WriteMemory_init: "same_init w (snd (WriteMemory E w))"
  by (simp add: WriteMemory_def same_init_def split: prod.splits)

lemma WriteFlags_init: "same_init w (snd (WriteFlags X E w))"
  by (simp add: WriteFlags_def same_init_def Let_def split: prod.splits)

lemma WriteRegisters_init: "same_init w (snd (WriteRegisters X E w))"
  by (simp add: WriteRegisters_def same_init_def restore_stack_pointer_def Let_def del: upt_Suc split: prod.splits)

lemma report_back_init: "report_back X E npc w = Some (st, w') \<Longrightarrow> same_init w w'"
  unfolding report_back_def
proof (erule init.or_return_keeps [OF _ WriteFlags_init])
  fix v assume "or_return (WriteRegisters X E) kErrorWriteReg (\<lambda>w. Some (kGood, w)) (SetNextPC X npc (fst v), snd v) = Some (st, w')"
  then have "same_init (SetNextPC X npc (fst v), snd v) w'"
    by (rule init.or_return_keeps [OF _ WriteRegisters_init]) (simp add: init.R_refl)
  then show "same_init v w'" by (simp add: same_init_def)
qed

lemma commit_init: "commit X E npc w = Some (st, w') \<Longrightarrow> same_init w w'"
  unfolding commit_def
proof (erule init.or_return_keeps [OF _ WriteMemory_init], erule init.or_return_keeps [OF _ fpu_init(2)])
  fix v assume "report_back X E npc (if gUsesMMX (fst v) then CopyMMXStateFromFPU X E (fst v) else fst v, snd v) = Some (st, w')"
  from report_back_init [OF this] show "same_init v w'" by (simp add: same_init_def split: if_splits)
qed

lemma operate_init: "operate X H E npc w = Some (st, w') \<Longrightarrow> same_init w w'"
  unfolding operate_def
proof (erule init.or_return_keeps [OF _ fpu_init(1)])
  fix v :: "'a world"
  let ?v = "(if gUsesMMX (fst v) then CopyMMXStateToFPU X E (fst v) else fst v, snd v)"
  assume "or_return (ReadMemory X E) kErrorReadMem (\<lambda>w. case perform X H E npc (fst w) of
       None \<Rightarrow> None
     | Some (st, npc', g) \<Rightarrow>
         if st \<noteq> kGood then Some (st, g, snd w) else commit X E npc' (g, snd w)) ?v = Some (st, w')"
  then have "same_init ?v w'"
  proof (rule init.or_return_keeps [OF _ ReadMemory_init])
    fix u assume "(case perform X H E npc (fst u) of None \<Rightarrow> None
     | Some (st, npc', g) \<Rightarrow>
         if st \<noteq> kGood then Some (st, g, snd u) else commit X E npc' (g, snd u)) = Some (st, w')"
    then obtain st1 npc1 g1 where p: "perform X H E npc (fst u) = Some (st1, npc1, g1)"
      and k: "(if st1 \<noteq> kGood then Some (st1, g1, snd u) else commit X E npc1 (g1, snd u)) = Some (st, w')"
      by (auto split: option.splits)
    have "same_init (g1, snd u) w'"
      using k commit_init [of X E npc1 "(g1, snd u)" st w'] by (auto simp: init.R_refl split: if_splits)
    then show "same_init u w'" using kept_perform [OF p] by (simp add: same_init_def)
  qed
  then show "same_init v w'" by (simp add: same_init_def split: if_splits)
qed

lemma decoded_init: "decoded X H E w = Some (st, w') \<Longrightarrow> same_init w w'"
proof -
  assume d: "decoded X H E w = Some (st, w')"
  show ?thesis
  proof (cases "UsesUnsupportedFeatures E (fst w)")
    case True
    with d show ?thesis by (simp add: decoded_def init.R_refl)
  next
    case False
    with d have "or_return (ReadFlags X H E) kErrorReadFlags (or_return (ReadRegisters X E) kErrorReadReg (\<lambda>w.
        let npc = GetNextPC X E (fst w) in
        if is_nop (fst w) then report_back X E npc w else operate X H E npc w)) w = Some (st, w')"
      by (simp add: decoded_def)
    then show ?thesis
      by (elim init.or_return_keeps [OF _ ReadFlags_init] init.or_return_keeps [OF _ same_inst_init [OF ReadRegisters_same]])
        (auto simp: Let_def split: if_splits dest: report_back_init operate_init)
  qed
qed

lemma ExecuteOne_init: "ExecuteOne X H E w = Some (st, w') \<Longrightarrow> same_init w w'"
proof -
  assume "ExecuteOne X H E w = Some (st, w')"
  then have "same_init (reset_instruction X (fst w), snd w) w'"
    unfolding ExecuteOne_def
  proof (rule init.or_return_keeps [OF _ ReadPC_init])
    fix v
    assume k: "(case FetchInstruction X E v of (n, w) \<Rightarrow>
        if n = 0 then Some (kErrorReadInstMem, w)
        else or_return (on_globals (\<lambda>g. DecodeInstruction X (word_bytes n (idata g)) (addr_size E) g))
          kErrorDecode (decoded X H E) w) = Some (st, w')"
    obtain n u where F: "FetchInstruction X E v = (n, u)" by (metis surj_pair)
    have "same_init u w'"
    proof (cases "n = 0")
      case True
      with k F show ?thesis by (simp add: init.R_refl)
    next
      case False
      with k F have "or_return (on_globals (\<lambda>g. DecodeInstruction X (word_bytes n (idata g)) (addr_size E) g))
          kErrorDecode (decoded X H E) u = Some (st, w')" by simp
      then show ?thesis by (rule init.or_return_keeps [OF _ Decode_init decoded_init])
    qed
    with F FetchInstruction_init [of v X E] show "same_init v w'" by (simp add: same_init_def)
  qed
  then show "same_init w w'" by (simp add: same_init_def reset_instruction_def)
qed

section \<open>Initialisation\<close>

text \<open>
  Before \<open>Init\<close> every execution of at least one instruction fails without touching
  anything; \<open>Init\<close> succeeds exactly when the page can be mapped (or has been), leaves
  cleared registers and a full executable page behind, and a second call changes nothing.
\<close>

theorem Init_lifecycle:
  "(\<not> gIsInitialized g \<longrightarrow> Execute X Ho E (Suc n) (g, s) = Some (kErrorNotInitialized, g, s)) \<and>
   (let (ok, g') = Init Ho g in
      ok = (gIsInitialized g \<or> mmap_exec_area Ho (exec_area_address Ho)) \<and>
      gIsInitialized g' = ok \<and>
      (\<not> gIsInitialized g \<and> ok \<longrightarrow> gRegs g' = (\<lambda>_. 0) \<and> length (gExecArea g') = 4096) \<and>
      (ok \<longrightarrow> Init Ho g' = (True, g')))"
  by (auto simp: Execute_def Init_def kPageSize_def)

theorem Init_lifecycle_witness:
  "let (ok, g') = Init sample_host (sample_gstate\<lparr>gIsInitialized := False\<rparr>) in
   ok \<and> length (gExecArea g') = 4096 \<and> Init sample_host g' = (True, g')"
proof -
  obtain ok g' where i: "Init sample_host (sample_gstate\<lparr>gIsInitialized := False\<rparr>) = (ok, g')"
    by (metis surj_pair)
  have "mmap_exec_area sample_host (exec_area_address sample_host)" by (simp add: sample_host_def)
  then show ?thesis
    using Init_lifecycle [where g = "sample_gstate\<lparr>gIsInitialized := False\<rparr>" and X = sample_xed
      and Ho = sample_host and E = "sample_executor 64" and s = "[]" and n = 0] i
    by simp
qed

section \<open>Executing several instructions\<close>

lemma execute_loop_init: "execute_loop X H E n w = Some (st, w') \<Longrightarrow> same_init w w'"
proof (induction n arbitrary: w)
  case 0
  then show ?case by (simp add: init.R_refl)
next
  case (Suc n)
  obtain st1 w1 where one: "ExecuteOne X H E w = Some (st1, w1)"
    using Suc.prems by (auto split: option.splits)
  show ?case
  proof (cases "st1 = kGood")
    case True
    then have "same_init w1 w'" using Suc one by simp
    with ExecuteOne_init [OF one] show ?thesis by (rule init.R_trans)
  next
    case False
    then show ?thesis using Suc.prems one ExecuteOne_init [OF one] by simp
  qed
qed

lemma execute_loop_add:
  "execute_loop X H E (m + n) w = (case execute_loop X H E m w of
     None \<Rightarrow> None
   | Some (st, w') \<Rightarrow> if st = kGood then execute_loop X H E n w' else Some (st, w'))"
  by (induction m arbitrary: w) (auto split: option.splits)

text \<open>
  C36: executing \<open>m + n\<close> instructions in one call is the same as executing \<open>m\<close> in a first
  call and, if that succeeds, \<open>n\<close> in a second: an execution keeps nothing between
  instructions that a new call would lose (the buffer \<open>idata\<close>, overwritten by every
  fetch, is taken to keep its content).
\<close>

theorem Execute_add:
  "Execute X H E (m + n) w = (case Execute X H E m w of
     None \<Rightarrow> None
   | Some (st, w') \<Rightarrow> if st = kGood then Execute X H E n w' else Some (st, w'))"
proof (cases "m = 0 \<or> n = 0 \<or> \<not> gIsInitialized (fst w)")
  case True
  then show ?thesis by (auto simp: Execute_def split: option.splits)
next
  case False
  have "gIsInitialized (fst w')" if "execute_loop X H E m w = Some (st, w')" for st w'
    using execute_loop_init [OF that] False by (simp add: same_init_def)
  then show ?thesis
    using False by (auto simp: Execute_def execute_loop_add split: option.splits)
qed

end
