(* ===== verification/Abstraction.thy ===== *)
theory Abstraction
  imports ExecProps
begin

text \<open>
  Data refinement of executors: when the methods of one executor are those of another seen
  through an abstraction of the machine state, so are whole executions.
\<close>

section \<open>Loops and sequences through an abstraction\<close>

text \<open>\<open>h\<close> takes a concrete state to an abstract one; a call of the abstract side from an
  abstract state gives the answer and the abstract state of the concrete call.\<close>

fun through :: "('v \<Rightarrow> 'w) \<Rightarrow> 'a \<times> 'v \<Rightarrow> 'a \<times> 'w" where
  "through h (x, w) = (x, h w)"

lemma fst_through [simp]: "fst (through h p) = fst p"
  by (cases p) simp

lemma snd_through [simp]: "snd (through h p) = h (snd p)"
  by (cases p) simp

lemma each_abs:
  assumes "\<And>x w. x \<in> set xs \<Longrightarrow> f2 x (h w) = through h (f1 x w)"
  shows "each f2 xs (h w) = through h (each f1 xs w)"
  using assms
proof (induction xs arbitrary: w)
  case (Cons x xs)
  then show ?case by (simp split: prod.split)
qed simp

lemma and_also_abs:
  assumes "\<And>w. a2 (h w) = through h (a1 w)" and "\<And>w. b2 (h w) = through h (b1 w)"
  shows "and_also a2 b2 (h w) = through h (and_also a1 b1 w)"
  by (simp add: and_also_def assms split: prod.split)

lemma or_return_abs:
  assumes "\<And>w. a2 (h w) = through h (a1 w)" and "\<And>w. k2 (h w) = map_option (through h) (k1 w)"
  shows "or_return a2 err k2 (h w) = map_option (through h) (or_return a1 err k1 w)"
  by (simp add: or_return_def assms split: prod.split)

section \<open>Two executors\<close>

text \<open>Both announce the same address size and features.\<close>

locale same_features =
  fixes E1 :: "'s executor" and E2 :: "'t executor"
  assumes features: "addr_size E2 = addr_size E1" "has_avx E2 = has_avx E1" "has_avx512 E2 = has_avx512 E1"
begin

lemma WidestRegister_abs: "WidestRegister X E2 r = WidestRegister X E1 r"
  unfolding WidestRegister_def features by (rule refl)

text \<open>What consults the features of the executor only.\<close>

lemma pure_abs:
  "CopyMMXStateToFPU X E2 g = CopyMMXStateToFPU X E1 g" "CopyMMXStateFromFPU X E2 g = CopyMMXStateFromFPU X E1 g"
  "UsesUnsupportedFeatures E2 g = UsesUnsupportedFeatures E1 g" "GetNextPC X E2 g = GetNextPC X E1 g"
  "perform X H E2 npc g = perform X H E1 npc g"
proof -
  show "CopyMMXStateToFPU X E2 g = CopyMMXStateToFPU X E1 g" "CopyMMXStateFromFPU X E2 g = CopyMMXStateFromFPU X E1 g"
    by (simp_all add: CopyMMXStateToFPU_def CopyMMXStateFromFPU_def fpu_layout_def features)
  show "UsesUnsupportedFeatures E2 g = UsesUnsupportedFeatures E1 g"
    unfolding UsesUnsupportedFeatures_def features by (rule refl)
  show "GetNextPC X E2 g = GetNextPC X E1 g" by (simp add: GetNextPC_def WidestRegister_abs features)
  have "emulate_locals X E2 npc g = emulate_locals X E1 npc g"
    by (simp add: emulate_locals_def WidestRegister_abs features Let_def)
  then have em: "Emulate X H E2 npc g = Emulate X H E1 npc g" unfolding Emulate_def by simp
  have ru: "run_encoded X H E2 g = run_encoded X H E1 g" for g
    unfolding run_encoded_def LoadFPU_def StoreFPU_def features by (rule refl)
  show "perform X H E2 npc g = perform X H E1 npc g" unfolding perform_def em ru by (rule refl)
qed

end

text \<open>The reading methods agree.\<close>

locale reading_abstraction = same_features E1 E2 for E1 :: "'s executor" and E2 :: "'t executor" +
  fixes alpha :: "'s \<Rightarrow> 't"
  assumes address: "ComputeAddress E2 nm b i sc d n mh (alpha s) = through alpha (ComputeAddress E1 nm b i sc d n mh s)"
    and read_reg: "ReadReg E2 nm n rh v (alpha s) = through (through alpha) (ReadReg E1 nm n rh v s)"
    and read_mem: "ReadMem E2 a n mh v (alpha s) = through (through alpha) (ReadMem E1 a n mh v s)"
    and read_fpu: "ReadFPU E2 f (alpha s) = through (through alpha) (ReadFPU E1 f s)"
    and clear: "ClearFetchError E2 (alpha s) = alpha (ClearFetchError E1 s)"
begin

lemma request_register_abs: "request_register X E2 r h ((through alpha) w) = through (through alpha) (request_register X E1 r h w)"
  by (simp add: request_register_def WidestRegister_abs read_reg Let_def split: prod.split)

lemma ReadRegister_abs: "ReadRegister X E2 r h ((through alpha) w) = through (through alpha) (ReadRegister X E1 r h w)"
  using request_register_abs [of X "reg X XED_REG_ESP" kWriteBack "((fst w)\<lparr>gUsesFPU := True, gUsesMMX := True\<rparr>, snd w)"]
    request_register_abs [of X r h "((fst w)\<lparr>gUsesFPU := True, gUsesMMX := True\<rparr>, snd w)"]
    request_register_abs [of X "reg X XED_REG_ESP" kWriteBack w] request_register_abs [of X r h w]
  by (cases w) (simp add: ReadRegister_def Let_def)

lemma ReadRegisters_abs: "ReadRegisters X E2 ((through alpha) w) = through (through alpha) (ReadRegisters X E1 w)"
proof -
  have m: "ReadRegistersMemOp X E2 k ((through alpha) w) = through (through alpha) (ReadRegistersMemOp X E1 k w)" for k w
    unfolding ReadRegistersMemOp_def fst_through by (intro and_also_abs ReadRegister_abs)
  have o: "ReadOperandRegister X E2 b h xedo ((through alpha) w) = through (through alpha) (ReadOperandRegister X E1 b h xedo w)" for b h xedo w
    by (simp add: ReadOperandRegister_def ReadRegister_abs Let_def)
  show ?thesis
    unfolding ReadRegisters_def Let_def fst_through
    by (intro and_also_abs each_abs m o)
qed

lemma ReadPC_abs: "ReadPC X E2 ((through alpha) w) = through (through alpha) (ReadPC X E1 w)"
  using ReadRegister_abs [of X "WidestRegister X E1 (reg X XED_REG_EIP)" kProgramCounter
      "((fst w)\<lparr>gModifiedRegs := insert (WidestRegister X E1 (reg X XED_REG_EIP)) (gModifiedRegs (fst w))\<rparr>, snd w)"]
  by (simp add: ReadPC_def WidestRegister_abs Let_def)

lemma ReadFlags_abs: "ReadFlags X H E2 ((through alpha) w) = through (through alpha) (ReadFlags X H E1 w)"
proof -
  let ?h = "through (through alpha) :: u64 \<times> Data \<times> 's \<Rightarrow> u64 \<times> Data \<times> 't"
  have "READ_FLAG E2 rf fn (?h u) = through ?h (READ_FLAG E1 rf fn u)" for rf fn u
    by (cases fn; cases u) (simp add: READ_FLAG_def read_reg split: prod.split)
  then have "each (READ_FLAG E2 rf) flag_regs (?h u) = through ?h (each (READ_FLAG E1 rf) flag_regs u)" for rf u
    by (rule each_abs)
  from this [of _ "(a, b, c)" for a b c] show ?thesis
    by (simp add: ReadFlags_def WidestRegister_abs Let_def split: option.split prod.split)
qed

lemma ReadMemory_abs: "ReadMemory X E2 ((through alpha) w) = through (through alpha) (ReadMemory X E1 w)"
proof -
  have "ReadMemoryOperand X E2 xedo k ((through alpha) u) = through (through alpha) (ReadMemoryOperand X E1 xedo k u)" for xedo k u
    by (simp add: ReadMemoryOperand_def address read_mem Let_def split: prod.split)
  then have "each (\<lambda>xedo w. case mem_slot (operand_name xedo) of None \<Rightarrow> (True, w)
        | Some k \<Rightarrow> ReadMemoryOperand X E2 xedo k w) ops ((through alpha) u) =
      through (through alpha) (each (\<lambda>xedo w. case mem_slot (operand_name xedo) of None \<Rightarrow> (True, w)
        | Some k \<Rightarrow> ReadMemoryOperand X E1 xedo k w) ops u)" for ops u
    by (intro each_abs) (simp split: option.split)
  from this [of _ "(clear_present (fst w), snd w)"] show ?thesis by (simp add: ReadMemory_def)
qed

lemma fetch_abs: "fetch E2 pc n ((through alpha) w) = through (through alpha) (fetch E1 pc n w)"
proof (induction n arbitrary: w)
  case (Suc n)
  obtain ok d s where r: "ReadMem E1 pc (Suc n * 8) kReadExecutable (idata (fst w)) (snd w) = (ok, d, s)"
    by (metis prod_cases3)
  have "fetch E2 pc n ((fst w)\<lparr>idata := d\<rparr>, alpha (ClearFetchError E1 s)) =
      through (through alpha) (fetch E1 pc n ((fst w)\<lparr>idata := d\<rparr>, ClearFetchError E1 s))"
    using Suc.IH [of "((fst w)\<lparr>idata := d\<rparr>, ClearFetchError E1 s)"] by simp
  then show ?case using r by (cases ok) (simp_all add: read_mem clear)
qed simp

lemma FetchInstruction_abs: "FetchInstruction X E2 ((through alpha) w) = through (through alpha) (FetchInstruction X E1 w)"
  using fetch_abs [of _ _ "(fst w, s)" for s]
  by (simp add: FetchInstruction_def address GetPC_def WidestRegister_abs features Let_def split: prod.split)

lemma fpu_read_abs: "fpu_read E2 ((through alpha) w) = through (through alpha) (fpu_read E1 w)"
  by (simp add: fpu_read_def read_fpu split: prod.split)

end

text \<open>The writing methods agree.\<close>

locale writing_abstraction = same_features E1 E2 for E1 :: "'s executor" and E2 :: "'t executor" +
  fixes alpha :: "'s \<Rightarrow> 't"
  assumes write_reg: "WriteReg E2 nm n v (alpha s) = through alpha (WriteReg E1 nm n v s)"
    and write_mem: "WriteMem E2 a n v (alpha s) = through alpha (WriteMem E1 a n v s)"
    and write_fpu: "WriteFPU E2 f (alpha s) = through alpha (WriteFPU E1 f s)"
begin

lemma WriteMemory_abs: "WriteMemory E2 ((through alpha) w) = through (through alpha) (WriteMemory E1 w)"
proof -
  have "each (WriteSlot E2) ms (alpha s) = through alpha (each (WriteSlot E1) ms s)" for ms s
    by (rule each_abs) (simp add: WriteSlot_def write_mem)
  then show ?thesis by (simp add: WriteMemory_def del: each.simps split: prod.split)
qed

lemma WriteFlags_abs: "WriteFlags X E2 ((through alpha) w) = through (through alpha) (WriteFlags X E1 w)"
proof -
  have "each (WRITE_FLAG E2 wb af) fs (alpha s) = through alpha (each (WRITE_FLAG E1 wb af) fs s)" for wb af fs s
    by (rule each_abs) (simp add: WRITE_FLAG_def write_reg split: prod.split)
  then show ?thesis by (simp add: WriteFlags_def WidestRegister_abs Let_def split: prod.split)
qed

lemma WriteRegisters_abs: "WriteRegisters X E2 ((through alpha) w) = through (through alpha) (WriteRegisters X E1 w)"
proof -
  have one: "write_one X E2 g r (alpha s) = through alpha (write_one X E1 g r s)" for g r s
    by (simp add: write_one_def write_reg)
  have "write_loop X E2 g is pc (alpha s) = through (through alpha) (write_loop X E1 g is pc s)" for g "is" pc s
    by (induction "is" arbitrary: pc s) (simp_all add: one split: prod.split)
  then show ?thesis by (simp add: WriteRegisters_def one Let_def split: prod.split)
qed

lemma fpu_write_abs: "fpu_write E2 ((through alpha) w) = through (through alpha) (fpu_write E1 w)"
  by (simp add: fpu_write_def write_fpu split: prod.split)

lemma step_abs:
  assumes "\<And>w. a2 ((through alpha) w) = through (through alpha) (a1 w)" and "\<And>w. k2 ((through alpha) w) = map_option (through (through alpha)) (k1 w)"
  shows "or_return a2 err k2 ((through alpha) w) = map_option (through (through alpha)) (or_return a1 err k1 w)"
  by (rule or_return_abs, rule assms(1), rule assms(2))

lemma report_back_abs: "report_back X E2 npc ((through alpha) w) = map_option (through (through alpha)) (report_back X E1 npc w)"
proof -
  have W: "or_return (WriteRegisters X E2) kErrorWriteReg (\<lambda>w. Some (kGood, w)) ((through alpha) u) =
      map_option (through (through alpha)) (or_return (WriteRegisters X E1) kErrorWriteReg (\<lambda>w. Some (kGood, w)) u)" for u
    by (rule step_abs) (simp_all add: WriteRegisters_abs)
  show ?thesis
    unfolding report_back_def
  proof (rule step_abs)
    fix u show "or_return (WriteRegisters X E2) kErrorWriteReg (\<lambda>w. Some (kGood, w)) (SetNextPC X npc (fst ((through alpha) u)), snd ((through alpha) u)) =
        map_option (through (through alpha)) (or_return (WriteRegisters X E1) kErrorWriteReg (\<lambda>w. Some (kGood, w)) (SetNextPC X npc (fst u), snd u))"
      using W [of "(SetNextPC X npc (fst u), snd u)"] by simp
  qed (rule WriteFlags_abs)
qed

lemma commit_abs: "commit X E2 npc ((through alpha) w) = map_option (through (through alpha)) (commit X E1 npc w)"
  unfolding commit_def
proof (intro step_abs WriteMemory_abs fpu_write_abs)
  fix u
  show "report_back X E2 npc (if gUsesMMX (fst ((through alpha) u)) then CopyMMXStateFromFPU X E2 (fst ((through alpha) u)) else fst ((through alpha) u), snd ((through alpha) u)) =
      map_option (through (through alpha)) (report_back X E1 npc (if gUsesMMX (fst u) then CopyMMXStateFromFPU X E1 (fst u) else fst u, snd u))"
    using report_back_abs [of X npc "(g, snd u)" for g] by (simp add: pure_abs)
qed

end

locale abstraction = reading_abstraction E1 E2 alpha + writing_abstraction E1 E2 alpha
  for E1 :: "'s executor" and E2 :: "'t executor" and alpha :: "'s \<Rightarrow> 't"
begin

text \<open>Whole instructions and executions.\<close>

lemma operate_abs: "operate X H E2 npc ((through alpha) w) = map_option (through (through alpha)) (operate X H E1 npc w)"
  unfolding operate_def
proof (rule step_abs, rule fpu_read_abs)
  fix u :: "'s world"
  have k: "(case perform X H E2 npc (fst ((through alpha) v)) of None \<Rightarrow> None
      | Some (st, npc', g) \<Rightarrow> if st \<noteq> kGood then Some (st, g, snd ((through alpha) v)) else commit X E2 npc' (g, snd ((through alpha) v))) =
    map_option (through (through alpha)) (case perform X H E1 npc (fst v) of None \<Rightarrow> None
      | Some (st, npc', g) \<Rightarrow> if st \<noteq> kGood then Some (st, g, snd v) else commit X E1 npc' (g, snd v))" for v
    using commit_abs [of X _ "(g, snd v)" for g] by (simp add: pure_abs split: option.split)
  let ?v = "(if gUsesMMX (fst u) then CopyMMXStateToFPU X E1 (fst u) else fst u, snd u)"
  have v: "(if gUsesMMX (fst ((through alpha) u)) then CopyMMXStateToFPU X E2 (fst ((through alpha) u)) else fst ((through alpha) u), snd ((through alpha) u)) = (through alpha) ?v"
    by (simp add: pure_abs)
  show "or_return (ReadMemory X E2) kErrorReadMem (\<lambda>w. case perform X H E2 npc (fst w) of None \<Rightarrow> None
        | Some (st, npc', g) \<Rightarrow> if st \<noteq> kGood then Some (st, g, snd w) else commit X E2 npc' (g, snd w))
      (if gUsesMMX (fst ((through alpha) u)) then CopyMMXStateToFPU X E2 (fst ((through alpha) u)) else fst ((through alpha) u), snd ((through alpha) u)) =
    map_option (through (through alpha)) (or_return (ReadMemory X E1) kErrorReadMem (\<lambda>w. case perform X H E1 npc (fst w) of None \<Rightarrow> None
        | Some (st, npc', g) \<Rightarrow> if st \<noteq> kGood then Some (st, g, snd w) else commit X E1 npc' (g, snd w)) ?v)"
    unfolding v by (rule step_abs, rule ReadMemory_abs, rule k)
qed

lemma decoded_abs: "decoded X H E2 ((through alpha) w) = map_option (through (through alpha)) (decoded X H E1 w)"
proof -
  have n: "(let npc = GetNextPC X E2 (fst ((through alpha) u)) in
      if is_nop (fst ((through alpha) u)) then report_back X E2 npc ((through alpha) u) else operate X H E2 npc ((through alpha) u)) =
    map_option (through (through alpha)) (let npc = GetNextPC X E1 (fst u) in if is_nop (fst u) then report_back X E1 npc u else operate X H E1 npc u)" for u
    by (simp add: pure_abs report_back_abs operate_abs Let_def)
  have "or_return (ReadFlags X H E2) kErrorReadFlags (or_return (ReadRegisters X E2) kErrorReadReg (\<lambda>u.
      let npc = GetNextPC X E2 (fst u) in if is_nop (fst u) then report_back X E2 npc u else operate X H E2 npc u)) ((through alpha) w) =
    map_option (through (through alpha)) (or_return (ReadFlags X H E1) kErrorReadFlags (or_return (ReadRegisters X E1) kErrorReadReg (\<lambda>u.
      let npc = GetNextPC X E1 (fst u) in if is_nop (fst u) then report_back X E1 npc u else operate X H E1 npc u)) w)"
    by (rule step_abs, rule ReadFlags_abs, rule step_abs, rule ReadRegisters_abs, rule n)
  then show ?thesis by (simp add: decoded_def pure_abs(3))
qed

lemma ExecuteOne_abs: "ExecuteOne X H E2 ((through alpha) w) = map_option (through (through alpha)) (ExecuteOne X H E1 w)"
proof -
  let ?D = "\<lambda>n g. DecodeInstruction X (word_bytes n (idata g)) (addr_size E1) g"
  have D: "on_globals f ((through alpha) u) = through (through alpha) (on_globals f u)" for f u
    by (cases u) (simp add: on_globals_def split: prod.split)
  have rest: "(case FetchInstruction X E2 ((through alpha) u) of (n, w) \<Rightarrow> if n = 0 then Some (kErrorReadInstMem, w)
        else or_return (on_globals (?D n)) kErrorDecode (decoded X H E2) w) =
      map_option (through (through alpha)) (case FetchInstruction X E1 u of (n, w) \<Rightarrow> if n = 0 then Some (kErrorReadInstMem, w)
        else or_return (on_globals (?D n)) kErrorDecode (decoded X H E1) w)" for u
  proof -
    obtain n v where f: "FetchInstruction X E1 u = (n, v)" by (metis surj_pair)
    have "or_return (on_globals (?D n)) kErrorDecode (decoded X H E2) ((through alpha) v) =
        map_option (through (through alpha)) (or_return (on_globals (?D n)) kErrorDecode (decoded X H E1) v)"
      by (rule step_abs, rule D, rule decoded_abs)
    then show ?thesis by (simp add: FetchInstruction_abs f)
  qed
  have r: "(reset_instruction X (fst ((through alpha) w)), snd ((through alpha) w)) = (through alpha) (reset_instruction X (fst w), snd w)" by simp
  show ?thesis unfolding ExecuteOne_def features r by (rule step_abs, rule ReadPC_abs, rule rest)
qed

lemma execute_loop_abs: "execute_loop X H E2 n ((through alpha) w) = map_option (through (through alpha)) (execute_loop X H E1 n w)"
proof (induction n arbitrary: w)
  case (Suc n)
  show ?case
  proof (cases "ExecuteOne X H E1 w")
    case (Some r)
    then show ?thesis using Suc.IH [of "snd r"] by (cases r) (simp add: ExecuteOne_abs)
  qed (simp add: ExecuteOne_abs)
qed simp

lemma Execute_abs: "Execute X H E2 n ((through alpha) w) = map_option (through (through alpha)) (Execute X H E1 n w)"
  using execute_loop_abs [of X H n w] by (cases w) (simp add: Execute_def)

end

text \<open>Keeping a log of the writes is such a refinement: the log does not change what is done.\<close>

interpretation logging: abstraction "logged E" E fst for E
  by unfold_locales (auto simp: logged_def split: prod.split)

end
