(* ===== verification/EndToEnd.thy ===== *)
theory EndToEnd
  imports Lifecycle Abstraction
begin

text \<open>
  One instruction from the call of \<open>Execute\<close> to the calls of the executor: the reports made
  for an instruction without operands, and what a successful execution always reports.
\<close>

section \<open>Successful steps\<close>

lemma or_return_good:
  "or_return a err k w = Some (kGood, w') \<Longrightarrow> err \<noteq> kGood \<Longrightarrow>
   \<exists>w1. a w = (True, w1) \<and> k w1 = Some (kGood, w')"
  by (auto simp: or_return_def split: prod.splits if_splits)

text \<open>The steps of a successful execution.\<close>

lemma ExecuteOne_good:
  assumes "ExecuteOne X H E w = Some (kGood, w')"
  obtains w1 n w2 w3 where "ReadPC X E (reset_instruction X (fst w), snd w) = (True, w1)"
    and "FetchInstruction X E w1 = (n, w2)" and "n \<noteq> 0"
    and "on_globals (\<lambda>g. DecodeInstruction X (word_bytes n (idata g)) (addr_size E) g) w2 = (True, w3)"
    and "decoded X H E w3 = Some (kGood, w')"
proof -
  obtain w1 where 1: "ReadPC X E (reset_instruction X (fst w), snd w) = (True, w1)"
    and k: "(case FetchInstruction X E w1 of (n, w) \<Rightarrow>
        if n = 0 then Some (kErrorReadInstMem, w)
        else or_return (on_globals (\<lambda>g. DecodeInstruction X (word_bytes n (idata g)) (addr_size E) g))
          kErrorDecode (decoded X H E) w) = Some (kGood, w')"
    using or_return_good [OF assms [unfolded ExecuteOne_def]] by blast
  obtain n w2 where 2: "FetchInstruction X E w1 = (n, w2)" by (metis surj_pair)
  with k have n: "n \<noteq> 0" and d: "or_return (on_globals (\<lambda>g. DecodeInstruction X (word_bytes n (idata g)) (addr_size E) g))
      kErrorDecode (decoded X H E) w2 = Some (kGood, w')"
    by (auto split: if_splits)
  from or_return_good [OF d] that [OF 1 2 n] show ?thesis by blast
qed

lemma decoded_good:
  assumes "decoded X H E w = Some (kGood, w')"
  obtains w1 w2 where "ReadFlags X H E w = (True, w1)" and "ReadRegisters X E w1 = (True, w2)"
    and "(if is_nop (fst w2) then report_back X E (GetNextPC X E (fst w2)) w2
          else operate X H E (GetNextPC X E (fst w2)) w2) = Some (kGood, w')"
proof -
  have u: "\<not> UsesUnsupportedFeatures E (fst w)"
    using assms by (auto simp: decoded_def)
  then have "or_return (ReadFlags X H E) kErrorReadFlags (or_return (ReadRegisters X E) kErrorReadReg (\<lambda>w.
      let npc = GetNextPC X E (fst w) in
      if is_nop (fst w) then report_back X E npc w else operate X H E npc w)) w = Some (kGood, w')"
    using assms by (simp add: decoded_def)
  from or_return_good [OF this] obtain w1 where 1: "ReadFlags X H E w = (True, w1)"
    and r: "or_return (ReadRegisters X E) kErrorReadReg (\<lambda>w. let npc = GetNextPC X E (fst w) in
      if is_nop (fst w) then report_back X E npc w else operate X H E npc w) w1 = Some (kGood, w')" by blast
  from or_return_good [OF r] obtain w2 where "ReadRegisters X E w1 = (True, w2)"
    "(let npc = GetNextPC X E (fst w2) in
      if is_nop (fst w2) then report_back X E npc w2 else operate X H E npc w2) = Some (kGood, w')" by blast
  then show ?thesis using that [OF 1] unfolding Let_def by blast
qed

lemma report_back_good:
  assumes "report_back X E npc w = Some (kGood, w')"
  obtains w1 where "WriteFlags X E w = (True, w1)"
    and "WriteRegisters X E (SetNextPC X npc (fst w1), snd w1) = (True, w')"
proof -
  from or_return_good [OF assms [unfolded report_back_def]] obtain w1 where 1: "WriteFlags X E w = (True, w1)"
    and r: "or_return (WriteRegisters X E) kErrorWriteReg (\<lambda>w. Some (kGood, w)) (SetNextPC X npc (fst w1), snd w1) = Some (kGood, w')"
    by blast
  from or_return_good [OF r] 1 that show ?thesis by auto
qed

section \<open>The program counter register\<close>

definition pc_reg_of :: "xed \<Rightarrow> 's executor \<Rightarrow> xed_reg" where
  "pc_reg_of X E = WidestRegister X E (reg X XED_REG_EIP)"

text \<open>EIP and RIP are ordinary registers inside the enumeration.\<close>

definition pc_plain :: "xed \<Rightarrow> bool" where
  "pc_plain X \<longleftrightarrow> (\<forall>r \<in> {reg X XED_REG_EIP, reg X XED_REG_RIP}. r < reg X XED_REG_LAST \<and>
     get_reg_class X r \<notin> {XED_REG_CLASS_X87, XED_REG_CLASS_PSEUDOX87, XED_REG_CLASS_MMX} \<and>
     \<not> is_stack_pseudo X r)"

lemma WidestRegister_idem:
  assumes "gpr_pair X e r"
  shows "WidestRegister X E (WidestRegister X E (reg X e)) = WidestRegister X E (reg X e)"
proof -
  note d = gpr_pairD [OF assms]
  have z: "\<not> (reg X XED_REG_ZMM_FIRST \<le> q \<and> q \<le> reg X XED_REG_ZMM_LAST)"
    "\<not> (reg X XED_REG_YMM_FIRST \<le> q \<and> q \<le> reg X XED_REG_YMM_LAST)" if "q \<in> {reg X e, reg X r}" for q
    using assms that unfolding gpr_pair_def by blast+
  show ?thesis
  proof (cases "addr_size E = 64")
    case True
    then have "WidestRegister X E (reg X r) = reg X r"
      using d(2,7) z [of "reg X r"] by (auto simp: WidestRegister_def Let_def)
    then show ?thesis using True by (simp add: WidestRegister_pair [OF assms])
  next
    case False
    then show ?thesis by (simp add: WidestRegister_pair [OF assms])
  qed
qed

lemma logged_features [simp]:
  "addr_size (logged E) = addr_size E" "has_avx (logged E) = has_avx E"
  "has_avx512 (logged E) = has_avx512 E"
  by (simp_all add: logged_def)

lemma WidestRegister_logged [simp]: "WidestRegister X (logged E) r = WidestRegister X E r"
  unfolding WidestRegister_def logged_features by (rule refl)

lemma pc_reg_facts:
  assumes "xed_ok X" and "addr_ok E"
  shows "pc_reg_of X E \<in> {reg X XED_REG_EIP, reg X XED_REG_RIP}"
    "WidestRegister X E (pc_reg_of X E) = pc_reg_of X E"
    "get_largest_enclosing_register X (pc_reg_of X E) = reg X XED_REG_RIP"
    "get_register_width_bits64 X (pc_reg_of X E) = addr_size E"
    "pc_reg_of X E \<noteq> reg X XED_REG_INVALID"
proof -
  note p = xed_ok_pairs(1) [OF assms(1)]
  show c: "pc_reg_of X E \<in> {reg X XED_REG_EIP, reg X XED_REG_RIP}"
    by (simp add: pc_reg_of_def WidestRegister_pair [OF p])
  show "WidestRegister X E (pc_reg_of X E) = pc_reg_of X E"
    unfolding pc_reg_of_def by (rule WidestRegister_idem [OF p])
  show "get_largest_enclosing_register X (pc_reg_of X E) = reg X XED_REG_RIP"
    "get_register_width_bits64 X (pc_reg_of X E) = addr_size E"
    unfolding pc_reg_of_def by (rule widest_pair [OF p assms(2)])+
  show "pc_reg_of X E \<noteq> reg X XED_REG_INVALID" using c gpr_pairD(6,7) [OF p] by auto
qed

lemma pc_plainD:
  assumes "xed_ok X" and "addr_ok E" and "pc_plain X" and "r = pc_reg_of X E"
  shows "get_reg_class X r \<noteq> XED_REG_CLASS_X87" "get_reg_class X r \<noteq> XED_REG_CLASS_PSEUDOX87"
    "get_reg_class X r \<noteq> XED_REG_CLASS_MMX" "\<not> is_stack_pseudo X r" "r \<noteq> reg X XED_REG_INVALID"
    "is_pc X r" "r < reg X XED_REG_LAST"
  using pc_reg_facts(1,5) [OF assms(1,2)] assms(3) unfolding assms(4) pc_plain_def is_pc_def by auto

text \<open>What \<open>ReadPC\<close> leaves behind at the start of an instruction.\<close>

lemma ReadPC_reset:
  assumes "xed_ok X" and "addr_ok E" and "pc_plain X"
    and "ReadPC X E (reset_instruction X g, s) = (True, w1)"
  obtains d0 d s1 g1 where "ReadReg E (reg_enum_t2str X (pc_reg_of X E)) (addr_size E) kProgramCounter d0 s = (True, d, s1)"
    and "w1 = (g1, s1)" and "gUsedRegs g1 = {pc_reg_of X E}" and "gModifiedRegs g1 = {pc_reg_of X E}"
    and "gRegs g1 (reg X XED_REG_RIP) = d" and "gStackPtrAlias g1 = reg X XED_REG_INVALID"
    and "\<not> gUsesFPU g1" and "\<not> gUsesMMX g1"
proof -
  note f = pc_reg_facts [OF assms(1,2)]
  define r where "r = pc_reg_of X E"
  note p = pc_plainD [OF assms(1-3) r_def]
  define g0 where "g0 = (reset_instruction X g)\<lparr>gModifiedRegs := {r}\<rparr>"
  have g0: "gUsedRegs g0 = {}" "gModifiedRegs g0 = {r}" "gStackPtrAlias g0 = reg X XED_REG_INVALID"
    "\<not> gUsesFPU g0" "\<not> gUsesMMX g0"
    by (simp_all add: g0_def reset_instruction_def)
  have "ReadPC X E (reset_instruction X g, s) = ReadRegister X E r kProgramCounter (g0, s)"
    by (simp add: ReadPC_def r_def pc_reg_of_def g0_def Let_def) (simp add: reset_instruction_def)
  also have "\<dots> = request_register X E r kProgramCounter (g0, s)"
    using p by (simp add: ReadRegister_def Let_def)
  finally have R: "request_register X E r kProgramCounter (g0, s) = (True, w1)" using assms(4) by simp
  obtain ok d s1 where e: "ReadReg E (reg_enum_t2str X r) (addr_size E) kProgramCounter
      (put_bits 0 (8 * (addr_size E div 8)) (0 :: u64) (gRegs g0 (reg X XED_REG_RIP))) s = (ok, d, s1)"
    by (metis prod_cases3)
  have "w1 = (g0\<lparr>gRegs := (gRegs g0)(reg X XED_REG_RIP := d), gUsedRegs := {r},
      gStoreRegs := insert (reg X XED_REG_RIP) (gStoreRegs g0)\<rparr>, s1) \<and> ok"
    using R e f(2-4) by (simp add: request_register_def r_def [symmetric] g0 Let_def)
  with that e g0 show ?thesis by (simp add: r_def)
qed

section \<open>An instruction without operands\<close>

lemma fetch_globals:
  "\<exists>v. fst (snd (fetch E pc n w)) = (fst w)\<lparr>idata := v\<rparr>"
proof (induction n arbitrary: w)
  case 0
  show ?case by (intro exI [of _ "idata (fst w)"]) simp
next
  case (Suc n)
  obtain ok d s where R: "ReadMem E pc (Suc n * 8) kReadExecutable (idata (fst w)) (snd w) = (ok, d, s)"
    by (metis prod_cases3)
  show ?case
  proof (cases ok)
    case True
    then show ?thesis using R by auto
  next
    case False
    obtain v where "fst (snd (fetch E pc n ((fst w)\<lparr>idata := d\<rparr>, ClearFetchError E s))) = (fst w)\<lparr>idata := v\<rparr>"
      using Suc.IH [of "((fst w)\<lparr>idata := d\<rparr>, ClearFetchError E s)"] by auto
    then show ?thesis using R False by auto
  qed
qed

lemma FetchInstruction_globals:
  assumes "FetchInstruction X E w = (n, w')"
  obtains v where "fst w' = (fst w)\<lparr>idata := v\<rparr>"
proof -
  obtain pc s where c: "ComputeAddress E ''CS'' (GetPC X E (fst w)) 0 0 0 8 kReadExecutable (snd w) = (pc, s)"
    by (metis surj_pair)
  have "snd (fetch E pc max_inst_length (fst w, s)) = w'"
    using assms c by (simp add: FetchInstruction_def)
  then show ?thesis using that fetch_globals [of E pc max_inst_length "(fst w, s)"] by auto
qed

text \<open>The encoder request that decoding leaves: no operands yet.\<close>

definition fresh_request :: "xed_decoded_inst \<Rightarrow> xed_encoder_instruction" where
  "fresh_request d = \<lparr>emu_iclass = get_iclass d, effective_address_width = 64,
     effective_operand_width = get_operand_width d, emu_mode = kXEDState64,
     noperands = 0, operands = (\<lambda>_. zero_operand)\<rparr>"

lemma Decode_result:
  assumes "on_globals (\<lambda>g. DecodeInstruction X (bs g) n g) w = (True, w')"
  shows "gXedd (fst w') = snd (xed_decode X (if 32 = n then kXEDState32 else kXEDState64) (bs (fst w)))"
    "gUsedRegs (fst w') = gUsedRegs (fst w)" "gModifiedRegs (fst w') = gModifiedRegs (fst w)"
    "gRegs (fst w') = gRegs (fst w)" "gStackPtrAlias (fst w') = gStackPtrAlias (fst w)" "snd w' = snd w"
    "gUsesFPU (fst w') = gUsesFPU (fst w)" "gUsesMMX (fst w') = gUsesMMX (fst w)"
    "gEmu (fst w') =
      fresh_request (snd (xed_decode X (if 32 = n then kXEDState32 else kXEDState64) (bs (fst w))))"
  using assms
  by (cases "xed_decode X (if 32 = n then kXEDState32 else kXEDState64) (bs (fst w))";
      auto simp: on_globals_def DecodeInstruction_def fresh_request_def Let_def split: if_splits)+

lemma write_order_single:
  assumes "is_pc X r" and "r < reg X XED_REG_LAST" and "r \<in> gUsedRegs g"
    and "\<And>q. q \<in> gUsedRegs g \<Longrightarrow> is_pc X q \<Longrightarrow> q = r" and "gModifiedRegs g \<subseteq> {r}"
  shows "write_order X g = [r]"
proof -
  have "(i \<in> gUsedRegs g \<and> is_pc X i) = (i = r)" for i
    using assms(1,3,4) by blast
  then have "pc_regs X g [0..<reg X XED_REG_LAST] = filter (\<lambda>i. i = r) [0..<reg X XED_REG_LAST]"
    by (simp add: pc_regs_def)
  moreover have "filter (\<lambda>i. i = r) [0..<n] = (if r < n then [r] else [])" for n
    by (induction n) auto
  ultimately have "pc_regs X g [0..<reg X XED_REG_LAST] = [r]" using assms(2) by simp
  moreover have "plain_regs X g [0..<reg X XED_REG_LAST] = []"
    using assms(1,5) by (auto simp: plain_regs_def filter_empty_conv)
  ultimately show ?thesis by (simp add: write_order_def Let_def)
qed

definition plain_nop :: "xed_decoded_inst \<Rightarrow> bool" where
  "plain_nop d \<longleftrightarrow> get_category d \<in> {XED_CATEGORY_NOP, XED_CATEGORY_WIDENOP} \<and>
     get_operands d = [] \<and> get_rflags_info d = None"

text \<open>The flags register, which is not the program counter.\<close>

definition flags_reg_of :: "xed \<Rightarrow> 's executor \<Rightarrow> xed_reg" where
  "flags_reg_of X E = WidestRegister X E (reg X XED_REG_EFLAGS)"

lemma flags_reg_facts:
  assumes "xed_ok X" and "addr_ok E"
  shows "flags_reg_of X E \<noteq> pc_reg_of X E" "\<not> is_pc X (flags_reg_of X E)"
proof -
  have "flags_reg_of X E \<in> {reg X XED_REG_EFLAGS, reg X XED_REG_RFLAGS}"
    by (simp add: flags_reg_of_def WidestRegister_pair [OF xed_ok_pairs(7) [OF assms(1)]])
  moreover have "{reg X XED_REG_EFLAGS, reg X XED_REG_RFLAGS} \<inter> {reg X XED_REG_EIP, reg X XED_REG_RIP} = {}"
    using assms(1) unfolding xed_ok_def by (auto simp del: upt_Suc)
  ultimately show "\<not> is_pc X (flags_reg_of X E)" by (auto simp: is_pc_def)
  then show "flags_reg_of X E \<noteq> pc_reg_of X E"
    using pc_reg_facts(1) [OF assms] by (auto simp: is_pc_def)
qed

text \<open>Reporting when at most the program counter is modified and at most the flags are in
  use with it.\<close>

lemma report_back_pc:
  assumes "xed_ok X" and "addr_ok E" and "pc_plain X" and "pc_reg_of X E \<in> gUsedRegs (fst w)"
    and "gUsedRegs (fst w) \<subseteq> {pc_reg_of X E, flags_reg_of X E}"
    and "gModifiedRegs (fst w) = {pc_reg_of X E}" and "gStackPtrAlias (fst w) = reg X XED_REG_INVALID"
    and "report_back X E npc w = Some (kGood, w')"
  shows "\<exists>v. get_bits 0 64 v = npc \<and>
    WriteReg E (reg_enum_t2str X (pc_reg_of X E)) (addr_size E) v (snd w) = (True, snd w')"
proof -
  note f = pc_reg_facts [OF assms(1,2)]
  let ?r = "pc_reg_of X E"
  note pc = pc_plainD(6,7) [OF assms(1-3) refl]
  have "WriteFlags X E w = (True, w)"
    using assms(6) flags_reg_facts(1) [OF assms(1,2)] by (simp add: WriteFlags_def flags_reg_of_def Let_def)
  then have W: "WriteRegisters X E (SetNextPC X npc (fst w), snd w) = (True, w')"
    using report_back_good [OF assms(8)] by auto
  let ?g = "SetNextPC X npc (fst w)"
  have g: "gUsedRegs ?g = gUsedRegs (fst w)" "gModifiedRegs ?g = {?r}" "gStackPtrAlias ?g = reg X XED_REG_INVALID"
    using assms(6,7) by (simp_all add: SetNextPC_def set_slot_low_def)
  then have "restore_stack_pointer X ?g = ?g" by (simp add: restore_stack_pointer_def)
  moreover have "write_order X ?g = [?r]"
    using g(1,2) assms(4,5) flags_reg_facts(2) [OF assms(1,2)] by (intro write_order_single pc) auto
  ultimately have "(case each (write_one X E ?g) [?r] (snd w) of (ok, s) \<Rightarrow> (ok, ?g, s)) = (True, w')"
    using WriteRegisters_eq [OF assms(1), of E "(?g, snd w)"] W by (simp add: Let_def)
  then have "write_one X E ?g ?r (snd w) = (True, snd w')"
    by (auto split: prod.splits if_splits)
  then show ?thesis
    using f(3,4) SetNextPC_slot [of X npc "fst w"] by (auto simp: write_one_def)
qed

text \<open>A successful instruction up to its decoding, for an executor that answers \<open>pc\<close> when
  it is asked for the program counter and a decoder that answers \<open>d\<close>: what is known of the
  globals \<open>g3\<close>, and that nothing has been written.\<close>

definition stands_at :: "xed \<Rightarrow> 's executor \<Rightarrow> u64 \<Rightarrow> bool" where
  "stands_at X E pc \<longleftrightarrow> (\<forall>v s v' s'.
     ReadReg E (reg_enum_t2str X (pc_reg_of X E)) (addr_size E) kProgramCounter v s = (True, v', s') \<longrightarrow>
       get_bits 0 (addr_size E) v' = pc)"

text \<open>What is fetched when the program counter is \<open>pc\<close> decodes to \<open>d\<close>.\<close>

definition code_at :: "xed \<Rightarrow> 's executor \<Rightarrow> u64 \<Rightarrow> xed_decoded_inst \<Rightarrow> bool" where
  "code_at X E pc d \<longleftrightarrow> (\<forall>g s n g' s'. get_bits 0 (addr_size E) (gRegs g (reg X XED_REG_RIP)) = pc \<longrightarrow>
     FetchInstruction X E (g, s) = (n, g', s') \<longrightarrow> n \<noteq> 0 \<longrightarrow>
       snd (xed_decode X (if 32 = addr_size E then kXEDState32 else kXEDState64) (word_bytes n (idata g'))) = d)"

lemma code_at_everywhere: "(\<And>st bs. snd (xed_decode X st bs) = d) \<Longrightarrow> code_at X E pc d"
  by (simp add: code_at_def)

lemma code_at_logged:
  assumes "code_at X E pc d" and "FetchInstruction X (logged E) (g, s, log) = (n, w)" and "n \<noteq> 0"
    and "get_bits 0 (addr_size E) (gRegs g (reg X XED_REG_RIP)) = pc"
  shows "snd (xed_decode X (if 32 = addr_size E then kXEDState32 else kXEDState64) (word_bytes n (idata (fst w)))) = d"
proof -
  have "FetchInstruction X E (g, s) = (n, fst w, fst (snd w))"
    using logging.FetchInstruction_abs [of X E "(g, s, log)"] assms(2) by (cases w) simp
  with assms(1,3,4) show ?thesis unfolding code_at_def by blast
qed

lemma ExecuteOne_decoded:
  assumes "xed_ok X" and "addr_ok E" and "pc_plain X" and "stands_at X E pc"
    and "code_at X E pc d"
    and "ExecuteOne X H (logged E) (g, s, log) = Some (kGood, w')"
  obtains g3 s3 where "decoded X H (logged E) (g3, s3, log) = Some (kGood, w')"
    and "gXedd g3 = d" and "gUsedRegs g3 = {pc_reg_of X E}" and "gModifiedRegs g3 = {pc_reg_of X E}"
    and "get_bits 0 (addr_size E) (gRegs g3 (reg X XED_REG_RIP)) = pc"
    and "gStackPtrAlias g3 = reg X XED_REG_INVALID" and "\<not> gUsesFPU g3" and "\<not> gUsesMMX g3"
    and "gEmu g3 = fresh_request d"
proof -
  let ?E = "logged E"
  have same: "pc_reg_of X ?E = pc_reg_of X E" "addr_ok ?E"
    using assms(2) by (simp_all add: pc_reg_of_def addr_ok_def)
  obtain w1 n w2 w3 where 1: "ReadPC X ?E (reset_instruction X g, s, log) = (True, w1)"
    and 2: "FetchInstruction X ?E w1 = (n, w2)"
    and n: "n \<noteq> 0" and 3: "on_globals (\<lambda>g. DecodeInstruction X (word_bytes n (idata g)) (addr_size ?E) g) w2 = (True, w3)"
    and 4: "decoded X H ?E w3 = Some (kGood, w')"
    by (rule ExecuteOne_good [OF assms(6)]) auto
  obtain v0 v s1 g1 where pcr: "ReadReg ?E (reg_enum_t2str X (pc_reg_of X E)) (addr_size E) kProgramCounter v0 (s, log) = (True, v, s1)"
    and g1: "w1 = (g1, s1)" "gUsedRegs g1 = {pc_reg_of X E}" "gModifiedRegs g1 = {pc_reg_of X E}"
    "gRegs g1 (reg X XED_REG_RIP) = v" "gStackPtrAlias g1 = reg X XED_REG_INVALID" "\<not> gUsesFPU g1" "\<not> gUsesMMX g1"
    by (rule ReadPC_reset [OF assms(1) same(2) assms(3) 1]) (simp add: same)
  have v: "get_bits 0 (addr_size E) v = pc"
    using pcr assms(4) unfolding stands_at_def
    by (auto simp: logged_def split: prod.splits)
  obtain i where w2: "fst w2 = g1\<lparr>idata := i\<rparr>"
    using FetchInstruction_globals [OF 2] g1(1) by auto
  note D = Decode_result [OF 3]
  obtain s1' where s1: "s1 = (s1', log)" using pcr by (auto simp: logged_def split: prod.splits)
  have d: "snd (xed_decode X (if 32 = addr_size E then kXEDState32 else kXEDState64) (word_bytes n (idata (fst w2)))) = d"
    by (rule code_at_logged [OF assms(5) _ n, of g1 s1' log]) (use 2 g1(1,4) s1 v in simp_all)
  have "snd s1 = log" using pcr by (auto simp: logged_def split: prod.splits)
  moreover have "snd (snd w2) = snd s1"
    using 2 g1(1) logged.FetchInstruction_looks [of w1 X E] by (simp add: looks_def)
  ultimately have "snd (snd w3) = log" using D(6) by simp
  then have "w3 = (fst w3, fst (snd w3), log)" by (metis prod.collapse)
  then show ?thesis
    using that [of "fst w3" "fst (snd w3)"] 4 D w2 g1 v d by simp
qed

lemma ReadGPR_pc_slot:
  assumes "xed_ok X" and "addr_ok E" and "get_bits 0 (addr_size E) (gRegs g (reg X XED_REG_RIP)) = pc"
  shows "ReadGPR X (pc_reg_of X E) g = pc"
proof -
  note f = pc_reg_facts [OF assms(1,2)]
  have "is_gpr X (pc_reg_of X E)" "gpr_low X (pc_reg_of X E) = 0"
    using widest_pair(1) [OF xed_ok_pairs(1) [OF assms(1)] assms(2)] f(1) gpr_pairD(8,9) [OF xed_ok_pairs(1) [OF assms(1)]]
    by (auto simp: pc_reg_of_def gpr_low_def is_gpr8h_def)
  then show ?thesis using f(3,4) assms(3) by (simp add: ReadGPR_get_bits)
qed

lemma ReadGPR_pc:
  assumes "xed_ok X" and "addr_ok E" and "get_bits 0 (addr_size E) (gRegs g (reg X XED_REG_RIP)) = pc"
  shows "GetNextPC X E g = mask_pc E (pc + of_nat (get_length (gXedd g)))"
  using ReadGPR_pc_slot [OF assms]
  by (simp add: GetNextPC_def pc_reg_of_def [symmetric] mask_pc_def ucast_u32_u64 Let_def)

lemma GetPC_slot:
  assumes "xed_ok X" and "addr_ok E" and "get_bits 0 (addr_size E) (gRegs g (reg X XED_REG_RIP)) = pc"
  shows "GetPC X E g = mask_pc E pc"
  using ReadGPR_pc_slot [OF assms]
  by (simp add: GetPC_def pc_reg_of_def [symmetric] mask_pc_def ucast_u32_u64 Let_def)

text \<open>
  A successful execution of a NOP without operands reports exactly one register: the
  program counter, moved past the instruction from where the executor said it was.
\<close>

theorem nop_reports_pc:
  assumes "xed_ok X" and "addr_ok E" and "pc_plain X" and "stands_at X E pc"
    and "code_at X E pc d" and "plain_nop d"
    and "Execute X H (logged E) 1 (g, s, log) = Some (kGood, g', s', log')"
  shows "\<exists>v. log' = log @ [WroteReg (reg_enum_t2str X (pc_reg_of X E)) (addr_size E) v] \<and>
    get_bits 0 64 v = mask_pc E (pc + of_nat (get_length d))"
proof -
  let ?E = "logged E"
  have same: "pc_reg_of X ?E = pc_reg_of X E" "addr_ok ?E" "\<And>v. mask_pc ?E v = mask_pc E v"
    using assms(2) by (simp_all add: pc_reg_of_def addr_ok_def mask_pc_def)
  have one: "ExecuteOne X H ?E (g, s, log) = Some (kGood, g', s', log')"
    using assms(7) by (auto simp: Execute_def split: option.splits if_splits)
  obtain g3 s3 where d: "decoded X H ?E (g3, s3, log) = Some (kGood, g', s', log')"
    and g3: "gXedd g3 = d" "gUsedRegs g3 = {pc_reg_of X E}" "gModifiedRegs g3 = {pc_reg_of X E}"
    "get_bits 0 (addr_size E) (gRegs g3 (reg X XED_REG_RIP)) = pc" "gStackPtrAlias g3 = reg X XED_REG_INVALID"
    by (rule ExecuteOne_decoded [OF assms(1-5) one])
  let ?w4 = "(g3\<lparr>gWriteBackFlags := 0\<rparr>, s3, log)"
  have F: "ReadFlags X H ?E (g3, s3, log) = (True, ?w4)"
    using assms(6) g3(1) by (simp add: ReadFlags_def plain_nop_def)
  have R: "ReadRegisters X ?E ?w4 = (True, ?w4)" "is_nop (fst ?w4)"
    using g3(1) assms(6) by (auto simp: ReadRegisters_def and_also_def plain_nop_def is_nop_def)
  obtain u1 u2 where u: "ReadFlags X H ?E (g3, s3, log) = (True, u1)" "ReadRegisters X ?E u1 = (True, u2)"
    "(if is_nop (fst u2) then report_back X ?E (GetNextPC X ?E (fst u2)) u2
      else operate X H ?E (GetNextPC X ?E (fst u2)) u2) = Some (kGood, g', s', log')"
    by (rule decoded_good [OF d])
  have "u1 = ?w4" "u2 = ?w4" using u(1,2) F R(1) by auto
  then have rb: "report_back X ?E (GetNextPC X ?E (fst ?w4)) ?w4 = Some (kGood, g', s', log')"
    using u(3) R(2) by simp
  have "pc_reg_of X ?E \<in> gUsedRegs (fst ?w4)" "gUsedRegs (fst ?w4) \<subseteq> {pc_reg_of X ?E, flags_reg_of X ?E}"
    "gModifiedRegs (fst ?w4) = {pc_reg_of X ?E}" "gStackPtrAlias (fst ?w4) = reg X XED_REG_INVALID"
    using g3 by (simp_all add: same)
  from report_back_pc [OF assms(1) same(2) assms(3) this rb] obtain u where
    u: "get_bits 0 64 u = GetNextPC X ?E (fst ?w4)"
    "WriteReg ?E (reg_enum_t2str X (pc_reg_of X E)) (addr_size E) u (s3, log) = (True, s', log')"
    by (auto simp: same)
  have "log' = log @ [WroteReg (reg_enum_t2str X (pc_reg_of X E)) (addr_size E) u]"
    using u(2) by (auto simp: logged_def split: prod.splits)
  moreover have "GetNextPC X ?E (fst ?w4) = mask_pc E (pc + of_nat (get_length d))"
    using ReadGPR_pc [OF assms(1) same(2), of "fst ?w4" pc] g3 by (simp add: same)
  ultimately show ?thesis using u(1) by auto
qed

text \<open>A machine that decodes everything as NOP and stands at 0x401000.\<close>

definition nop_inst :: xed_decoded_inst where
  "nop_inst = sample_inst\<lparr>get_category := XED_CATEGORY_NOP\<rparr>"

definition nop_xed :: xed where
  "nop_xed = sample_xed\<lparr>xed_decode := (\<lambda>st bs. (True, nop_inst))\<rparr>"

definition pc_executor :: "sample_call list executor" where
  "pc_executor = (sample_executor 64)\<lparr>ReadReg := (\<lambda>nm _ _ d l. (True, 0x401000, l @ [CallReadReg nm]))\<rparr>"

theorem nop_reports_pc_witness:
  "xed_ok nop_xed \<and> addr_ok pc_executor \<and> pc_plain nop_xed \<and>
   (\<exists>g' s' log' v. Execute nop_xed sample_host (logged pc_executor) 1 (sample_gstate, [], []) = Some (kGood, g', s', log') \<and>
      log' = [WroteReg ''RIP'' 64 v] \<and> get_bits 0 64 v = (0x401001 :: u64))"
proof -
  have h: "xed_ok nop_xed" "addr_ok pc_executor" "pc_plain nop_xed" "stands_at nop_xed pc_executor 0x401000"
    "code_at nop_xed pc_executor 0x401000 nop_inst" "plain_nop nop_inst"
    using sample_xed_ok
    by (simp_all add: code_at_everywhere nop_xed_def xed_ok_def gpr_pair_def addr_ok_def pc_executor_def sample_executor_def
        pc_plain_def stands_at_def is_stack_pseudo_def sample_xed_simps plain_nop_def nop_inst_def sample_inst_def)
      code_simp
  let ?r = "Execute nop_xed sample_host (logged pc_executor) 1 (sample_gstate, [], [])"
  have "map_option fst ?r = Some kGood" by code_simp
  then obtain g' s' log' where r: "?r = Some (kGood, g', s', log')" by auto
  have e: "reg_enum_t2str nop_xed (pc_reg_of nop_xed pc_executor) = ''RIP''" "addr_size pc_executor = 64"
    "mask_pc pc_executor (0x401000 + of_nat (get_length nop_inst)) = 0x401001"
    by code_simp+
  from nop_reports_pc [OF h r] r h(1-3) show ?thesis by (simp add: e)
qed

end
