(* ===== verification/Monitor.thy ===== *)
theory Monitor
  imports EndToEnd
begin

text \<open>
  Executors that keep a condition on their own state as long as they answer with success,
  as the binding for Python does with its pending exceptions: the locale \<open>monitor\<close> is the
  contract of such an executor, and its theorem says what a successful execution shows of
  the executor's state.
\<close>

section \<open>Operations that uphold a condition when they succeed\<close>

definition upholds :: "('w \<Rightarrow> bool) \<Rightarrow> ('w \<Rightarrow> bool \<times> 'w) \<Rightarrow> bool" where
  "upholds P a \<longleftrightarrow> (\<forall>w w'. P w \<longrightarrow> a w = (True, w') \<longrightarrow> P w')"

lemma upholdsI: "(\<And>w w'. P w \<Longrightarrow> a w = (True, w') \<Longrightarrow> P w') \<Longrightarrow> upholds P a"
  by (simp add: upholds_def)

lemma upholdsD: "upholds P a \<Longrightarrow> a w = (True, w') \<Longrightarrow> P w \<Longrightarrow> P w'"
  by (auto simp: upholds_def)

lemma upholds_each:
  assumes "\<And>x. x \<in> set xs \<Longrightarrow> upholds P (f x)"
  shows "upholds P (each f xs)"
proof (rule upholdsI)
  fix w w' assume "P w" and "each f xs w = (True, w')"
  then show "P w'"
    using assms
  proof (induction xs arbitrary: w)
    case Nil
    then show ?case by simp
  next
    case (Cons x xs)
    obtain w1 where "f x w = (True, w1)" "each f xs w1 = (True, w')"
      using Cons.prems(2) by (auto split: prod.splits if_splits)
    moreover have "upholds P (f x)" by (simp add: Cons.prems(3))
    then have "P w1" using calculation(1) Cons.prems(1) unfolding upholds_def by blast
    ultimately show ?case using Cons.IH Cons.prems(3) by simp
  qed
qed

lemma upholds_and_also:
  assumes "upholds P a" and "upholds P b"
  shows "upholds P (and_also a b)"
proof (rule upholdsI)
  fix w w' assume "P w" and "and_also a b w = (True, w')"
  moreover from this obtain w1 where "a w = (True, w1)" "b w1 = (True, w')"
    by (auto simp: and_also_def split: prod.splits if_splits)
  ultimately show "P w'" using assms unfolding upholds_def by blast
qed

lemma upholds_succeed: "upholds P (\<lambda>w. (True, w))"
  by (simp add: upholds_def)

section \<open>The program counter stays in use\<close>

text \<open>A successful instruction has the program counter among the registers it reports.\<close>

definition uses_more :: "'s world \<Rightarrow> 's world \<Rightarrow> bool" where
  "uses_more w w' \<longleftrightarrow> gUsedRegs (fst w) \<subseteq> gUsedRegs (fst w')"

interpretation uses: step_relation uses_more
  by unfold_locales (auto simp: uses_more_def)

lemma ReadRegisters_uses: "uses_more w (snd (ReadRegisters X E w))"
proof -
  have "uses_more w (snd (ReadRegister X E r h w))" for r h w
    using ReadRegister_reads [of w X E r h] by (simp add: reads_more_def uses_more_def)
  then show ?thesis
    unfolding ReadRegisters_def Let_def ReadRegistersMemOp_def ReadOperandRegister_def
    by (intro uses.and_also_keeps uses.each_keeps)
      (auto simp: uses.R_refl Let_def intro!: uses.and_also_keeps)
qed

lemma ReadFlags_uses: "uses_more w (snd (ReadFlags X H E w))"
  by (auto simp: ReadFlags_def uses_more_def set_aflag_def Let_def split: option.splits prod.splits)

lemma fpu_uses: "uses_more w (snd (fpu_read E w))" "uses_more w (snd (fpu_write E w))"
  by (auto simp: fpu_read_def fpu_write_def uses_more_def split: prod.splits)

lemma ReadMemory_uses: "uses_more w (snd (ReadMemory X E w))"
proof -
  have "uses_more w' (snd (ReadMemoryOperand X E xedo k w'))" for xedo k w'
    using kept_adjust
    by (simp add: ReadMemoryOperand_def uses_more_def Let_def split: prod.splits)
      (metis snd_conv subset_refl)
  then have "uses_more w' (snd (case mem_slot (operand_name xedo) of None \<Rightarrow> (True, w')
      | Some k \<Rightarrow> ReadMemoryOperand X E xedo k w'))" for xedo w'
    by (simp add: uses.R_refl split: option.splits)
  then have "uses_more (clear_present (fst w), snd w) (snd (ReadMemory X E w))"
    unfolding ReadMemory_def by (intro uses.each_keeps)
  then show ?thesis by (simp add: uses_more_def clear_present_def)
qed

lemma WriteMemory_uses: "uses_more w (snd (WriteMemory E w))"
  by (simp add: WriteMemory_def uses_more_def split: prod.splits)

text \<open>The steps of a successful instruction other than NOP.\<close>

lemma operate_good:
  assumes "operate X H E npc w = Some (kGood, w')"
  obtains w1 w2 npc' g where "fpu_read E w = (True, w1)"
    and "ReadMemory X E ((if gUsesMMX (fst w1) then CopyMMXStateToFPU X E (fst w1) else fst w1), snd w1) = (True, w2)"
    and "perform X H E npc (fst w2) = Some (kGood, npc', g)"
    and "commit X E npc' (g, snd w2) = Some (kGood, w')"
proof -
  from or_return_good [OF assms [unfolded operate_def]] obtain w1 where 1: "fpu_read E w = (True, w1)"
    and r: "or_return (ReadMemory X E) kErrorReadMem (\<lambda>w. case perform X H E npc (fst w) of
         None \<Rightarrow> None
       | Some (st, npc', g) \<Rightarrow>
           if st \<noteq> kGood then Some (st, g, snd w) else commit X E npc' (g, snd w))
       ((if gUsesMMX (fst w1) then CopyMMXStateToFPU X E (fst w1) else fst w1), snd w1) = Some (kGood, w')"
    by blast
  from or_return_good [OF r] obtain w2 where
    2: "ReadMemory X E ((if gUsesMMX (fst w1) then CopyMMXStateToFPU X E (fst w1) else fst w1), snd w1) = (True, w2)"
    and p: "(case perform X H E npc (fst w2) of None \<Rightarrow> None | Some (st, npc', g) \<Rightarrow>
           if st \<noteq> kGood then Some (st, g, snd w2) else commit X E npc' (g, snd w2)) = Some (kGood, w')"
    by blast
  then obtain npc' g where "perform X H E npc (fst w2) = Some (kGood, npc', g)"
    "commit X E npc' (g, snd w2) = Some (kGood, w')"
    by (auto split: option.splits if_splits)
  with 1 2 that show ?thesis by blast
qed

lemma commit_good:
  assumes "commit X E npc w = Some (kGood, w')"
  obtains w1 w2 where "WriteMemory E w = (True, w1)" and "fpu_write E w1 = (True, w2)"
    and "report_back X E npc
      ((if gUsesMMX (fst w2) then CopyMMXStateFromFPU X E (fst w2) else fst w2), snd w2) = Some (kGood, w')"
proof -
  from or_return_good [OF assms [unfolded commit_def]] obtain w1 where 1: "WriteMemory E w = (True, w1)"
    and r: "or_return (fpu_write E) kErrorWriteFPU (\<lambda>w. report_back X E npc
      ((if gUsesMMX (fst w) then CopyMMXStateFromFPU X E (fst w) else fst w), snd w)) w1 = Some (kGood, w')"
    by blast
  from or_return_good [OF r] 1 that show ?thesis by blast
qed

text \<open>The flags register, which \<open>WriteFlags\<close> removes, is not the program counter.\<close>

lemma WriteFlags_uses_pc:
  assumes "xed_ok X" and "addr_ok E" and "pc_reg_of X E \<in> gUsedRegs (fst w)"
  shows "pc_reg_of X E \<in> gUsedRegs (fst (snd (WriteFlags X E w)))"
proof -
  have "WidestRegister X E (reg X XED_REG_EFLAGS) \<in> {reg X XED_REG_EFLAGS, reg X XED_REG_RFLAGS}"
    by (simp add: WidestRegister_pair [OF xed_ok_pairs(7) [OF assms(1)]])
  moreover have "{reg X XED_REG_EFLAGS, reg X XED_REG_RFLAGS} \<inter> {reg X XED_REG_EIP, reg X XED_REG_RIP} = {}"
    using assms(1) unfolding xed_ok_def by (auto simp del: upt_Suc)
  ultimately have "WidestRegister X E (reg X XED_REG_EFLAGS) \<noteq> pc_reg_of X E"
    using pc_reg_facts(1) [OF assms(1,2)] by auto
  then show ?thesis using assms(3) by (auto simp: WriteFlags_def Let_def split: prod.splits)
qed

lemma report_back_uses:
  assumes "xed_ok X" and "addr_ok E" and "pc_reg_of X E \<in> gUsedRegs (fst w)"
    and "report_back X E npc w = Some (kGood, w')"
  obtains w1 where "WriteFlags X E w = (True, w1)" and "pc_reg_of X E \<in> gUsedRegs (fst w1)"
    and "WriteRegisters X E (SetNextPC X npc (fst w1), snd w1) = (True, w')"
proof -
  from report_back_good [OF assms(4)] obtain w1 where "WriteFlags X E w = (True, w1)"
    "WriteRegisters X E (SetNextPC X npc (fst w1), snd w1) = (True, w')" .
  with WriteFlags_uses_pc [OF assms(1-3)] that show ?thesis by fastforce
qed

section \<open>Executors that keep a condition while they succeed\<close>

text \<open>\<open>I\<close> is what every successful answer upholds (and a failed attempt to read instruction
  bytes, once the error has been cleared); \<open>A\<close> is what in addition holds after a register
  has been reported.\<close>

locale monitor =
  fixes E :: "'s executor" and I :: "'s \<Rightarrow> bool" and A :: "'s \<Rightarrow> bool"
  assumes compute: "I s \<Longrightarrow> I (snd (ComputeAddress E nm b i sc d n h s))"
    and readreg: "I s \<Longrightarrow> ReadReg E nm n rh v s = (True, v', s') \<Longrightarrow> I s'"
    and writereg: "I s \<Longrightarrow> WriteReg E nm n v s = (True, s') \<Longrightarrow> I s' \<and> A s'"
    and readmem: "I s \<Longrightarrow> ReadMem E a n h v s = (True, v', s') \<Longrightarrow> I s'"
    and retry: "I s \<Longrightarrow> ReadMem E a n h v s = (False, v', s') \<Longrightarrow> I (ClearFetchError E s')"
    and writemem: "I s \<Longrightarrow> WriteMem E a n v s = (True, s') \<Longrightarrow> I s'"
    and readfpu: "I s \<Longrightarrow> ReadFPU E f s = (True, f', s') \<Longrightarrow> I s'"
    and writefpu: "I s \<Longrightarrow> WriteFPU E f s = (True, s') \<Longrightarrow> I s'"
begin

lemma request_register_upholds: "upholds (\<lambda>w. I (snd w)) (request_register X E r h)"
  by (rule upholdsI) (auto simp: request_register_def Let_def split: prod.splits if_splits dest: readreg)

lemma ReadRegister_upholds: "upholds (\<lambda>w. I (snd w)) (ReadRegister X E r h)"
proof (rule upholdsI)
  fix w w' :: "'s world"
  assume "I (snd w)" and "ReadRegister X E r h w = (True, w')"
  then show "I (snd w')"
    using upholdsD [OF request_register_upholds, where w' = w' and w = "(g, snd w)" for g]
    by (auto simp: ReadRegister_def Let_def split: if_splits)
qed

lemma ReadRegisters_upholds: "upholds (\<lambda>w. I (snd w)) (ReadRegisters X E)"
proof -
  have 1: "upholds (\<lambda>w. I (snd w)) (ReadRegistersMemOp X E k)" for X k
  proof (rule upholdsI)
    fix w w' :: "'s world"
    assume "I (snd w)" and "ReadRegistersMemOp X E k w = (True, w')"
    then show "I (snd w')"
      unfolding ReadRegistersMemOp_def
      by (auto elim!: upholdsD [OF upholds_and_also [OF ReadRegister_upholds ReadRegister_upholds]])
  qed
  have 2: "upholds (\<lambda>w. I (snd w)) (ReadOperandRegister X E wr h xedo)" for X wr h xedo
  proof (rule upholdsI)
    fix w w' :: "'s world"
    assume "I (snd w)" and "ReadOperandRegister X E wr h xedo w = (True, w')"
    then show "I (snd w')"
      using upholdsD [OF ReadRegister_upholds, where w' = w' and w = w]
      by (auto simp: ReadOperandRegister_def Let_def split: if_splits)
  qed
  show ?thesis
  proof (rule upholdsI)
    fix w w' :: "'s world"
    assume "I (snd w)" and "ReadRegisters X E w = (True, w')"
    then show "I (snd w')"
      unfolding ReadRegisters_def Let_def
      by (auto elim!: upholdsD [OF upholds_and_also [OF upholds_each [OF 1] upholds_and_also [OF upholds_each [OF 2] upholds_each [OF 2]]]])
  qed
qed

lemma ReadFlags_upholds: "upholds (\<lambda>w. I (snd w)) (ReadFlags X H E)"
proof (rule upholdsI)
  fix w w' :: "'s world"
  assume i: "I (snd w)" and r: "ReadFlags X H E w = (True, w')"
  have f: "upholds (\<lambda>st. I (snd (snd st))) (READ_FLAG E rd fn)" for rd fn
    by (rule upholdsI) (auto simp: READ_FLAG_def split: prod.splits if_splits dest: readreg)
  show "I (snd w')"
  proof (cases "get_rflags_info (gXedd (fst w))")
    case None
    with i r show ?thesis by (auto simp: ReadFlags_def)
  next
    case (Some rf)
    obtain ok af fv s where e: "each (READ_FLAG E (flags_to_read rf)) flag_regs (pushfq H (fst w), 0, snd w) = (ok, af, fv, s)"
      by (metis prod_cases4)
    with r Some have "ok" and "snd w' = s" by (auto simp: ReadFlags_def Let_def split: if_splits)
    moreover have "upholds (\<lambda>st. I (snd (snd st))) (each (READ_FLAG E (flags_to_read rf)) flag_regs)"
      by (rule upholds_each) (rule f)
    ultimately show ?thesis using e i unfolding upholds_def by fastforce
  qed
qed

lemma fetch_upholds:
  assumes "I (snd w)"
  shows "I (snd (snd (fetch E pc n w)))"
  using assms
proof (induction n arbitrary: w)
  case 0
  then show ?case by simp
next
  case (Suc n)
  obtain ok d s where R: "ReadMem E pc (Suc n * 8) kReadExecutable (idata (fst w)) (snd w) = (ok, d, s)"
    by (metis prod_cases3)
  show ?case
  proof (cases ok)
    case True
    with R readmem [OF Suc.prems] show ?thesis by simp
  next
    case False
    with R retry [OF Suc.prems] have "I (ClearFetchError E s)" by simp
    with Suc.IH [of "((fst w)\<lparr>idata := d\<rparr>, ClearFetchError E s)"] R False show ?thesis by simp
  qed
qed

lemma FetchInstruction_upholds: "I (snd w) \<Longrightarrow> I (snd (snd (FetchInstruction X E w)))"
proof -
  assume i: "I (snd w)"
  obtain pc s where c: "ComputeAddress E ''CS'' (GetPC X E (fst w)) 0 0 0 8 kReadExecutable (snd w) = (pc, s)"
    by (metis surj_pair)
  with compute [OF i] have "I s" by (metis snd_conv)
  then show ?thesis using fetch_upholds [of "(fst w, s)"] c by (simp add: FetchInstruction_def)
qed

lemma fpu_upholds: "upholds (\<lambda>w. I (snd w)) (fpu_read E)" "upholds (\<lambda>w. I (snd w)) (fpu_write E)"
  by (rule upholdsI; auto simp: fpu_read_def fpu_write_def split: prod.splits if_splits dest: readfpu writefpu)+

lemma ReadMemoryOperand_upholds: "upholds (\<lambda>w. I (snd w)) (ReadMemoryOperand X E xedo k)"
proof (rule upholdsI)
  fix w w' :: "'s world"
  assume i: "I (snd w)" and r: "ReadMemoryOperand X E xedo k w = (True, w')"
  then obtain s where s: "I s" and "snd w' = s \<or>
      (\<exists>a n h v v'. ReadMem E a n h v s = (True, v', snd w'))"
    using compute [OF i]
    by (auto simp: ReadMemoryOperand_def Let_def split: prod.splits if_splits) (metis snd_conv)+
  then show "I (snd w')" using readmem by blast
qed

lemma ReadMemory_upholds: "upholds (\<lambda>w. I (snd w)) (ReadMemory X E)"
proof (rule upholdsI)
  fix w w' :: "'s world"
  assume i: "I (snd w)" and r: "ReadMemory X E w = (True, w')"
  have "upholds (\<lambda>w. I (snd w)) (\<lambda>w. case mem_slot (operand_name xedo) of None \<Rightarrow> (True, w)
      | Some k \<Rightarrow> ReadMemoryOperand X E xedo k w)" for xedo
    by (cases "mem_slot (operand_name xedo)") (simp_all add: upholds_succeed ReadMemoryOperand_upholds)
  then have "upholds (\<lambda>w. I (snd w)) (each (\<lambda>xedo w. case mem_slot (operand_name xedo) of
      None \<Rightarrow> (True, w) | Some k \<Rightarrow> ReadMemoryOperand X E xedo k w) ops)" for ops
    by (rule upholds_each)
  from upholdsD [OF this r [unfolded ReadMemory_def]] i show "I (snd w')" by simp
qed

lemma WriteMemory_upholds: "upholds (\<lambda>w. I (snd w)) (WriteMemory E)"
proof (rule upholdsI)
  fix w w' :: "'s world"
  assume i: "I (snd w)" and r: "WriteMemory E w = (True, w')"
  have "upholds I (WriteSlot E m)" for m
    by (rule upholdsI) (auto simp: WriteSlot_def split: if_splits dest: writemem)
  then have u: "upholds I (each (WriteSlot E) ms)" for ms by (rule upholds_each)
  obtain ok s where e: "each (WriteSlot E) [gMemory (fst w) 0, gMemory (fst w) 1] (snd w) = (ok, s)"
    by (metis surj_pair)
  with r have "ok" "snd w' = s" by (auto simp: WriteMemory_def simp del: each.simps)
  with upholdsD [OF u, OF e [unfolded \<open>ok\<close> [THEN eqTrueI]] i] show "I (snd w')" by simp
qed

lemma WriteFlags_upholds: "upholds (\<lambda>w. I (snd w)) (WriteFlags X E)"
proof (rule upholdsI)
  fix w w' :: "'s world"
  assume i: "I (snd w)" and r: "WriteFlags X E w = (True, w')"
  have "upholds I (WRITE_FLAG E wf af fn)" for wf af fn
    by (rule upholdsI) (auto simp: WRITE_FLAG_def split: prod.splits if_splits dest: writereg)
  then have u: "upholds I (each (WRITE_FLAG E wf af) fns)" for wf af fns by (rule upholds_each)
  show "I (snd w')"
  proof (cases "WidestRegister X E (reg X XED_REG_EFLAGS) \<notin> gModifiedRegs (fst w)")
    case True
    with r i show ?thesis by (auto simp: WriteFlags_def Let_def)
  next
    case False
    with r obtain wf af where "each (WRITE_FLAG E wf af) flag_regs (snd w) = (True, snd w')"
      by (auto simp: WriteFlags_def Let_def split: prod.splits if_splits)
    from upholdsD [OF u this i] show ?thesis .
  qed
qed

text \<open>The registers are reported while the program counter is in use, so at least one report
  is made.\<close>

lemma WriteRegisters_monitor:
  assumes "xed_ok X" and "r \<in> gUsedRegs (fst w)" and "is_pc X r" and "r < reg X XED_REG_LAST"
    and "I (snd w)" and "WriteRegisters X E w = (True, w')"
  shows "I (snd w') \<and> A (snd w')"
proof -
  let ?g = "restore_stack_pointer X (fst w)"
  have "gUsedRegs ?g = gUsedRegs (fst w)" by (simp add: restore_stack_pointer_def)
  with assms(2) have "r \<in> gUsedRegs ?g" by simp
  from write_order_pc_last [OF assms(1) this assms(3,4)]
  obtain rs pc where o: "write_order X ?g = rs @ [pc]" by blast
  have one: "upholds I (write_one X E ?g q)" for q
    by (rule upholdsI) (auto simp: write_one_def dest: writereg)
  have "each (write_one X E ?g) (rs @ [pc]) (snd w) = (True, snd w')"
    using WriteRegisters_eq [OF assms(1), of E w] assms(6) o by (auto simp: Let_def split: prod.splits)
  then obtain s where "each (write_one X E ?g) rs (snd w) = (True, s)" "write_one X E ?g pc s = (True, snd w')"
    by (auto simp: each_append and_also_def split: prod.splits if_splits)
  moreover from upholdsD [OF upholds_each [OF one] this(1) assms(5)] have "I s" .
  ultimately show ?thesis by (auto simp: write_one_def dest: writereg)
qed

lemma report_back_monitor:
  assumes "xed_ok X" and "addr_ok E" and "pc_plain X" and "pc_reg_of X E \<in> gUsedRegs (fst w)"
    and "I (snd w)" and "report_back X E npc w = Some (kGood, w')"
  shows "I (snd w') \<and> A (snd w')"
proof -
  obtain w1 where 1: "WriteFlags X E w = (True, w1)" "pc_reg_of X E \<in> gUsedRegs (fst w1)"
    "WriteRegisters X E (SetNextPC X npc (fst w1), snd w1) = (True, w')"
    by (rule report_back_uses [OF assms(1,2,4,6)])
  have "I (snd w1)" using upholdsD [OF WriteFlags_upholds 1(1)] assms(5) by simp
  moreover have "is_pc X (pc_reg_of X E)" "pc_reg_of X E < reg X XED_REG_LAST"
    using pc_reg_facts(1) [OF assms(1,2)] assms(3) by (auto simp: is_pc_def pc_plain_def)
  ultimately show ?thesis
    using WriteRegisters_monitor [OF assms(1) _ _ _ _ 1(3)] 1(2) by (simp add: SetNextPC_def set_slot_low_def)
qed

lemma commit_monitor:
  assumes "xed_ok X" and "addr_ok E" and "pc_plain X" and "pc_reg_of X E \<in> gUsedRegs (fst w)"
    and "I (snd w)" and "commit X E npc w = Some (kGood, w')"
  shows "I (snd w') \<and> A (snd w')"
proof -
  obtain w1 w2 where 1: "WriteMemory E w = (True, w1)" and 2: "fpu_write E w1 = (True, w2)"
    and 3: "report_back X E npc
      ((if gUsesMMX (fst w2) then CopyMMXStateFromFPU X E (fst w2) else fst w2), snd w2) = Some (kGood, w')"
    by (rule commit_good [OF assms(6)])
  have "I (snd w2)"
    using upholdsD [OF WriteMemory_upholds 1] upholdsD [OF fpu_upholds(2) 2] assms(5) by blast
  moreover have "pc_reg_of X E \<in> gUsedRegs (fst w2)"
    using WriteMemory_uses [of w E] fpu_uses(2) [of w1 E] 1 2 assms(4) by (auto simp: uses_more_def)
  ultimately show ?thesis
    using report_back_monitor [OF assms(1-3) _ _ 3] by (auto split: if_splits)
qed

lemma operate_monitor:
  assumes "xed_ok X" and "addr_ok E" and "pc_plain X" and "pc_reg_of X E \<in> gUsedRegs (fst w)"
    and "I (snd w)" and "operate X H E npc w = Some (kGood, w')"
  shows "I (snd w') \<and> A (snd w')"
proof -
  obtain w1 w2 npc' g where 1: "fpu_read E w = (True, w1)"
    and 2: "ReadMemory X E ((if gUsesMMX (fst w1) then CopyMMXStateToFPU X E (fst w1) else fst w1), snd w1) = (True, w2)"
    and 3: "perform X H E npc (fst w2) = Some (kGood, npc', g)"
    and 4: "commit X E npc' (g, snd w2) = Some (kGood, w')"
    by (rule operate_good [OF assms(6)])
  have "I (snd w2)"
    using upholdsD [OF ReadMemory_upholds 2] upholdsD [OF fpu_upholds(1) 1] assms(5) by simp
  moreover have "pc_reg_of X E \<in> gUsedRegs (fst w2)"
    using ReadMemory_uses [of "((if gUsesMMX (fst w1) then CopyMMXStateToFPU X E (fst w1) else fst w1), snd w1)" X E]
      fpu_uses(1) [of w E] 1 2 assms(4)
    by (auto simp: uses_more_def split: if_splits)
  then have "pc_reg_of X E \<in> gUsedRegs g" using kept_perform [OF 3] by simp
  ultimately show ?thesis using commit_monitor [OF assms(1-3) _ _ 4] by simp
qed

lemma decoded_monitor:
  assumes "xed_ok X" and "addr_ok E" and "pc_plain X" and "pc_reg_of X E \<in> gUsedRegs (fst w)"
    and "I (snd w)" and "decoded X H E w = Some (kGood, w')"
  shows "I (snd w') \<and> A (snd w')"
proof -
  obtain w1 w2 where 1: "ReadFlags X H E w = (True, w1)" and 2: "ReadRegisters X E w1 = (True, w2)"
    and 3: "(if is_nop (fst w2) then report_back X E (GetNextPC X E (fst w2)) w2
          else operate X H E (GetNextPC X E (fst w2)) w2) = Some (kGood, w')"
    by (rule decoded_good [OF assms(6)])
  have "I (snd w2)"
    using upholdsD [OF ReadFlags_upholds 1] upholdsD [OF ReadRegisters_upholds 2] assms(5) by blast
  moreover have "pc_reg_of X E \<in> gUsedRegs (fst w2)"
    using ReadFlags_uses [of w X H E] ReadRegisters_uses [of w1 X E] 1 2 assms(4) by (auto simp: uses_more_def)
  ultimately show ?thesis
  proof (cases "is_nop (fst w2)")
    case True
    with 3 have "report_back X E (GetNextPC X E (fst w2)) w2 = Some (kGood, w')" by simp
    then show ?thesis by (rule report_back_monitor [OF assms(1-3) \<open>pc_reg_of X E \<in> gUsedRegs (fst w2)\<close> \<open>I (snd w2)\<close>])
  next
    case False
    with 3 have "operate X H E (GetNextPC X E (fst w2)) w2 = Some (kGood, w')" by simp
    then show ?thesis by (rule operate_monitor [OF assms(1-3) \<open>pc_reg_of X E \<in> gUsedRegs (fst w2)\<close> \<open>I (snd w2)\<close>])
  qed
qed

lemma ExecuteOne_monitor:
  assumes "xed_ok X" and "addr_ok E" and "pc_plain X"
    and "I (snd w)" and "ExecuteOne X H E w = Some (kGood, w')"
  shows "I (snd w') \<and> A (snd w')"
proof -
  obtain w1 n w2 w3 where 1: "ReadPC X E (reset_instruction X (fst w), snd w) = (True, w1)"
    and 2: "FetchInstruction X E w1 = (n, w2)"
    and 3: "on_globals (\<lambda>g. DecodeInstruction X (word_bytes n (idata g)) (addr_size E) g) w2 = (True, w3)"
    and 4: "decoded X H E w3 = Some (kGood, w')"
    by (rule ExecuteOne_good [OF assms(5)])
  obtain g1 where g1: "gUsedRegs (fst w1) = {pc_reg_of X E}"
    by (rule ReadPC_reset [OF assms(1-3) 1]) auto
  have "I (snd w1)"
    by (rule upholdsD [OF ReadRegister_upholds 1 [unfolded ReadPC_def Let_def]]) (simp add: assms(4))
  then have "I (snd w3)"
    using FetchInstruction_upholds [of w1 X] 2 Decode_result(6) [OF 3] by simp
  moreover have "pc_reg_of X E \<in> gUsedRegs (fst w3)"
  proof -
    obtain v where "fst w2 = (fst w1)\<lparr>idata := v\<rparr>" by (rule FetchInstruction_globals [OF 2])
    then show ?thesis using Decode_result(2) [OF 3] g1 by simp
  qed
  ultimately show ?thesis by (intro decoded_monitor [OF assms(1-3) _ _ 4])
qed

lemma execute_loop_monitor:
  assumes "xed_ok X" and "addr_ok E" and "pc_plain X"
    and "I (snd w)" and "execute_loop X H E n w = Some (kGood, w')"
  shows "I (snd w') \<and> (0 < n \<longrightarrow> A (snd w'))"
  using assms(4,5)
proof (induction n arbitrary: w)
  case 0
  then show ?case by simp
next
  case (Suc n)
  obtain w1 where one: "ExecuteOne X H E w = Some (kGood, w1)" and rest: "execute_loop X H E n w1 = Some (kGood, w')"
    using Suc.prems(2) by (auto split: option.splits if_splits)
  from ExecuteOne_monitor [OF assms(1-3) Suc.prems(1) one] have "I (snd w1) \<and> A (snd w1)" .
  with Suc.IH [OF _ rest] rest show ?case by (cases n; simp)
qed

lemma Execute_monitor:
  assumes "xed_ok X" and "addr_ok E" and "pc_plain X"
    and "I (snd w)" and "Execute X H E n w = Some (kGood, w')"
  shows "I (snd w') \<and> (0 < n \<longrightarrow> A (snd w'))"
  using execute_loop_monitor [OF assms(1-4)] assms(4,5)
  by (auto simp: Execute_def split: if_splits)

end

end
