(* ===== verification/Branch.thy ===== *)
theory Branch
  imports Monitor
begin

text \<open>
  A conditional branch from the call of \<open>Execute\<close> to the reports: the flags are obtained
  from the executor, the condition is decided on its answers, and the program counter is
  the only register reported.
\<close>

section \<open>Operands that need no further request\<close>

text \<open>XED's flags registers are neither stack pseudo-registers nor FPU or MMX registers.\<close>

definition flags_plain :: "xed \<Rightarrow> bool" where
  "flags_plain X \<longleftrightarrow> (\<forall>r \<in> {reg X XED_REG_EFLAGS, reg X XED_REG_RFLAGS}.
     get_reg_class X r \<notin> {XED_REG_CLASS_X87, XED_REG_CLASS_PSEUDOX87, XED_REG_CLASS_MMX} \<and>
     \<not> is_stack_pseudo X r)"

text \<open>No operand is in memory, and the register operands are those XED appends to a branch: the
  program counter, and the flags register, which is only read.\<close>

definition pc_operands :: "xed \<Rightarrow> 's executor \<Rightarrow> xed_decoded_inst \<Rightarrow> bool" where
  "pc_operands X E d \<longleftrightarrow> (\<forall>xedo \<in> set (get_operands d).
     mem_slot (operand_name xedo) = None \<and>
     (is_reg_operand (operand_name xedo) \<longrightarrow> get_reg d (operand_name xedo) = pc_reg_of X E \<or>
        get_reg d (operand_name xedo) = flags_reg_of X E \<and> \<not> operand_written xedo))"

lemma mem_indices_none:
  "\<forall>xedo \<in> set ops. mem_slot (operand_name xedo) = None \<Longrightarrow> mem_indices ops k = []"
  by (induction ops arbitrary: k) (auto elim: is_mem_operand.elims mem_slot.elims)

text \<open>Asking once more for the program counter changes nothing.\<close>

lemma ReadRegister_pc_again:
  assumes "xed_ok X" and "addr_ok E" and "pc_plain X"
    and "pc_reg_of X E \<in> gUsedRegs (fst w)" and "pc_reg_of X E \<in> gModifiedRegs (fst w)"
  shows "ReadRegister X E (pc_reg_of X E) h w = (True, w)"
proof -
  note p = pc_plainD [OF assms(1-3) refl]
  note f = pc_reg_facts(2) [OF assms(1,2)]
  have "ReadRegister X E (pc_reg_of X E) h w = request_register X E (pc_reg_of X E) h w"
    using p by (simp add: ReadRegister_def Let_def)
  also have "\<dots> = (True, w)"
    using assms(4,5) by (simp add: request_register_def f insert_absorb Let_def)
  finally show ?thesis .
qed

lemma flags_reg_plain:
  assumes "xed_ok X" and "flags_plain X"
  shows "WidestRegister X E (flags_reg_of X E) = flags_reg_of X E" "flags_reg_of X E \<noteq> reg X XED_REG_INVALID"
    "get_reg_class X (flags_reg_of X E) \<notin> {XED_REG_CLASS_X87, XED_REG_CLASS_PSEUDOX87, XED_REG_CLASS_MMX}"
    "\<not> is_stack_pseudo X (flags_reg_of X E)"
proof -
  note p = xed_ok_pairs(7) [OF assms(1)]
  show "WidestRegister X E (flags_reg_of X E) = flags_reg_of X E"
    unfolding flags_reg_of_def by (rule WidestRegister_idem [OF p])
  have c: "flags_reg_of X E \<in> {reg X XED_REG_EFLAGS, reg X XED_REG_RFLAGS}"
    by (simp add: flags_reg_of_def WidestRegister_pair [OF p])
  then show "flags_reg_of X E \<noteq> reg X XED_REG_INVALID" using gpr_pairD(6,7) [OF p] by auto
  show "get_reg_class X (flags_reg_of X E) \<notin> {XED_REG_CLASS_X87, XED_REG_CLASS_PSEUDOX87, XED_REG_CLASS_MMX}"
    "\<not> is_stack_pseudo X (flags_reg_of X E)"
    using c assms(2) unfolding flags_plain_def by blast+
qed

text \<open>The flags register, once in use, is not requested as a whole.\<close>

lemma ReadRegister_flags_again:
  assumes "xed_ok X" and "flags_plain X" and "flags_reg_of X E \<in> gUsedRegs (fst w)"
  shows "ReadRegister X E (flags_reg_of X E) kGeneral w = (True, w)"
proof -
  note f = flags_reg_plain [OF assms(1,2), of E]
  have "ReadRegister X E (flags_reg_of X E) kGeneral w = request_register X E (flags_reg_of X E) kGeneral w"
    using f(2-4) by (simp add: ReadRegister_def Let_def)
  then show ?thesis using assms(3) by (simp add: request_register_def f(1) Let_def)
qed

lemma each_succeeds: "(\<And>x. x \<in> set xs \<Longrightarrow> f x w = (True, w)) \<Longrightarrow> each f xs w = (True, w)"
  by (induction xs) auto

lemma ReadRegisters_pc:
  assumes "xed_ok X" and "addr_ok E" and "pc_plain X" and "pc_operands X E (gXedd (fst w))"
    and "pc_reg_of X E \<in> gUsedRegs (fst w)" and "pc_reg_of X E \<in> gModifiedRegs (fst w)"
    and "flags_plain X" and "flags_reg_of X E \<in> gUsedRegs (fst w)"
  shows "ReadRegisters X E w = (True, w)"
proof -
  let ?ops = "get_operands (gXedd (fst w))"
  have "ReadOperandRegister X E wr h xedo w = (True, w)" if "xedo \<in> set ?ops" and "\<not> wr \<longrightarrow> h = kGeneral" for wr h xedo
    using assms(4) that ReadRegister_pc_again [OF assms(1-3,5,6)] ReadRegister_flags_again [OF assms(1,7,8)]
    by (auto simp: ReadOperandRegister_def pc_operands_def Let_def)
  then have "each (ReadOperandRegister X E wr h) ?ops w = (True, w)" if "\<not> wr \<longrightarrow> h = kGeneral" for wr h
    using that by (intro each_succeeds)
  moreover have "mem_indices ?ops 0 = []"
    using assms(4) by (intro mem_indices_none) (simp add: pc_operands_def)
  ultimately show ?thesis by (simp add: ReadRegisters_def and_also_def)
qed

lemma ReadMemory_none:
  assumes "\<forall>xedo \<in> set (get_operands (gXedd (fst w))). mem_slot (operand_name xedo) = None"
  shows "ReadMemory X E w = (True, clear_present (fst w), snd w)"
  unfolding ReadMemory_def using assms by (intro each_succeeds) simp

section \<open>Conditional branches\<close>

text \<open>The flags a condition depends on.\<close>

fun cc_flags :: "iform_jcc \<Rightarrow> string list" where
  "cc_flags JO = [''of'']" | "cc_flags JNO = [''of'']"
| "cc_flags JB = [''cf'']" | "cc_flags JNB = [''cf'']"
| "cc_flags JZ = [''zf'']" | "cc_flags JNZ = [''zf'']"
| "cc_flags JBE = [''cf'', ''zf'']" | "cc_flags JNBE = [''cf'', ''zf'']"
| "cc_flags JS = [''sf'']" | "cc_flags JNS = [''sf'']"
| "cc_flags JP = [''pf'']" | "cc_flags JNP = [''pf'']"
| "cc_flags JL = [''sf'', ''of'']" | "cc_flags JNL = [''sf'', ''of'']"
| "cc_flags JLE = [''zf'', ''sf'', ''of'']" | "cc_flags JNLE = [''zf'', ''sf'', ''of'']"

lemma cc_holds_flags:
  "\<forall>m \<in> set (cc_flags j). flag m f = flag m f' \<Longrightarrow> cc_holds (cc_number j) f = cc_holds (cc_number j) f'"
  by (cases j) (simp_all add: cc_holds_def)

lemma cc_flags_known: "set (cc_flags j) \<subseteq> set (map fst flag_regs)"
  by (cases j) (simp_all add: flag_regs_def)

text \<open>A decoded branch: what XED reports of it.\<close>

definition plain_branch :: "xed \<Rightarrow> 's executor \<Rightarrow> xed_decoded_inst \<Rightarrow> iform_jcc \<Rightarrow> xed_simple_flag \<Rightarrow> bool" where
  "plain_branch X E d j rf \<longleftrightarrow>
     get_category d \<notin> {XED_CATEGORY_NOP, XED_CATEGORY_WIDENOP} \<and> pc_operands X E d \<and>
     get_rflags_info d = Some rf \<and> ucast (ucast (flag_written rf) :: u16) = (0 :: u64) \<and>
     (\<forall>m \<in> set (cc_flags j). bit (flag_read rf) (flag_bit m))"

lemma serves_flags_logged:
  assumes "serves_flags E ans"
  shows "serves_flags (logged E) ans"
  unfolding serves_flags_def
proof (intro allI impI)
  fix name fv and sl sl' :: "'a \<times> written list" and fv'
  assume "ReadReg (logged E) name 1 kConditionCode fv sl = (True, fv', sl')"
  then have "ReadReg E name 1 kConditionCode fv (fst sl) = (True, fv', fst sl')"
    by (cases sl) (auto simp: logged_def split: prod.splits)
  then show "bit fv' 0 = ans name" by (rule serves_flagsD [OF assms])
qed

lemma RFLAGS_slot:
  assumes "xed_ok X"
  shows "reg X XED_REG_RIP \<noteq> reg X XED_REG_RFLAGS"
  using assms unfolding xed_ok_def by (auto simp del: upt_Suc)

lemma perform_branch:
  assumes "get_iform_enum (gXedd g) = Jcc j b"
  shows "perform X H E npc g = Some (kGood, mask_pc E (if cc_holds (cc_number j) (aflag X g)
      then npc + word_of_int (get_branch_displacement (gXedd g)) else npc), g)"
  by (simp add: perform_def Emulate_Jcc [OF assms])

lemma mask_pc_idem: "mask_pc E (mask_pc E a) = mask_pc E a"
  using mask_pc_add(1) [of E a 0] by simp

text \<open>Without memory operands and without the FPU nothing is read or written between the
  gathering of registers and the flags.\<close>

lemma operate_plain:
  assumes "\<forall>xedo \<in> set (get_operands (gXedd (fst w))). mem_slot (operand_name xedo) = None"
    and "\<not> gUsesFPU (fst w)" and "\<not> gUsesMMX (fst w)"
    and "perform X H E npc (clear_present (fst w)) = Some (kGood, npc', clear_present (fst w))"
  shows "operate X H E npc w = report_back X E npc' (clear_present (fst w), snd w)"
proof -
  have c: "\<not> gUsesFPU (clear_present (fst w))" "\<not> gUsesMMX (clear_present (fst w))"
    "\<not> present (gMemory (clear_present (fst w)) 0)" "\<not> present (gMemory (clear_present (fst w)) 1)"
    using assms(2,3) by (simp_all add: clear_present_def)
  have "WriteMemory E (clear_present (fst w), snd w) = (True, clear_present (fst w), snd w)"
    using c(3,4) by (simp add: WriteMemory_def WriteSlot_def)
  then have "commit X E npc' (clear_present (fst w), snd w) = report_back X E npc' (clear_present (fst w), snd w)"
    using c(1,2) by (simp add: commit_def or_return_def fpu_write_def)
  then show ?thesis
    using assms(2-4) ReadMemory_none [OF assms(1)]
    by (simp add: operate_def or_return_def fpu_read_def)
qed

lemma logged_same [simp]:
  "pc_reg_of X (logged E) = pc_reg_of X E" "flags_reg_of X (logged E) = flags_reg_of X E"
  "addr_ok (logged E) = addr_ok E" "mask_pc (logged E) v = mask_pc E v"
  by (simp_all add: pc_reg_of_def flags_reg_of_def addr_ok_def mask_pc_def)

text \<open>Once decoded, an instruction that writes no flags and has no operand but the program
  counter obtains its flags and goes on to \<open>operate\<close>.\<close>

definition with_flags :: "xed \<Rightarrow> 's executor \<Rightarrow> u64 \<Rightarrow> gstate \<Rightarrow> gstate" where
  "with_flags X E af g = set_aflag X af (g\<lparr>gWriteBackFlags := 0,
     gUsedRegs := {flags_reg_of X E, pc_reg_of X E}, gModifiedRegs := {pc_reg_of X E}\<rparr>)"

lemma with_flags_simps [simp]:
  "gXedd (with_flags X E af g) = gXedd g" "gStackPtrAlias (with_flags X E af g) = gStackPtrAlias g"
  "gUsedRegs (with_flags X E af g) = {flags_reg_of X E, pc_reg_of X E}"
  "gModifiedRegs (with_flags X E af g) = {pc_reg_of X E}"
  "gUsesFPU (with_flags X E af g) = gUsesFPU g" "gUsesMMX (with_flags X E af g) = gUsesMMX g"
  "aflag X (with_flags X E af g) = af" "is_nop (with_flags X E af g) = is_nop g"
  by (simp_all add: with_flags_def is_nop_def) (simp_all add: set_aflag_def)

lemma with_flags_pc:
  "xed_ok X \<Longrightarrow> gRegs (with_flags X E af g) (reg X XED_REG_RIP) = gRegs g (reg X XED_REG_RIP)"
  using RFLAGS_slot [of X] by (simp add: with_flags_def set_aflag_def)

lemma decoded_flags:
  assumes "xed_ok X" and "addr_ok E" and "pc_plain X" and "serves_flags E ans"
    and "get_rflags_info (gXedd g) = Some rf" and "ucast (ucast (flag_written rf) :: u16) = (0 :: u64)"
    and "pc_operands X E (gXedd g)" and "\<not> is_nop g"
    and "gUsedRegs g = {pc_reg_of X E}" and "gModifiedRegs g = {pc_reg_of X E}"
    and "decoded X H (logged E) (g, s, log) = Some (kGood, w')" and "flags_plain X"
  obtains af s1 where "\<forall>fn \<in> set flag_regs. flag (fst fn) af = flag_answer ans (flags_to_read rf) (pushfq H g) fn"
    and "operate X H (logged E) (GetNextPC X (logged E) (with_flags X E af g)) (with_flags X E af g, s1, log) = Some (kGood, w')"
proof -
  have rfi: "get_rflags_info (gXedd (fst (g, s, log))) = Some rf" using assms(5) by simp
  obtain u1 u2 where u: "ReadFlags X H (logged E) (g, s, log) = (True, u1)"
    "ReadRegisters X (logged E) u1 = (True, u2)"
    "(if is_nop (fst u2) then report_back X (logged E) (GetNextPC X (logged E) (fst u2)) u2
      else operate X H (logged E) (GetNextPC X (logged E) (fst u2)) u2) = Some (kGood, w')"
    by (rule decoded_good [OF assms(11)])
  obtain af s' where F: "u1 = (with_flags X E af g, s')"
    and af: "\<forall>fn \<in> set flag_regs. flag (fst fn) af = flag_answer ans (flags_to_read rf) (pushfq H g) fn"
    by (rule ReadFlags_served [OF rfi serves_flags_logged [OF assms(4)] u(1)], rule that)
      (simp_all add: assms(6,9,10) flags_reg_of_def with_flags_def)
  obtain s1 where s': "s' = (s1, log)"
    using logged.ReadFlags_looks [of "(g, s, log)" X H E] u(1) F by (cases s') (simp add: looks_def)
  let ?w = "(with_flags X E af g, s1, log)"
  have "ReadRegisters X (logged E) ?w = (True, ?w)"
    using assms(7) by (intro ReadRegisters_pc [OF assms(1) _ assms(3) _ _ _ assms(12)]) (simp_all add: assms(2) pc_operands_def)
  then have "u2 = ?w" using F s' u(2) by simp
  with u(3) assms(8) show thesis by (intro that [OF af]) simp
qed

text \<open>A branch that goes through \<open>operate\<close> reports the program counter only.\<close>

lemma branch_operate:
  assumes "xed_ok X" and "addr_ok E" and "pc_plain X" and "get_iform_enum (gXedd g) = Jcc j b"
    and "pc_operands X E (gXedd g)" and "gUsedRegs g = {flags_reg_of X E, pc_reg_of X E}"
    and "gModifiedRegs g = {pc_reg_of X E}" and "gStackPtrAlias g = reg X XED_REG_INVALID"
    and "\<not> gUsesFPU g" and "\<not> gUsesMMX g"
    and "operate X H (logged E) npc (g, s, log) = Some (kGood, g', s', log')"
  shows "\<exists>v. log' = log @ [WroteReg (reg_enum_t2str X (pc_reg_of X E)) (addr_size E) v] \<and>
    get_bits 0 64 v = mask_pc E (if cc_holds (cc_number j) (aflag X g)
      then npc + word_of_int (get_branch_displacement (gXedd g)) else npc)"
proof -
  let ?g = "clear_present g"
  define t where "t = mask_pc E (if cc_holds (cc_number j) (aflag X g)
    then npc + word_of_int (get_branch_displacement (gXedd g)) else npc)"
  have g: "gXedd ?g = gXedd g" "aflag X ?g = aflag X g" by (simp_all add: clear_present_def aflag_def)
  have "perform X H (logged E) npc ?g = Some (kGood, t, ?g)"
    using perform_branch [of ?g j b X H "logged E"] assms(4) by (simp add: t_def g)
  then have rb: "report_back X (logged E) t (?g, s, log) = Some (kGood, g', s', log')"
    using operate_plain [of "(g, s, log)" X H "logged E"] assms(5,9-11) by (simp add: pc_operands_def)
  have ok: "addr_ok (logged E)" using assms(2) by simp
  obtain v where "get_bits 0 64 v = t"
    "WriteReg (logged E) (reg_enum_t2str X (pc_reg_of X E)) (addr_size E) v (s, log) = (True, s', log')"
    using report_back_pc [OF assms(1) ok assms(3) _ _ _ _ rb] assms(6-8) by (auto simp: clear_present_def)
  then show ?thesis by (auto simp: t_def logged_def split: prod.splits)
qed

text \<open>The condition depends on flags the instruction reads, which are the executor's.\<close>

lemma cc_holds_answers:
  assumes "\<forall>fn \<in> set flag_regs. flag (fst fn) af = flag_answer ans (flags_to_read rf) pf fn"
    and "\<forall>(nm, i) \<in> set rflags_bits. ans nm = bit f i"
    and "\<forall>m \<in> set (cc_flags j). bit (flag_read rf) (flag_bit m)"
  shows "cc_holds (cc_number j) af = cc_holds (cc_number j) f"
proof (rule cc_holds_flags, rule ballI)
  fix m assume m: "m \<in> set (cc_flags j)"
  then obtain nm where "(m, nm) \<in> set flag_regs" using cc_flags_known [of j] by fastforce
  then have "(nm, flag_bit m) \<in> set rflags_bits" unfolding flag_regs_places [symmetric] by force
  moreover have "depends_on_flag rf (flag_bit m)" using assms(3) m by (simp add: depends_on_flag_def)
  ultimately show "flag m af = flag m f"
    using assms(1) [unfolded flag_answers_places] assms(2) unfolding flag_def by fastforce
qed

lemma branch_writes:
  assumes "xed_ok X" and "addr_ok E" and "pc_plain X" and "stands_at X E pc"
    and "code_at X E pc d" and "get_iform_enum d = Jcc j b" and "plain_branch X E d j rf"
    and "serves_flags E ans" and "\<forall>(nm, i) \<in> set rflags_bits. ans nm = bit f i"
    and "Execute X H (logged E) 1 (g, s, log) = Some (kGood, g', s', log')" and "flags_plain X"
  shows "\<exists>v. log' = log @ [WroteReg (reg_enum_t2str X (pc_reg_of X E)) (addr_size E) v] \<and>
    get_bits 0 64 v = mask_pc E (pc + of_nat (get_length d) +
      (if cc_holds (cc_number j) f then word_of_int (get_branch_displacement d) else 0))"
proof -
  let ?pc = "pc_reg_of X E"
  note br = assms(7) [unfolded plain_branch_def]
  have one: "ExecuteOne X H (logged E) (g, s, log) = Some (kGood, g', s', log')"
    using assms(10) by (auto simp: Execute_def split: option.splits if_splits)
  obtain g3 s3 where d: "decoded X H (logged E) (g3, s3, log) = Some (kGood, g', s', log')"
    and g3: "gXedd g3 = d" "gUsedRegs g3 = {?pc}" "gModifiedRegs g3 = {?pc}"
    "get_bits 0 (addr_size E) (gRegs g3 (reg X XED_REG_RIP)) = pc" "gStackPtrAlias g3 = reg X XED_REG_INVALID"
    "\<not> gUsesFPU g3" "\<not> gUsesMMX g3"
    by (rule ExecuteOne_decoded [OF assms(1-5) one])
  have n: "\<not> is_nop g3" using br g3(1) by (simp add: is_nop_def)
  obtain af s4 where af: "\<forall>fn \<in> set flag_regs. flag (fst fn) af = flag_answer ans (flags_to_read rf) (pushfq H g3) fn"
    and o: "operate X H (logged E) (GetNextPC X (logged E) (with_flags X E af g3)) (with_flags X E af g3, s4, log) =
      Some (kGood, g', s', log')"
    by (rule decoded_flags [OF assms(1-3,8) _ _ _ n g3(2,3) d assms(11), of rf]) (simp_all add: g3(1) br)
  have npc: "GetNextPC X (logged E) (with_flags X E af g3) = mask_pc E (pc + of_nat (get_length d))"
    using ReadGPR_pc [OF assms(1), of "logged E" "with_flags X E af g3" pc] assms(2) g3(1,4)
    by (simp add: with_flags_pc [OF assms(1)])
  have cc: "cc_holds (cc_number j) af = cc_holds (cc_number j) f"
    by (rule cc_holds_answers [OF af assms(9)]) (use br in auto)
  from branch_operate [OF assms(1-3) _ _ _ _ _ _ _ o, of j b] show ?thesis
    by (cases "cc_holds (cc_number j) f")
      (simp_all add: g3 assms(6) br npc cc mask_pc_add mask_pc_idem)
qed

text \<open>
  C10: end to end, for any executor with the program counter \<open>pc\<close> that serves the flags of
  the word \<open>f\<close> under their names: a conditional branch, which XED reports to read the flags
  of its condition and gives the program counter and the flags register as operands, reports
  exactly one register, the program counter, and its value is the next instruction or the
  target according to the condition code of the architecture on \<open>f\<close>; the state the globals
  were left in by earlier instructions plays no part.
\<close>

theorem branch_reports_target:
  assumes "xed_ok X" and "addr_ok E" and "pc_plain X" and "stands_at X E pc"
    and "code_at X E pc d" and "get_iform_enum d = Jcc j b" and "plain_branch X E d j rf"
    and "serves_flags E ans" and "\<forall>(nm, i) \<in> set rflags_bits. ans nm = bit f i"
    and "Execute X H (logged E) 1 (g, s, log) = Some (kGood, g', s', log')" and "flags_plain X"
  shows "\<exists>v. log' = log @ [WroteReg (reg_enum_t2str X (pc_reg_of X E)) (addr_size E) v] \<and>
    get_bits 0 64 v = mask_pc E (pc + of_nat (get_length d) +
      (if cc_holds (cc_number j) f then word_of_int (get_branch_displacement d) else 0))"
  by (rule branch_writes [OF assms])

text \<open>JZ back by two bytes at 0x401000, on a machine whose zero flag is set; its operands are the
  displacement, RIP and RFLAGS.\<close>

definition jz_rflags :: xed_simple_flag where
  "jz_rflags = \<lparr>flag_read = 0x40, flag_written = 0, flag_may_write = False\<rparr>"

definition jz_inst :: xed_decoded_inst where
  "jz_inst = sample_inst\<lparr>get_iform_enum := Jcc JZ RELBRb, get_branch_displacement := - 4,
     get_length := 2, get_rflags_info := Some jz_rflags,
     get_reg := (\<lambda>_. 0)(XED_OPERAND_REG0 := 4, XED_OPERAND_REG1 := 6),
     get_operands := [
       \<lparr>operand_name = XED_OPERAND_OTHER 0, operand_visibility = XED_OPVIS_EXPLICIT, operand_read = True,
         operand_written = False, operand_conditional_write = False\<rparr>,
       \<lparr>operand_name = XED_OPERAND_REG0, operand_visibility = XED_OPVIS_SUPPRESSED, operand_read = True,
         operand_written = True, operand_conditional_write = False\<rparr>,
       \<lparr>operand_name = XED_OPERAND_REG1, operand_visibility = XED_OPVIS_SUPPRESSED, operand_read = True,
         operand_written = False, operand_conditional_write = False\<rparr>]\<rparr>"

definition jz_xed :: xed where
  "jz_xed = sample_xed\<lparr>xed_decode := (\<lambda>st bs. (True, jz_inst))\<rparr>"

definition jz_executor :: "unit executor" where
  "jz_executor = \<lparr>addr_size = 64, has_avx = False, has_avx512 = False,
     ComputeAddress = (\<lambda>_ b i s d _ _ u. (Executor_ComputeAddress b i s d, u)),
     ReadReg = (\<lambda>nm _ _ _ u. (True, if nm = ''RIP'' then 0x401000 else of_bool (nm = ''ZF''), u)),
     WriteReg = (\<lambda>_ _ _ u. (True, u)), ReadMem = (\<lambda>_ _ _ d u. (True, d, u)),
     WriteMem = (\<lambda>_ _ _ u. (True, u)), ReadFPU = (\<lambda>f u. (True, f, u)),
     WriteFPU = (\<lambda>_ u. (True, u)), ClearFetchError = (\<lambda>u. u)\<rparr>"

theorem branch_reports_target_witness:
  "xed_ok jz_xed \<and> addr_ok jz_executor \<and> pc_plain jz_xed \<and> stands_at jz_xed jz_executor 0x401000 \<and>
   (\<exists>g' s' log' v. Execute jz_xed sample_host (logged jz_executor) 1 (sample_gstate, (), []) = Some (kGood, g', s', log') \<and>
      log' = [WroteReg ''RIP'' 64 v] \<and> get_bits 0 64 v = (0x400FFE :: u64))"
proof -
  have x: "xed_ok jz_xed" "addr_ok jz_executor" "pc_plain jz_xed"
    using sample_xed_ok
    by (simp_all add: jz_xed_def xed_ok_def gpr_pair_def addr_ok_def jz_executor_def
        pc_plain_def is_stack_pseudo_def sample_xed_simps)
  have n: "reg_enum_t2str jz_xed (pc_reg_of jz_xed jz_executor) = ''RIP''" "addr_size jz_executor = 64"
    "mask_pc jz_executor (0x401000 + of_nat (get_length jz_inst) +
       (if cc_holds (cc_number JZ) 0x40 then word_of_int (get_branch_displacement jz_inst) else 0)) = 0x400FFE"
    by code_simp+
  have pc: "stands_at jz_xed jz_executor 0x401000"
    by (simp add: stands_at_def n) (simp add: jz_executor_def get_bits_def take_bit_eq_mod)
  have d: "code_at jz_xed jz_executor 0x401000 jz_inst" by (rule code_at_everywhere) (simp add: jz_xed_def)
  have j: "get_iform_enum jz_inst = Jcc JZ RELBRb" by (simp add: jz_inst_def)
  have b: "plain_branch jz_xed jz_executor jz_inst JZ jz_rflags" by code_simp
  have a: "serves_flags jz_executor (\<lambda>nm. nm = ''ZF'')"
    by (simp add: serves_flags_def jz_executor_def)
  have f: "\<forall>(nm, i) \<in> set rflags_bits. (nm = ''ZF'') = bit (0x40 :: u64) i"
    by (simp add: rflags_bits_def)
  have p: "flags_plain jz_xed" by (simp add: jz_xed_def flags_plain_def is_stack_pseudo_def sample_xed_simps)
  let ?r = "Execute jz_xed sample_host (logged jz_executor) 1 (sample_gstate, (), [])"
  have "map_option fst ?r = Some kGood" by code_simp
  then obtain g' s' log' where r: "?r = Some (kGood, g', s', log')" by auto
  from branch_reports_target [OF x pc d j b a f r p] r x pc show ?thesis by (simp only: n) auto
qed

end
