(* ===== verification/Coherence.thy ===== *)
theory Coherence
  imports Branch
begin

text \<open>
  The register cache of a 64-bit executor while an instruction is prepared: every register
  in use holds the value the executor serves for it, and the registers marked as modified
  are the program counter and the written operands.
\<close>

section \<open>The cache mirrors the machine\<close>

text \<open>A register whose enclosing register is an ordinary one of 64 bits.\<close>

definition plain_reg :: "xed \<Rightarrow> xed_reg \<Rightarrow> bool" where
  "plain_reg X r \<longleftrightarrow> (let q = get_largest_enclosing_register X r in
     q \<noteq> reg X XED_REG_INVALID \<and> get_largest_enclosing_register X q = q \<and>
     get_register_width_bits64 X q = 64 \<and> \<not> in_ymm X q \<and> \<not> in_zmm X q)"

lemma WidestRegister_plain:
  "addr_size E = 64 \<Longrightarrow> plain_reg X r \<Longrightarrow> WidestRegister X E r = get_largest_enclosing_register X r"
  by (auto simp: WidestRegister_def plain_reg_def in_ymm_def in_zmm_def Let_def)

lemma plain_reg_pair: "gpr_pair X e r \<Longrightarrow> plain_reg X (reg X e) \<and> plain_reg X (reg X r)"
  unfolding gpr_pair_def plain_reg_def in_ymm_def in_zmm_def by simp

text \<open>What \<open>ReadRegister\<close> can be given: no register at all, or a plain one, or one of the
  pseudo-registers of the stack, for which it takes the stack pointer.\<close>

definition gathered_reg :: "xed \<Rightarrow> xed_reg \<Rightarrow> bool" where
  "gathered_reg X r \<longleftrightarrow> r = reg X XED_REG_INVALID \<or>
     get_reg_class X r \<notin> {XED_REG_CLASS_X87, XED_REG_CLASS_PSEUDOX87, XED_REG_CLASS_MMX} \<and>
     plain_reg X (if is_stack_pseudo X r then reg X XED_REG_ESP else r)"

definition gathered_regs :: "xed \<Rightarrow> xed_decoded_inst \<Rightarrow> bool" where
  "gathered_regs X d \<longleftrightarrow>
     (\<forall>k \<in> set (mem_indices (get_operands d) 0).
        gathered_reg X (get_base_reg d k) \<and> gathered_reg X (get_index_reg d k)) \<and>
     (\<forall>xedo \<in> set (get_operands d). is_reg_operand (operand_name xedo) \<longrightarrow>
        get_reg d (operand_name xedo) \<noteq> 0 \<longrightarrow> gathered_reg X (get_reg d (operand_name xedo)))"

text \<open>The executor answers \<open>val\<close> when it is asked for a 64-bit register.\<close>

definition serves :: "'s executor \<Rightarrow> (string \<Rightarrow> u64) \<Rightarrow> bool" where
  "serves E val \<longleftrightarrow> (\<forall>nm h v s v' s'. ReadReg E nm 64 h v s = (True, v', s') \<longrightarrow> get_bits 0 64 v' = val nm)"

text \<open>Every register in use encloses itself and holds what the executor serves for it, the
  flags excepted, which are obtained one by one.\<close>

definition coherent :: "xed \<Rightarrow> (string \<Rightarrow> u64) \<Rightarrow> gstate \<Rightarrow> bool" where
  "coherent X val g \<longleftrightarrow> (\<forall>r \<in> gUsedRegs g. get_largest_enclosing_register X r = r \<and>
     (r \<noteq> reg X XED_REG_RFLAGS \<longrightarrow> get_bits 0 64 (gRegs g r) = val (reg_enum_t2str X r)))"

definition gathering :: "xed \<Rightarrow> (string \<Rightarrow> u64) \<Rightarrow> xed_decoded_inst \<Rightarrow> 's world \<Rightarrow> bool" where
  "gathering X val d w \<longleftrightarrow> coherent X val (fst w) \<and> gXedd (fst w) = d \<and>
     \<not> gUsesFPU (fst w) \<and> \<not> gUsesMMX (fst w)"

lemma servesD: "serves E val \<Longrightarrow> ReadReg E nm 64 h v s = (True, v', s') \<Longrightarrow> get_bits 0 64 v' = val nm"
  unfolding serves_def by blast

lemma serves_logged: "serves E val \<Longrightarrow> serves (logged E) val"
  unfolding serves_def [of "logged E"]
  by (auto simp: logged_def split: prod.splits intro: servesD)

lemma request_gathering:
  assumes "addr_size E = 64" and "plain_reg X r" and "serves E val"
  shows "upholds (gathering X val d) (request_register X E r h)"
proof (rule upholdsI)
  fix w w'
  assume w: "gathering X val d w" and R: "request_register X E r h w = (True, w')"
  let ?q = "get_largest_enclosing_register X r"
  have q: "WidestRegister X E r = ?q" "get_register_width_bits64 X ?q = 64"
    "get_largest_enclosing_register X ?q = ?q"
    using assms(1,2) WidestRegister_plain [of E X r] by (auto simp: plain_reg_def Let_def)
  show "gathering X val d w'"
  proof (cases "?q \<in> gUsedRegs (fst w)")
    case True
    then have "w' = ((if kWriteBack = h then (fst w)\<lparr>gModifiedRegs := insert ?q (gModifiedRegs (fst w))\<rparr> else fst w), snd w)"
      using R by (cases "kWriteBack = h") (auto simp: request_register_def q Let_def)
    then show ?thesis using w by (simp add: gathering_def coherent_def)
  next
    case False
    obtain ok v s' where v: "ReadReg E (reg_enum_t2str X ?q) 64 h (put_bits 0 64 (0 :: u64) (gRegs (fst w) ?q)) (snd w) = (ok, v, s')"
      by (metis prod_cases3)
    have ok: "ok" and w': "gUsedRegs (fst w') = insert ?q (gUsedRegs (fst w))"
      "gRegs (fst w') = (gRegs (fst w))(?q := v)" "gXedd (fst w') = gXedd (fst w)"
      "gUsesFPU (fst w') = gUsesFPU (fst w)" "gUsesMMX (fst w') = gUsesMMX (fst w)"
      using R v False by (auto simp: request_register_def q Let_def split: if_splits)
    have "get_bits 0 64 v = val (reg_enum_t2str X ?q)" using servesD [OF assms(3)] v ok by simp
    then show ?thesis using w by (simp add: gathering_def coherent_def w' q)
  qed
qed

text \<open>What every request for a plain register upholds, gathering the registers of an
  instruction upholds.\<close>

lemma ReadRegister_gathers:
  assumes "\<And>r h. plain_reg X r \<Longrightarrow> upholds P (request_register X E r h)" and "gathered_reg X r"
  shows "upholds P (ReadRegister X E r h)"
proof (rule upholdsI)
  fix w w'
  assume w: "P w" and R: "ReadRegister X E r h w = (True, w')"
  show "P w'"
  proof (cases "r = reg X XED_REG_INVALID")
    case True
    then show ?thesis using w R by (simp add: ReadRegister_def)
  next
    case False
    let ?r = "if is_stack_pseudo X r then reg X XED_REG_ESP else r"
    have "plain_reg X ?r" using False assms(2) by (simp add: gathered_reg_def)
    moreover have "request_register X E ?r (if is_stack_pseudo X r then kWriteBack else h) w = (True, w')"
      using R False assms(2) by (simp add: ReadRegister_def gathered_reg_def Let_def split: if_splits)
    ultimately show ?thesis using upholdsD [where P = P] assms(1) w by blast
  qed
qed

lemma ReadRegisters_gathers:
  assumes "\<And>r h. plain_reg X r \<Longrightarrow> upholds P (request_register X E r h)" and "gathered_regs X d"
    and "\<And>w. P w \<Longrightarrow> gXedd (fst w) = d"
  shows "upholds P (ReadRegisters X E)"
proof (rule upholdsI)
  fix w w' assume w: "P w" "ReadRegisters X E w = (True, w')"
  note R = ReadRegister_gathers [OF assms(1)]
  have m: "upholds P (ReadRegistersMemOp X E k)" if "k \<in> set (mem_indices (get_operands d) 0)" for k
  proof (rule upholdsI)
    fix u u' assume u: "P u" "ReadRegistersMemOp X E k u = (True, u')"
    have "upholds P (and_also (ReadRegister X E (get_base_reg d k) kMemoryBaseAddress)
        (ReadRegister X E (get_index_reg d k) kMemoryIndexAddress))"
      using assms(2) that by (intro upholds_and_also R) (simp_all add: gathered_regs_def)
    then show "P u'" using upholdsD [where P = P] u assms(3) [OF u(1)] by (simp add: ReadRegistersMemOp_def)
  qed
  have o: "upholds P (ReadOperandRegister X E b h xedo)" if "xedo \<in> set (get_operands d)" for b h xedo
  proof (rule upholdsI)
    fix u u' assume u: "P u" "ReadOperandRegister X E b h xedo u = (True, u')"
    note d = assms(3) [OF u(1)]
    show "P u'"
    proof (cases "operand_written xedo = b \<and> is_reg_operand (operand_name xedo) \<and> get_reg d (operand_name xedo) \<noteq> 0")
      case True
      then have "gathered_reg X (get_reg d (operand_name xedo))" using assms(2) that by (simp add: gathered_regs_def)
      moreover have "ReadRegister X E (get_reg d (operand_name xedo)) h u = (True, u')"
        using u d True by (simp add: ReadOperandRegister_def)
      ultimately show ?thesis using upholdsD [where P = P] R u(1) by blast
    next
      case False
      then show ?thesis using u d by (auto simp: ReadOperandRegister_def Let_def split: if_splits)
    qed
  qed
  have "upholds P (and_also (each (ReadRegistersMemOp X E) (mem_indices (get_operands d) 0))
      (and_also (each (ReadOperandRegister X E False kGeneral) (get_operands d))
        (each (ReadOperandRegister X E True kWriteBack) (get_operands d))))"
    by (intro upholds_and_also upholds_each m o)
  then show "P w'" using upholdsD [where P = P] w assms(3) [OF w(1)] by (simp add: ReadRegisters_def Let_def)
qed

lemma ReadRegisters_gathering:
  assumes "addr_size E = 64" and "gathered_regs X d" and "serves E val" and "gathering X val d w"
    and "ReadRegisters X E w = (True, w')"
  shows "gathering X val d w'"
  using upholdsD [OF ReadRegisters_gathers [OF request_gathering [OF assms(1) _ assms(3)] assms(2)] assms(5,4)]
  by (simp add: gathering_def)

text \<open>The flags obtained before are left as they are, though they may be an operand.\<close>

definition flags_cached :: "xed \<Rightarrow> xed_decoded_inst \<Rightarrow> u64 \<Rightarrow> 's world \<Rightarrow> bool" where
  "flags_cached X d af w \<longleftrightarrow> gXedd (fst w) = d \<and> reg X XED_REG_RFLAGS \<in> gUsedRegs (fst w) \<and> aflag X (fst w) = af"

lemma request_flags_cached:
  assumes "addr_size E = 64" and "plain_reg X r"
  shows "upholds (flags_cached X d af) (request_register X E r h)"
proof (rule upholdsI)
  fix w w' assume w: "flags_cached X d af w" and R: "request_register X E r h w = (True, w')"
  let ?q = "get_largest_enclosing_register X r"
  have "WidestRegister X E r = ?q" "get_largest_enclosing_register X ?q = ?q"
    using assms WidestRegister_plain [of E X r] by (auto simp: plain_reg_def Let_def)
  then show "flags_cached X d af w'"
    using w R by (auto simp: request_register_def flags_cached_def aflag_def Let_def split: prod.splits if_splits)
qed

lemma ReadRegisters_flags_cached:
  assumes "addr_size E = 64" and "gathered_regs X d" and "flags_cached X d af w" and "ReadRegisters X E w = (True, w')"
  shows "flags_cached X d af w'"
  using upholdsD [OF ReadRegisters_gathers [OF request_flags_cached [OF assms(1)] assms(2)] assms(4,3)]
  by (simp add: flags_cached_def)

section \<open>The registers in use and the modified ones\<close>

text \<open>What a call of a loop establishes and the others keep holds after the loop.\<close>

lemma each_invariant:
  assumes "\<And>y u. y \<in> set ys \<Longrightarrow> Q u \<Longrightarrow> Q (snd (f y u))" and "Q u"
  shows "Q (snd (each f ys u))"
  using assms
proof (induction ys arbitrary: u)
  case Nil
  then show ?case by simp
next
  case (Cons y ys)
  have "Q (snd (f y u))" using Cons.prems by simp
  then show ?case using Cons.IH [of "snd (f y u)"] Cons.prems(1) by (cases "f y u") auto
qed

lemma each_reaches:
  assumes "each f xs w = (True, w')" and "x \<in> set xs" and "I w"
    and "\<And>y u. I u \<Longrightarrow> I (snd (f y u))" and "\<And>u. I u \<Longrightarrow> Q (snd (f x u))"
    and "\<And>y u. Q u \<Longrightarrow> Q (snd (f y u))"
  shows "Q w'"
  using assms(1-3)
proof (induction xs arbitrary: w)
  case Nil
  then show ?case by simp
next
  case (Cons y ys)
  obtain u where u: "f y w = (True, u)" "each f ys u = (True, w')"
    using Cons.prems(1) by (auto split: prod.splits if_splits)
  have I: "I u" using assms(4) [OF Cons.prems(3), of y] u(1) by simp
  show ?case
  proof (cases "x = y")
    case True
    then have "Q u" using assms(5) [OF Cons.prems(3)] u(1) by simp
    then show ?thesis using each_invariant [of ys Q f u] assms(6) u(2) by simp
  next
    case False
    then show ?thesis using Cons.IH [OF u(2) _ I] Cons.prems(2) by simp
  qed
qed

lemma and_also_True:
  assumes "and_also a b w = (True, w')"
  obtains u where "a w = (True, u)" and "b u = (True, w')"
  using assms by (auto simp: and_also_def split: prod.splits if_splits)

text \<open>\<open>ReadRegisters\<close> in its three loops.\<close>

lemma ReadRegisters_loops:
  assumes "ReadRegisters X E w = (True, w')" and "gXedd (fst w) = d"
  obtains u v where "each (ReadRegistersMemOp X E) (mem_indices (get_operands d) 0) w = (True, u)"
    and "each (ReadOperandRegister X E False kGeneral) (get_operands d) u = (True, v)"
    and "each (ReadOperandRegister X E True kWriteBack) (get_operands d) v = (True, w')"
    and "gXedd (fst u) = d" and "gXedd (fst v) = d"
proof -
  obtain u v where l: "each (ReadRegistersMemOp X E) (mem_indices (get_operands d) 0) w = (True, u)"
    "each (ReadOperandRegister X E False kGeneral) (get_operands d) u = (True, v)"
    "each (ReadOperandRegister X E True kWriteBack) (get_operands d) v = (True, w')"
    using assms by (auto simp: ReadRegisters_def Let_def elim!: and_also_True)
  have "same_inst w u" "same_inst u v"
    using same.each_keeps [of "mem_indices (get_operands d) 0" "ReadRegistersMemOp X E" w]
      same.each_keeps [of "get_operands d" "ReadOperandRegister X E False kGeneral" u] l
    by (simp_all add: ReadRegistersMemOp_same ReadOperandRegister_same)
  with assms(2) that l show thesis by (simp add: same_inst_def)
qed

lemma ReadRegister_modified:
  "gModifiedRegs (fst (snd (ReadRegister X E r h w))) =
     (if not_cached X r \<or> h \<noteq> kWriteBack \<and> \<not> is_stack_pseudo X r then gModifiedRegs (fst w)
      else insert (cache_name X E r) (gModifiedRegs (fst w)))"
  by (auto simp: ReadRegister_def not_cached_def cache_name_def request_register_def Let_def split: prod.split)

lemma each_collects:
  assumes "each f xs w = (True, w')" and "I w"
    and "\<And>x u. x \<in> set xs \<Longrightarrow> I u \<Longrightarrow> I (snd (f x u)) \<and> N (snd (f x u)) = N u \<union> M x"
  shows "N w' = N w \<union> (\<Union>x \<in> set xs. M x)"
  using assms
proof (induction xs arbitrary: w)
  case Nil
  then show ?case by simp
next
  case (Cons y ys)
  obtain u where u: "f y w = (True, u)" "each f ys u = (True, w')"
    using Cons.prems(1) by (auto split: prod.splits if_splits)
  have y: "I u" "N u = N w \<union> M y" using Cons.prems(3) [of y w] Cons.prems(2) u(1) by simp_all
  have "N w' = N u \<union> (\<Union>x \<in> set ys. M x)"
    by (rule Cons.IH [OF u(2) y(1)]) (simp add: Cons.prems(3))
  with y(2) show ?case by auto
qed

text \<open>The names under which an operand is marked as modified: a written register, or a
  pseudo-register of the stack, for which the stack pointer is marked in any case.\<close>

definition marked_names :: "xed \<Rightarrow> 's executor \<Rightarrow> xed_decoded_inst \<Rightarrow> xed_inst_operand \<Rightarrow> xed_reg set" where
  "marked_names X E d xedo = (let r = get_reg d (operand_name xedo) in
     if (operand_written xedo \<or> is_stack_pseudo X r) \<and> is_reg_operand (operand_name xedo) \<and> r \<noteq> 0 \<and> \<not> not_cached X r
     then {cache_name X E r} else {})"

definition written_names :: "xed \<Rightarrow> 's executor \<Rightarrow> xed_decoded_inst \<Rightarrow> xed_reg set" where
  "written_names X E d = (\<Union>xedo \<in> set (get_operands d). marked_names X E d xedo)"

text \<open>The stack pseudo-registers are no base or index registers.\<close>

definition no_pseudo_base :: "xed \<Rightarrow> xed_decoded_inst \<Rightarrow> bool" where
  "no_pseudo_base X d \<longleftrightarrow>
     (\<forall>k \<in> set (mem_indices (get_operands d) 0).
        \<not> is_stack_pseudo X (get_base_reg d k) \<and> \<not> is_stack_pseudo X (get_index_reg d k))"

lemma ReadRegisters_modified:
  assumes "ReadRegisters X E w = (True, w')" and "gXedd (fst w) = d" and "no_pseudo_base X d"
  shows "gModifiedRegs (fst w') = gModifiedRegs (fst w) \<union> written_names X E d"
proof -
  obtain u v where l: "each (ReadRegistersMemOp X E) (mem_indices (get_operands d) 0) w = (True, u)"
    "each (ReadOperandRegister X E False kGeneral) (get_operands d) u = (True, v)"
    "each (ReadOperandRegister X E True kWriteBack) (get_operands d) v = (True, w')"
    and d: "gXedd (fst u) = d" "gXedd (fst v) = d"
    by (rule ReadRegisters_loops [OF assms(1,2)])
  let ?I = "\<lambda>w. gXedd (fst w) = d" and ?N = "\<lambda>w. gModifiedRegs (fst w)"
  have 1: "?N u = ?N w \<union> (\<Union>k \<in> set (mem_indices (get_operands d) 0). {})"
  proof (rule each_collects [where I = ?I, OF l(1) assms(2)])
    fix k and z :: "'a world"
    assume k: "k \<in> set (mem_indices (get_operands d) 0)" and z: "gXedd (fst z) = d"
    have "same_inst z (snd (ReadRegistersMemOp X E k z))" by (rule ReadRegistersMemOp_same)
    moreover have "?N (snd (ReadRegistersMemOp X E k z)) = ?N z"
      using assms(3) k z ReadRegister_same [of z X E "get_base_reg d k" kMemoryBaseAddress]
      by (auto simp: ReadRegistersMemOp_def and_also_def no_pseudo_base_def same_inst_def ReadRegister_modified
          prod_eq_iff split: prod.split)
    ultimately show "?I (snd (ReadRegistersMemOp X E k z)) \<and> ?N (snd (ReadRegistersMemOp X E k z)) = ?N z \<union> {}"
      using z by (simp add: same_inst_def)
  qed
  have 2: "?N v = ?N u \<union> (\<Union>xedo \<in> set (get_operands d). if operand_written xedo then {} else marked_names X E d xedo)"
  proof (rule each_collects [where I = ?I, OF l(2) d(1)])
    fix xedo and z :: "'a world" assume z: "gXedd (fst z) = d"
    show "?I (snd (ReadOperandRegister X E False kGeneral xedo z)) \<and> ?N (snd (ReadOperandRegister X E False kGeneral xedo z)) =
        ?N z \<union> (if operand_written xedo then {} else marked_names X E d xedo)"
      using z ReadOperandRegister_same [of z X E False kGeneral xedo]
      by (auto simp: ReadOperandRegister_def same_inst_def marked_names_def ReadRegister_modified Let_def)
  qed
  have 3: "?N w' = ?N v \<union> (\<Union>xedo \<in> set (get_operands d). if operand_written xedo then marked_names X E d xedo else {})"
  proof (rule each_collects [where I = ?I, OF l(3) d(2)])
    fix xedo and z :: "'a world" assume z: "gXedd (fst z) = d"
    show "?I (snd (ReadOperandRegister X E True kWriteBack xedo z)) \<and> ?N (snd (ReadOperandRegister X E True kWriteBack xedo z)) =
        ?N z \<union> (if operand_written xedo then marked_names X E d xedo else {})"
      using z ReadOperandRegister_same [of z X E True kWriteBack xedo]
      by (auto simp: ReadOperandRegister_def same_inst_def marked_names_def ReadRegister_modified Let_def)
  qed
  have "written_names X E d = (\<Union>xedo \<in> set (get_operands d). if operand_written xedo then {} else marked_names X E d xedo) \<union>
      (\<Union>xedo \<in> set (get_operands d). if operand_written xedo then marked_names X E d xedo else {})"
    by (auto simp: written_names_def split: if_splits)
  with 1 2 3 show ?thesis by auto
qed

text \<open>The registers in use: those of the register operands, of the bases and of the indices.\<close>

lemma ReadRegisters_uses_operand:
  assumes "ReadRegisters X E w = (True, w')" and "gXedd (fst w) = d"
    and "xedo \<in> set (get_operands d)" and "is_reg_operand (operand_name xedo)"
    and "get_reg d (operand_name xedo) \<noteq> 0" and "\<not> not_cached X (get_reg d (operand_name xedo))"
  shows "cache_name X E (get_reg d (operand_name xedo)) \<in> gUsedRegs (fst w')"
proof -
  obtain u v where l: "each (ReadOperandRegister X E False kGeneral) (get_operands d) u = (True, v)"
    "each (ReadOperandRegister X E True kWriteBack) (get_operands d) v = (True, w')"
    and d: "gXedd (fst u) = d" "gXedd (fst v) = d"
    by (rule ReadRegisters_loops [OF assms(1,2)])
  let ?I = "\<lambda>w. gXedd (fst w) = d" and ?q = "cache_name X E (get_reg d (operand_name xedo))"
  let ?Q = "\<lambda>w. ?q \<in> gUsedRegs (fst w)"
  have I: "?I z \<Longrightarrow> ?I (snd (ReadOperandRegister X E b h y z))" for b h y and z :: "'a world"
    using ReadOperandRegister_same [of z X E b h y] by (simp add: same_inst_def)
  have Q: "?Q z \<Longrightarrow> ?Q (snd (ReadOperandRegister X E b h y z))" for b h y and z :: "'a world"
    using ReadOperandRegister_reads [of z X E b h y] by (auto simp: reads_more_def)
  have hit: "?Q (snd (ReadOperandRegister X E (operand_written xedo) h xedo z))" if "?I z" for h and z :: "'a world"
    using assms(4-6) that by (simp add: ReadOperandRegister_def ReadRegister_fills Let_def)
  show ?thesis
  proof (cases "operand_written xedo")
    case True
    then show ?thesis using each_reaches [where I = ?I and Q = ?Q, OF l(2) assms(3) d(2) I _ Q] hit by simp
  next
    case False
    then have "?Q v" using each_reaches [where I = ?I and Q = ?Q, OF l(1) assms(3) d(1) I _ Q] hit by simp
    then show ?thesis
      using each_invariant [of "get_operands d" ?Q "ReadOperandRegister X E True kWriteBack" v] Q l(2) by simp
  qed
qed

lemma ReadRegisters_uses_base:
  assumes "ReadRegisters X E w = (True, w')" and "gXedd (fst w) = d"
    and "k \<in> set (mem_indices (get_operands d) 0)" and "\<not> not_cached X (get_base_reg d k)"
  shows "cache_name X E (get_base_reg d k) \<in> gUsedRegs (fst w')"
proof -
  obtain u v where l: "each (ReadRegistersMemOp X E) (mem_indices (get_operands d) 0) w = (True, u)"
    "each (ReadOperandRegister X E False kGeneral) (get_operands d) u = (True, v)"
    "each (ReadOperandRegister X E True kWriteBack) (get_operands d) v = (True, w')"
    by (rule ReadRegisters_loops [OF assms(1,2)])
  let ?I = "\<lambda>w. gXedd (fst w) = d" and ?Q = "\<lambda>w. cache_name X E (get_base_reg d k) \<in> gUsedRegs (fst w)"
  have "?Q u"
  proof (rule each_reaches [where I = ?I and Q = ?Q, OF l(1) assms(3,2)])
    fix y and z :: "'a world"
    show "?I z \<Longrightarrow> ?I (snd (ReadRegistersMemOp X E y z))"
      using ReadRegistersMemOp_same [of z X E y] by (simp add: same_inst_def)
    show "?Q z \<Longrightarrow> ?Q (snd (ReadRegistersMemOp X E y z))"
      using ReadRegistersMemOp_reads [of z X E y] by (auto simp: reads_more_def)
  next
    fix z :: "'a world" assume z: "?I z"
    obtain ok z1 where b: "ReadRegister X E (get_base_reg d k) kMemoryBaseAddress z = (ok, z1)" by (metis surj_pair)
    then have q: "?Q z1" using ReadRegister_fills [OF assms(4), of E kMemoryBaseAddress z] by simp
    then have "?Q (snd (ReadRegister X E (get_index_reg d k) kMemoryIndexAddress z1))"
      using ReadRegister_reads [of z1 X E "get_index_reg d k" kMemoryIndexAddress] by (auto simp: reads_more_def)
    then show "?Q (snd (ReadRegistersMemOp X E k z))"
      using z b q by (simp add: ReadRegistersMemOp_def and_also_def)
  qed
  moreover have "reads_more u v" "reads_more v w'"
    using l(2,3) reads.each_keeps [of "get_operands d" "ReadOperandRegister X E False kGeneral" u]
      reads.each_keeps [of "get_operands d" "ReadOperandRegister X E True kWriteBack" v]
    by (simp_all add: ReadOperandRegister_reads)
  ultimately show ?thesis by (auto simp: reads_more_def)
qed

text \<open>
  C17: preparing an instruction for a 64-bit executor that serves the values \<open>val\<close>, every
  register in use but the flags ends with its served value in its slot, and the registers
  to be reported are those marked before, the written operands and the stack pointer where
  the instruction names a stack pseudo-register.
\<close>

theorem ReadRegisters_coherent:
  assumes "addr_size E = 64" and "serves E val" and "gathered_regs X d" and "no_pseudo_base X d"
    and "gXedd (fst w) = d" and "\<not> gUsesFPU (fst w)" and "\<not> gUsesMMX (fst w)" and "coherent X val (fst w)"
    and "ReadRegisters X E w = (True, w')"
  shows "(\<forall>r \<in> gUsedRegs (fst w') - {reg X XED_REG_RFLAGS}.
      get_bits 0 64 (gRegs (fst w') r) = val (reg_enum_t2str X r)) \<and>
    gModifiedRegs (fst w') = gModifiedRegs (fst w) \<union> written_names X E d"
  using ReadRegisters_gathering [OF assms(1,3,2) _ assms(9)] ReadRegisters_modified [OF assms(9,5,4)] assms(5-8)
  by (simp add: gathering_def coherent_def)

end
