(* ===== verification/Reports.thy ===== *)
theory Reports
  imports Coherence
begin

text \<open>
  What an instruction of a 64-bit executor reports of flags and registers, given which of
  them it has marked as modified: the flags one by one, the written registers in the order
  of their numbers, and the program counter.
\<close>

section \<open>The program counter\<close>

lemma pc_reg_64: "xed_ok X \<Longrightarrow> addr_size E = 64 \<Longrightarrow> pc_reg_of X E = reg X XED_REG_RIP"
  by (simp add: pc_reg_of_def WidestRegister_pair [OF xed_ok_pairs(1)])

lemma stands_at_serves:
  assumes "addr_size E = 64" and "serves E val"
  shows "stands_at X E (val (reg_enum_t2str X (pc_reg_of X E)))"
  using assms servesD [OF assms(2)] by (auto simp: stands_at_def)

text \<open>A register that encloses itself is RIP if it is a program counter.\<close>

lemma coherent_pc:
  "xed_ok X \<Longrightarrow> get_largest_enclosing_register X r = r \<Longrightarrow> is_pc X r \<Longrightarrow> r = reg X XED_REG_RIP"
  using gpr_pairD(1) [OF xed_ok_pairs(1) [of X]] by (auto simp: is_pc_def)

lemma filter_single: "distinct xs \<Longrightarrow> x \<in> set xs \<Longrightarrow> filter (\<lambda>y. y = x) xs = [x]"
  by (induction xs) (auto simp: filter_empty_conv)

lemma flags_reg_64: "xed_ok X \<Longrightarrow> addr_size E = 64 \<Longrightarrow> flags_reg_of X E = reg X XED_REG_RFLAGS"
  by (simp add: flags_reg_of_def WidestRegister_pair [OF xed_ok_pairs(7)])

section \<open>The reports\<close>

text \<open>A loop of reports that succeeds has logged them all.\<close>

lemma each_logged:
  "each (\<lambda>x. WriteReg (logged E) (nm x) (n x) (v x)) xs (s, log) = (True, s', log') \<Longrightarrow>
   log' = log @ map (\<lambda>x. WroteReg (nm x) (n x) (v x)) xs"
proof (induction xs arbitrary: s log)
  case (Cons x xs)
  obtain ok t where w: "WriteReg E (nm x) (n x) (v x) s = (ok, t)" by fastforce
  have "each (\<lambda>x. WriteReg (logged E) (nm x) (n x) (v x)) xs (t, log @ [WroteReg (nm x) (n x) (v x)]) = (True, s', log')"
    using Cons.prems w by (simp add: logged_def split: if_splits)
  from Cons.IH [OF this] show ?case by simp
qed simp

text \<open>The flags written, as a list of reports.\<close>

definition flag_writes :: "u64 \<Rightarrow> u64 \<Rightarrow> written list" where
  "flag_writes wb af = map (\<lambda>(nm, b). WroteReg nm 1 (of_bool b)) (flag_reports wb af)"

lemma WriteFlags_logged:
  assumes "WriteFlags X (logged E) (g, s, log) = (True, w)"
    and "gWriteBackFlags g \<noteq> 0 \<longrightarrow> flags_reg_of X E \<in> gModifiedRegs g"
  obtains g1 s1 where "w = (g1, s1, log @ flag_writes (gWriteBackFlags g) (aflag X g))"
    and "gRegs g1 = gRegs g" and "gModifiedRegs g1 = gModifiedRegs g - {flags_reg_of X E}"
    and "gUsedRegs g - {flags_reg_of X E} \<subseteq> gUsedRegs g1" and "gUsedRegs g1 \<subseteq> gUsedRegs g"
    and "gStackPtrAlias g1 = gStackPtrAlias g"
proof (cases "flags_reg_of X E \<in> gModifiedRegs g")
  case False
  then have w: "w = (g, s, log)" "gWriteBackFlags g = 0"
    using assms by (simp_all add: WriteFlags_def flags_reg_of_def Let_def)
  then have "flag_writes (gWriteBackFlags g) (aflag X g) = []"
    by (simp add: flag_writes_def flag_reports_def flag_def)
  then show thesis using w False by (intro that [of g s]) auto
next
  case True
  define g1 where "g1 = g\<lparr>gUsedRegs := gUsedRegs g - {flags_reg_of X E},
    gModifiedRegs := gModifiedRegs g - {flags_reg_of X E}, gWriteBackFlags := 0\<rparr>"
  let ?fs = "flag_reports (gWriteBackFlags g) (aflag X g)"
  obtain s1 l where e: "each (\<lambda>(nm, b). WriteReg (logged E) nm 1 (of_bool b)) ?fs (s, log) = (True, s1, l)"
    and w: "w = (g1, s1, l)"
    using assms(1) True
    by (auto simp: WriteFlags_eq flags_reg_of_def g1_def Let_def split: prod.splits if_splits)
  have "l = log @ flag_writes (gWriteBackFlags g) (aflag X g)"
    using each_logged [where nm = fst and n = "\<lambda>_. 1" and v = "\<lambda>x. of_bool (snd x)", of E ?fs s log s1 l] e
    by (simp add: flag_writes_def case_prod_unfold)
  with w show thesis by (intro that [of g1 s1]) (auto simp: g1_def)
qed

text \<open>The registers that are reported: the written operands without the flags and the
  program counter, in the order of XED's numbering.\<close>

definition written_regs :: "xed \<Rightarrow> 's executor \<Rightarrow> xed_decoded_inst \<Rightarrow> xed_reg list" where
  "written_regs X E d = filter (\<lambda>r. r \<in> written_names X E d \<and> r \<noteq> flags_reg_of X E \<and> \<not> is_pc X r)
     [0..<reg X XED_REG_LAST]"

lemma written_names_logged: "written_names X (logged E) d = written_names X E d"
  by (simp add: written_names_def marked_names_def cache_name_def Let_def)

lemma write_order_written:
  assumes "xed_ok X" and "\<forall>r \<in> gUsedRegs g. get_largest_enclosing_register X r = r"
    and "reg X XED_REG_RIP \<in> gUsedRegs g" and "reg X XED_REG_RIP < reg X XED_REG_LAST"
    and "\<And>r. \<not> is_pc X r \<Longrightarrow> r \<in> gUsedRegs g \<and> r \<in> gModifiedRegs g \<longleftrightarrow> r \<in> written_names X E d \<and> r \<noteq> flags_reg_of X E"
  shows "write_order X g = written_regs X E d @ [reg X XED_REG_RIP]"
proof -
  let ?is = "[0..<reg X XED_REG_LAST]" and ?pc = "reg X XED_REG_RIP"
  have "(i \<in> gUsedRegs g \<and> is_pc X i) = (i = ?pc)" for i
    using coherent_pc [OF assms(1)] assms(2,3) by (auto simp: is_pc_def)
  then have "pc_regs X g ?is = [?pc]"
    using filter_single [of ?is ?pc] assms(4) by (simp add: pc_regs_def)
  moreover have "(i \<in> gUsedRegs g \<and> \<not> is_pc X i \<and> i \<in> gModifiedRegs g) =
      (i \<in> written_names X E d \<and> i \<noteq> flags_reg_of X E \<and> \<not> is_pc X i)" for i
    using assms(5) [of i] by blast
  then have "plain_regs X g ?is = written_regs X E d" by (simp add: plain_regs_def written_regs_def)
  ultimately show ?thesis by (simp add: write_order_def Let_def)
qed

lemma write_one_logged:
  "write_one X (logged E) g =
   (\<lambda>r. WriteReg (logged E) (reg_enum_t2str X r) (get_register_width_bits64 X r)
      (gRegs g (get_largest_enclosing_register X r)))"
  by (intro ext) (simp add: write_one_def)

text \<open>The reports of an instruction that has written the registers \<open>written_names\<close>.\<close>

definition reports :: "xed \<Rightarrow> 's executor \<Rightarrow> xed_decoded_inst \<Rightarrow> u64 \<Rightarrow> u64 \<Rightarrow> (xed_reg \<Rightarrow> Data) \<Rightarrow> Data \<Rightarrow> written list" where
  "reports X E d wb af V pc = flag_writes wb af @
     map (\<lambda>r. WroteReg (reg_enum_t2str X r) 64 (V r)) (written_regs X E d) @
     [WroteReg (reg_enum_t2str X (reg X XED_REG_RIP)) 64 pc]"

lemma report_back_written:
  assumes "xed_ok X" and "addr_size E = 64" and "reg X XED_REG_RIP < reg X XED_REG_LAST"
    and "\<forall>r \<in> gUsedRegs g. get_largest_enclosing_register X r = r" and "reg X XED_REG_RIP \<in> gUsedRegs g"
    and "gWriteBackFlags g \<noteq> 0 \<longrightarrow> flags_reg_of X E \<in> gModifiedRegs g"
    and "\<And>r. r \<noteq> flags_reg_of X E \<Longrightarrow> r \<in> gModifiedRegs g \<longleftrightarrow> r = reg X XED_REG_RIP \<or> r \<in> written_names X E d"
    and "\<forall>r \<in> written_names X E d. r \<in> gUsedRegs g \<and> get_register_width_bits64 X r = 64"
    and "gStackPtrAlias g = reg X XED_REG_INVALID"
    and "report_back X (logged E) npc (g, s, log) = Some (kGood, g', s', log')"
  shows "\<exists>pc. log' = log @ reports X E d (gWriteBackFlags g) (aflag X g) (gRegs g) pc \<and> get_bits 0 64 pc = npc"
proof -
  let ?pc = "reg X XED_REG_RIP" and ?ws = "flag_writes (gWriteBackFlags g) (aflag X g)"
  obtain w where w: "WriteFlags X (logged E) (g, s, log) = (True, w)"
    "WriteRegisters X (logged E) (SetNextPC X npc (fst w), snd w) = (True, g', s', log')"
    by (rule report_back_good [OF assms(10)])
  obtain g1 s1 where w1: "w = (g1, s1, log @ ?ws)" and g1: "gRegs g1 = gRegs g"
    "gModifiedRegs g1 = gModifiedRegs g - {flags_reg_of X E}" "gUsedRegs g - {flags_reg_of X E} \<subseteq> gUsedRegs g1"
    "gUsedRegs g1 \<subseteq> gUsedRegs g" "gStackPtrAlias g1 = gStackPtrAlias g"
    by (rule WriteFlags_logged [OF w(1) assms(6)])
  let ?g = "SetNextPC X npc g1"
  have S: "gUsedRegs ?g = gUsedRegs g1" "gModifiedRegs ?g = gModifiedRegs g1" "gStackPtrAlias ?g = gStackPtrAlias g1"
    "\<And>r. r \<noteq> ?pc \<Longrightarrow> gRegs ?g r = gRegs g r"
    by (simp_all add: SetNextPC_def set_slot_low_def g1(1))
  have "addr_ok E" using assms(2) by (simp add: addr_ok_def)
  then have f: "flags_reg_of X E \<noteq> ?pc"
    using flags_reg_facts(1) [OF assms(1)] pc_reg_64 [OF assms(1,2)] by metis
  have "write_order X ?g = written_regs X E d @ [?pc]"
  proof (rule write_order_written [OF assms(1) _ _ assms(3)])
    show "\<forall>r \<in> gUsedRegs ?g. get_largest_enclosing_register X r = r" using S(1) g1(4) assms(4) by auto
    show "?pc \<in> gUsedRegs ?g" using S(1) g1(3) assms(5) f by auto
    fix r assume "\<not> is_pc X r"
    then have "r \<noteq> ?pc" by (auto simp: is_pc_def)
    then show "r \<in> gUsedRegs ?g \<and> r \<in> gModifiedRegs ?g \<longleftrightarrow> r \<in> written_names X E d \<and> r \<noteq> flags_reg_of X E"
      using S(1,2) g1(2,3) assms(7) [of r] assms(8) by auto
  qed
  moreover have "restore_stack_pointer X ?g = ?g"
    using S(3) g1(5) assms(9) by (simp add: restore_stack_pointer_def)
  ultimately have "each (write_one X (logged E) ?g) (written_regs X E d @ [?pc]) (s1, log @ ?ws) = (True, s', log')"
    using WriteRegisters_eq [OF assms(1), of "logged E" "(?g, s1, log @ ?ws)"] w(2) w1
    by (auto simp: Let_def split: prod.splits)
  from each_logged [OF this [unfolded write_one_logged]]
  have l: "log' = (log @ ?ws) @ map (\<lambda>r. WroteReg (reg_enum_t2str X r) (get_register_width_bits64 X r)
      (gRegs ?g (get_largest_enclosing_register X r))) (written_regs X E d @ [?pc])" .
  have "map (\<lambda>r. WroteReg (reg_enum_t2str X r) (get_register_width_bits64 X r)
      (gRegs ?g (get_largest_enclosing_register X r))) (written_regs X E d) =
    map (\<lambda>r. WroteReg (reg_enum_t2str X r) 64 (gRegs g r)) (written_regs X E d)"
  proof (rule map_cong [OF refl])
    fix r assume "r \<in> set (written_regs X E d)"
    then have "r \<in> written_names X E d" "r \<noteq> ?pc" by (auto simp: written_regs_def is_pc_def)
    then show "WroteReg (reg_enum_t2str X r) (get_register_width_bits64 X r) (gRegs ?g (get_largest_enclosing_register X r)) =
        WroteReg (reg_enum_t2str X r) 64 (gRegs g r)"
      using assms(4,8) S(4) by simp
  qed
  then have "log' = log @ reports X E d (gWriteBackFlags g) (aflag X g) (gRegs g) (gRegs ?g ?pc)"
    using l gpr_pairD(2,5) [OF xed_ok_pairs(1) [OF assms(1)]] by (simp add: reports_def)
  then show ?thesis using SetNextPC_slot [of X npc g1] by blast
qed

end
