(* ===== verification/Stack.thy ===== *)
theory Stack
  imports Reports
begin

text \<open>
  A push or pop of a register from the call of \<open>Execute\<close> to the point where it is
  performed, and from there to the reports, for a 64-bit executor.
\<close>

section \<open>The operands of a push or pop\<close>

text \<open>PUSH (\<open>w\<close>) or POP (not \<open>w\<close>) of the register \<open>r\<close> as XED decodes it: the register, the
  stack pseudo-register and the cell; further operands (bases and segments) are neither
  registers nor memory. A push writes the cell, a pop the register.\<close>

fun stack_operands :: "bool \<Rightarrow> xed_inst_operand list \<Rightarrow> bool" where
  "stack_operands w (p # q # m # rest) \<longleftrightarrow>
     operand_name p = XED_OPERAND_REG0 \<and> operand_written p = (\<not> w) \<and>
     operand_name q = XED_OPERAND_REG1 \<and>
     operand_name m = XED_OPERAND_MEM0 \<and> operand_written m = w \<and>
     (\<forall>xedo \<in> set rest. \<not> is_reg_operand (operand_name xedo) \<and> mem_slot (operand_name xedo) = None)"
| "stack_operands _ _ \<longleftrightarrow> False"

definition stack_inst :: "xed \<Rightarrow> bool \<Rightarrow> xed_decoded_inst \<Rightarrow> xed_reg \<Rightarrow> bool" where
  "stack_inst X w d r \<longleftrightarrow> stack_operands w (get_operands d) \<and>
     get_reg d XED_OPERAND_REG0 = r \<and>
     get_reg d XED_OPERAND_REG1 = reg X (if w then XED_REG_STACKPUSH else XED_REG_STACKPOP) \<and>
     get_base_reg d 0 = reg X XED_REG_RSP \<and> get_index_reg d 0 = reg X XED_REG_INVALID \<and>
     get_memory_displacement d 0 = 0 \<and> get_rflags_info d = None \<and>
     get_category d \<notin> {XED_CATEGORY_NOP, XED_CATEGORY_WIDENOP}"

text \<open>What is relied on of the registers.\<close>

definition stack_regs :: "xed \<Rightarrow> xed_reg \<Rightarrow> bool" where
  "stack_regs X r \<longleftrightarrow> reg X XED_REG_RSP < reg X XED_REG_LAST \<and> \<not> is_gpr8h X (reg X XED_REG_INVALID) \<and>
     (\<forall>q \<in> {r, reg X XED_REG_RSP, reg X XED_REG_STACKPUSH, reg X XED_REG_STACKPOP}. q \<noteq> 0 \<and>
        get_reg_class X q \<notin> {XED_REG_CLASS_X87, XED_REG_CLASS_PSEUDOX87, XED_REG_CLASS_MMX}) \<and>
     \<not> is_stack_pseudo X r \<and> \<not> is_stack_pseudo X (reg X XED_REG_RSP) \<and>
     plain_reg X r \<and> is_gpr X r \<and> \<not> is_gpr8h X r \<and>
     get_largest_enclosing_register X r \<noteq> reg X XED_REG_RFLAGS"

definition default_address :: "'s executor \<Rightarrow> bool" where
  "default_address E \<longleftrightarrow>
     (\<forall>nm b i sc disp n h s. ComputeAddress E nm b i sc disp n h s = (Executor_ComputeAddress b i sc disp, s))"

lemma stack_operandsE:
  assumes "stack_operands w ops"
  obtains p q m rest where "ops = p # q # m # rest" and "operand_name p = XED_OPERAND_REG0"
    and "operand_written p = (\<not> w)" and "operand_name q = XED_OPERAND_REG1"
    and "operand_name m = XED_OPERAND_MEM0" and "operand_written m = w"
    and "\<forall>xedo \<in> set rest. \<not> is_reg_operand (operand_name xedo) \<and> mem_slot (operand_name xedo) = None"
  using assms by (cases "(w, ops)" rule: stack_operands.cases) auto

lemma stack_reg0: "stack_operands w ops \<Longrightarrow> \<exists>p \<in> set ops. operand_name p = XED_OPERAND_REG0"
  by (cases "(w, ops)" rule: stack_operands.cases) auto

lemma stack_mem_indices: "stack_operands w ops \<Longrightarrow> mem_indices ops 0 = [0]"
  by (erule stack_operandsE) (auto simp: mem_indices_none)

text \<open>The gathering of registers.\<close>

lemma stack_gathered:
  assumes "xed_ok X" and "stack_inst X w d r" and "stack_regs X r"
  shows "gathered_regs X d" "no_pseudo_base X d"
    "addr_size E = 64 \<Longrightarrow> written_names X E d = insert (reg X XED_REG_RSP) (if w then {} else {get_largest_enclosing_register X r})"
proof -
  note pp = assms(2) [unfolded stack_inst_def]
  have ops: "stack_operands w (get_operands d)" using pp by simp
  obtain p q m rest where o: "get_operands d = p # q # m # rest" "operand_name p = XED_OPERAND_REG0"
    "operand_written p = (\<not> w)" "operand_name q = XED_OPERAND_REG1" "operand_name m = XED_OPERAND_MEM0" "operand_written m = w"
    and rest: "\<forall>xedo \<in> set rest. \<not> is_reg_operand (operand_name xedo) \<and> mem_slot (operand_name xedo) = None"
    by (rule stack_operandsE [OF ops])
  let ?q = "get_reg d XED_OPERAND_REG1"
  note sp = plain_reg_pair [OF xed_ok_pairs(2) [OF assms(1)]] gpr_pairD [OF xed_ok_pairs(2) [OF assms(1)]]
  have pseudo: "is_stack_pseudo X ?q" using pp by (simp add: is_stack_pseudo_def)
  have cls: "?q \<noteq> 0" "get_reg_class X ?q \<notin> {XED_REG_CLASS_X87, XED_REG_CLASS_PSEUDOX87, XED_REG_CLASS_MMX}"
    using pp assms(3) by (auto simp: stack_regs_def)
  have inv: "reg X XED_REG_INVALID = 0" using assms(1) by (simp add: xed_ok_def)
  have m: "\<not> is_reg_operand XED_OPERAND_MEM0" by (simp add: is_reg_operand_def)
  show "gathered_regs X d"
    using pp o rest assms(3) sp pseudo cls stack_mem_indices [OF ops] m
    by (auto simp: gathered_regs_def gathered_reg_def stack_regs_def)
  show "no_pseudo_base X d"
    using pp o rest assms(3) stack_mem_indices [OF ops] m inv
    by (auto simp: no_pseudo_base_def stack_regs_def is_stack_pseudo_def)
  assume a: "addr_size E = 64"
  have "marked_names X E d q = {reg X XED_REG_RSP}"
    using o(4) a pseudo cls sp inv by (simp add: marked_names_def is_reg_operand_def not_cached_def cache_name_def WidestRegister_plain)
  moreover have "marked_names X E d p = (if w then {} else {get_largest_enclosing_register X r})"
    using o(2,3) a pp assms(3) inv
    by (simp add: marked_names_def is_reg_operand_def not_cached_def cache_name_def stack_regs_def WidestRegister_plain)
  moreover have "marked_names X E d m = {}" "\<forall>xedo \<in> set rest. marked_names X E d xedo = {}"
    using o(5) m rest by (simp_all add: marked_names_def)
  ultimately show "written_names X E d = insert (reg X XED_REG_RSP) (if w then {} else {get_largest_enclosing_register X r})"
    by (auto simp: written_names_def o(1))
qed

section \<open>The cell of a push\<close>

lemma each_Cons_True:
  assumes "each f (x # xs) w = (True, w')"
  obtains u where "f x w = (True, u)" and "each f xs u = (True, w')"
  using assms by (auto split: prod.splits if_splits)

lemma ReadGPR_invalid:
  assumes "xed_ok X" and "\<not> is_gpr8h X (reg X XED_REG_INVALID)"
  shows "ReadGPR X (reg X XED_REG_INVALID) g = 0"
proof -
  have "get_register_width_bits64 X (reg X XED_REG_INVALID) = 0"
    using assms unfolding xed_ok_def by blast
  then show ?thesis using assms(2) by (simp add: ReadGPR_def)
qed

text \<open>The form of the instruction, and the address of the cell: for a push one operand size
  below the stack pointer.\<close>

definition stack_form :: "bool \<Rightarrow> iform" where
  "stack_form w = Stk (if w then XED_IFORM_PUSH_GPRv_50 else XED_IFORM_POP_GPRv_58)"

definition cell_address :: "bool \<Rightarrow> xed_decoded_inst \<Rightarrow> u64 \<Rightarrow> u64" where
  "cell_address w d sp =
     mask_address (get_memop_address_width d 0) (sp - (if w then of_nat (get_operand_width d div 8) else 0))"

text \<open>The slot of the cell as it is read. A cell that is popped holds what the executor
  answers.\<close>

definition cell_slot :: "bool \<Rightarrow> xed_decoded_inst \<Rightarrow> u64 \<Rightarrow> 's executor \<Rightarrow> memory \<Rightarrow> bool" where
  "cell_slot w d sp E mem \<longleftrightarrow> present mem \<and> write_back mem = w \<and> maddress mem = cell_address w d sp \<and>
     msize mem = 8 * get_memory_operand_length d 0 \<and>
     (\<not> w \<longrightarrow> (\<exists>s s'. ReadMem E (cell_address w d sp) (8 * get_memory_operand_length d 0) kReadOnly 0 s = (True, mdata mem, s')))"

lemma ReadMemoryOperand_stack:
  assumes "xed_ok X" and "default_address E" and "\<not> is_gpr8h X (reg X XED_REG_INVALID)"
    and "get_iform_enum (gXedd g) = stack_form w" and "effective_operand_width (gEmu g) = get_operand_width (gXedd g)"
    and "stack_inst X w (gXedd g) r" and "operand_name m = XED_OPERAND_MEM0" and "operand_written m = w"
    and "ReadMemoryOperand X E m 0 (g, s) = (True, g', s')"
  obtains mem where "g' = g\<lparr>gMemory := (gMemory g)(0 := mem)\<rparr>"
    and "cell_slot w (gXedd g) (ReadGPR X (reg X XED_REG_RSP) g) E mem"
proof -
  note pp = assms(6) [unfolded stack_inst_def]
  have ne: "reg X XED_REG_EIP \<noteq> reg X XED_REG_RSP" "reg X XED_REG_RIP \<noteq> reg X XED_REG_RSP"
    using assms(1) unfolding xed_ok_def by (auto simp del: upt_Suc)
  let ?a = "cell_address w (gXedd g) (ReadGPR X (reg X XED_REG_RSP) g)" and ?n = "8 * get_memory_operand_length (gXedd g) 0"
  have hint: "request_hint m = kReadOnly" if "\<not> w" using assms(7,8) that by (simp add: request_hint_def)
  obtain v s1 where v: "ReadMem E ?a ?n (request_hint m) 0 s = (True, v, s1)"
    and g': "g' = g\<lparr>gMemory := (gMemory g)(0 := (gMemory g' 0))\<rparr>"
    "present (gMemory g' 0)" "write_back (gMemory g' 0) = w" "maddress (gMemory g' 0) = ?a" "msize (gMemory g' 0) = ?n" "mdata (gMemory g' 0) = v"
    using assms(9) pp ne
    by (cases w) (auto simp: ReadMemoryOperand_def adjust_displacement_def assms(4,5,7,8) stack_form_def cell_address_def
        ReadGPR_invalid [OF assms(1,3)] assms(2) [unfolded default_address_def] Executor_ComputeAddress_def Let_def
        split: prod.splits)
  show thesis
  proof (rule that [OF g'(1)])
    have "\<not> w \<longrightarrow> (\<exists>s s'. ReadMem E ?a ?n kReadOnly 0 s = (True, mdata (gMemory g' 0), s'))"
      using v g'(6) hint by metis
    with g'(2-5) show "cell_slot w (gXedd g) (ReadGPR X (reg X XED_REG_RSP) g) E (gMemory g' 0)"
      unfolding cell_slot_def by blast
  qed
qed

lemma ReadMemory_stack:
  assumes "xed_ok X" and "default_address E" and "\<not> is_gpr8h X (reg X XED_REG_INVALID)"
    and "get_iform_enum (gXedd g) = stack_form w" and "effective_operand_width (gEmu g) = get_operand_width (gXedd g)"
    and "stack_inst X w (gXedd g) r" and "ReadMemory X E (g, s) = (True, g', s')"
  obtains M where "g' = g\<lparr>gMemory := M\<rparr>" and "cell_slot w (gXedd g) (ReadGPR X (reg X XED_REG_RSP) g) E (M 0)"
    and "\<not> present (M 1)"
proof -
  have "stack_operands w (get_operands (gXedd g))" using assms(6) by (simp add: stack_inst_def)
  then obtain p q m rest where o: "get_operands (gXedd g) = p # q # m # rest" "operand_name p = XED_OPERAND_REG0"
    "operand_name q = XED_OPERAND_REG1" "operand_name m = XED_OPERAND_MEM0" "operand_written m = w"
    and rest: "\<forall>xedo \<in> set rest. \<not> is_reg_operand (operand_name xedo) \<and> mem_slot (operand_name xedo) = None"
    by (rule stack_operandsE)
  let ?F = "\<lambda>xedo w. case mem_slot (operand_name xedo) of None \<Rightarrow> (True, w) | Some k \<Rightarrow> ReadMemoryOperand X E xedo k w"
  let ?g = "clear_present g"
  have "each ?F (m # rest) (?g, s) = (True, g', s')"
    using assms(7) by (simp add: ReadMemory_def o)
  then obtain u where u: "ReadMemoryOperand X E m 0 (?g, s) = (True, u)" "each ?F rest u = (True, g', s')"
    by (rule each_Cons_True) (simp add: o)
  have "each ?F rest u = (True, u)" using rest by (intro each_succeeds) simp
  then have u': "u = (g', s')" using u(2) by simp
  have c: "gXedd ?g = gXedd g" "gEmu ?g = gEmu g" "ReadGPR X r ?g = ReadGPR X r g" for r
    by (simp_all add: clear_present_def ReadGPR_def ReadValue_def Let_def)
  obtain mem where mem: "g' = ?g\<lparr>gMemory := (gMemory ?g)(0 := mem)\<rparr>"
    "cell_slot w (gXedd g) (ReadGPR X (reg X XED_REG_RSP) g) E mem"
    by (rule ReadMemoryOperand_stack [OF assms(1-3), of ?g w r m s g' s', unfolded c]) (use assms(4-6) u(1) u' o(4,5) in auto)
  show thesis
    by (rule that [of "(gMemory ?g)(0 := mem)"]) (use mem in \<open>auto simp: clear_present_def\<close>)
qed

text \<open>The value in a slot of a coherent cache, and the stack pointer after a write to it.\<close>

lemma coherent_ReadGPR:
  assumes "coherent X val g" and "get_largest_enclosing_register X r \<in> gUsedRegs g"
    and "get_largest_enclosing_register X r \<noteq> reg X XED_REG_RFLAGS" and "is_gpr X r" and "\<not> is_gpr8h X r"
  shows "ReadGPR X r g = take_bit (get_register_width_bits64 X r) (val (reg_enum_t2str X (get_largest_enclosing_register X r)))"
proof -
  have "get_bits 0 64 (gRegs g (get_largest_enclosing_register X r)) = val (reg_enum_t2str X (get_largest_enclosing_register X r))"
    using assms(1-3) by (simp add: coherent_def)
  moreover have "get_bits 0 n (get_bits 0 64 v :: u64) = (get_bits 0 n v :: u64)" if "n \<le> 64" for n and v :: Data
    using that by (intro bit_word_eqI) (auto simp: bit_simps)
  moreover have "get_register_width_bits64 X r \<le> 64" using assms(4) by (auto simp: is_gpr_def)
  moreover have "get_bits 0 n v = take_bit n v" for n and v :: u64
    by (rule bit_word_eqI) (auto simp: bit_simps dest: bit_imp_le_length)
  ultimately show ?thesis
    using assms(5) by (metis ReadGPR_get_bits assms(4) gpr_low_def)
qed

lemma RSP_facts:
  assumes "xed_ok X"
  shows "get_largest_enclosing_register X (reg X XED_REG_RSP) = reg X XED_REG_RSP"
    "get_register_width_bits64 X (reg X XED_REG_RSP) = 64" "is_gpr X (reg X XED_REG_RSP)"
    "\<not> is_gpr8h X (reg X XED_REG_RSP)" "\<not> is_pc X (reg X XED_REG_RSP)"
    "reg X XED_REG_RSP \<noteq> reg X XED_REG_RIP" "reg X XED_REG_RSP \<noteq> reg X XED_REG_RFLAGS"
proof -
  note p = gpr_pairD [OF xed_ok_pairs(2) [OF assms]]
  show "get_largest_enclosing_register X (reg X XED_REG_RSP) = reg X XED_REG_RSP"
    "get_register_width_bits64 X (reg X XED_REG_RSP) = 64" by (rule p(2), rule p(5))
  show "\<not> is_gpr8h X (reg X XED_REG_RSP)" using p(9) by (simp add: is_gpr8h_def)
  then show "is_gpr X (reg X XED_REG_RSP)" using p(5) by (simp add: is_gpr_def)
  show "\<not> is_pc X (reg X XED_REG_RSP)" "reg X XED_REG_RSP \<noteq> reg X XED_REG_RIP"
    "reg X XED_REG_RSP \<noteq> reg X XED_REG_RFLAGS"
    using assms unfolding xed_ok_def is_pc_def by (auto simp del: upt_Suc)
qed

lemma default_address_logged: "default_address E \<Longrightarrow> default_address (logged E)"
  by (simp add: default_address_def) (simp add: logged_def)

section \<open>The registers\<close>

text \<open>The state in which the instruction is performed.\<close>

definition stack_ready :: "xed \<Rightarrow> 's executor \<Rightarrow> (string \<Rightarrow> u64) \<Rightarrow> bool \<Rightarrow> xed_decoded_inst \<Rightarrow> xed_reg \<Rightarrow> gstate \<Rightarrow> bool" where
  "stack_ready X E val w d r g \<longleftrightarrow> coherent X val g \<and> gXedd g = d \<and> \<not> gUsesFPU g \<and> \<not> gUsesMMX g \<and>
     {reg X XED_REG_RIP, reg X XED_REG_RSP, get_largest_enclosing_register X r} \<subseteq> gUsedRegs g \<and>
     gModifiedRegs g = insert (reg X XED_REG_RIP) (written_names X E d) \<and>
     gStackPtrAlias g = reg X XED_REG_INVALID \<and> gWriteBackFlags g = 0 \<and>
     effective_operand_width (gEmu g) = get_operand_width d"

lemma stack_gathering:
  assumes "xed_ok X" and "addr_size E = 64" and "serves E val" and "stack_inst X w d r" and "stack_regs X r"
    and "gXedd g = d" and "gUsedRegs g = {reg X XED_REG_RIP}" and "gModifiedRegs g = {reg X XED_REG_RIP}"
    and "get_bits 0 64 (gRegs g (reg X XED_REG_RIP)) = val (reg_enum_t2str X (reg X XED_REG_RIP))"
    and "\<not> gUsesFPU g" and "\<not> gUsesMMX g" and "gStackPtrAlias g = reg X XED_REG_INVALID" and "gWriteBackFlags g = 0"
    and "gEmu g = fresh_request d" and "ReadRegisters X E (g, s) = (True, g1, s1)"
  shows "stack_ready X E val w d r g1"
proof -
  note pp = assms(4) [unfolded stack_inst_def] and pr = assms(5) [unfolded stack_regs_def]
  note G = stack_gathered [OF assms(1,4,5)]
  note sp = plain_reg_pair [OF xed_ok_pairs(2) [OF assms(1)]] RSP_facts(1) [OF assms(1)]
    gpr_pairD(7) [OF xed_ok_pairs(2) [OF assms(1)]]
  have pc: "get_largest_enclosing_register X (reg X XED_REG_RIP) = reg X XED_REG_RIP"
    by (rule gpr_pairD(2) [OF xed_ok_pairs(1) [OF assms(1)]])
  have g: "gathering X val d (g, s)"
    using assms(6,7,9-11) pc by (simp add: gathering_def coherent_def)
  have g1: "gathering X val d (g1, s1)"
    by (rule ReadRegisters_gathering [OF assms(2) G(1) assms(3) g assms(15)])
  have d: "gXedd (fst (g, s)) = d" using assms(6) by simp
  have mod: "gModifiedRegs g1 = insert (reg X XED_REG_RIP) (written_names X E d)"
    using ReadRegisters_modified [OF assms(15) d G(2)] assms(8) by auto
  have 1: "reg X XED_REG_RIP \<in> gUsedRegs g1"
    using uses.R_refl assms(7,15) ReadRegisters_uses [of "(g, s)" X E] by (simp add: uses_more_def)
  have "0 \<in> set (mem_indices (get_operands d) 0)" using pp stack_mem_indices [of w "get_operands d"] by simp
  from ReadRegisters_uses_base [OF assms(15) d this] have 2: "reg X XED_REG_RSP \<in> gUsedRegs g1"
    using pp pr sp by (simp add: not_cached_def cache_name_def WidestRegister_plain [OF assms(2)])
  obtain p where p: "p \<in> set (get_operands d)" "operand_name p = XED_OPERAND_REG0"
    using pp stack_reg0 [of w "get_operands d"] by blast
  have inv: "reg X XED_REG_INVALID = 0" using assms(1) unfolding xed_ok_def by blast
  have 3: "get_largest_enclosing_register X r \<in> gUsedRegs g1"
    using ReadRegisters_uses_operand [OF assms(15) d p(1)] p(2) pp pr inv
    by (simp add: is_reg_operand_def not_cached_def cache_name_def WidestRegister_plain [OF assms(2)])
  have "same_inst (g, s) (g1, s1)" using ReadRegisters_same [of "(g, s)" X E] assms(15) by simp
  then show ?thesis
    using g1 mod 1 2 3 assms(12-14) by (simp add: stack_ready_def gathering_def same_inst_def fresh_request_def)
qed

lemma cell_slot_logged:
  assumes "cell_slot w d sp (logged E) mem"
  shows "cell_slot w d sp E mem"
proof -
  have "ReadMem E a n h v (fst s) = (True, u, fst s')" if "ReadMem (logged E) a n h v s = (True, u, s')" for a n h v s u s'
    using that by (cases s) (auto simp: logged_def split: prod.splits)
  with assms show ?thesis unfolding cell_slot_def by blast
qed

text \<open>From the call of \<open>Execute\<close> to the instruction.\<close>

lemma stack_prepared:
  assumes "xed_ok X" and "pc_plain X" and "addr_size E = 64" and "default_address E" and "serves E val"
    and "code_at X E (val (reg_enum_t2str X (reg X XED_REG_RIP))) d"
    and "stack_inst X w d r" and "get_iform_enum d = stack_form w" and "stack_regs X r"
    and "Execute X H (logged E) 1 (g, s, log) = Some (kGood, g', s', log')"
  obtains g1 s1 npc g2 where "stack_ready X E val w d r g1"
    and "cell_slot w d (val (reg_enum_t2str X (reg X XED_REG_RSP))) E (gMemory g1 0)" and "\<not> present (gMemory g1 1)"
    and "perform X H (logged E) (val (reg_enum_t2str X (reg X XED_REG_RIP)) + of_nat (get_length d)) g1 = Some (kGood, npc, g2)"
    and "commit X (logged E) npc (g2, s1, log) = Some (kGood, g', s', log')"
proof -
  let ?E = "logged E" and ?pc = "reg X XED_REG_RIP"
  have ok: "addr_ok E" "addr_ok ?E" "addr_size ?E = 64" using assms(3) by (simp_all add: addr_ok_def)
  note pp = assms(7) [unfolded stack_inst_def] and pr = assms(9) [unfolded stack_regs_def]
  have one: "ExecuteOne X H ?E (g, s, log) = Some (kGood, g', s', log')"
    using assms(10) by (auto simp: Execute_def split: option.splits if_splits)
  note pc = pc_reg_64 [OF assms(1,3)]
  obtain g3 s3 where d: "decoded X H ?E (g3, s3, log) = Some (kGood, g', s', log')"
    and g3: "gXedd g3 = d" "gUsedRegs g3 = {?pc}" "gModifiedRegs g3 = {?pc}"
    "get_bits 0 64 (gRegs g3 ?pc) = val (reg_enum_t2str X ?pc)" "gStackPtrAlias g3 = reg X XED_REG_INVALID"
    "\<not> gUsesFPU g3" "\<not> gUsesMMX g3" "gEmu g3 = fresh_request d"
    by (rule ExecuteOne_decoded [OF assms(1) ok(1) assms(2) stands_at_serves [OF assms(3,5), of X, unfolded pc] assms(6) one,
          unfolded pc assms(3)])
  let ?g4 = "g3\<lparr>gWriteBackFlags := 0\<rparr>"
  have F: "ReadFlags X H ?E (g3, s3, log) = (True, ?g4, s3, log)"
    using pp g3(1) by (simp add: ReadFlags_def)
  obtain u1 u2 where u: "ReadFlags X H ?E (g3, s3, log) = (True, u1)" "ReadRegisters X ?E u1 = (True, u2)"
    "(if is_nop (fst u2) then report_back X ?E (GetNextPC X ?E (fst u2)) u2
      else operate X H ?E (GetNextPC X ?E (fst u2)) u2) = Some (kGood, g', s', log')"
    by (rule decoded_good [OF d])
  obtain g5 s5 where R: "ReadRegisters X ?E (?g4, s3, log) = (True, g5, s5, log)" and u2: "u2 = (g5, s5, log)"
    using u(1,2) F logged.ReadRegisters_looks [of "(?g4, s3, log)" X E] by (cases u2) (auto simp: looks_def)
  have "stack_ready X ?E val w d r g5"
    by (rule stack_gathering [OF assms(1) ok(3) serves_logged [OF assms(5)] assms(7,9) _ _ _ _ _ _ _ _ _ R])
      (use g3 in simp_all)
  then have G: "stack_ready X E val w d r g5" by (simp add: stack_ready_def written_names_logged)
  note rdy = G [unfolded stack_ready_def]
  have x: "get_bits 0 64 (gRegs g5 ?pc) = val (reg_enum_t2str X ?pc)"
    using rdy by (simp add: coherent_def RFLAGS_slot [OF assms(1)])
  have npc: "GetNextPC X ?E g5 = val (reg_enum_t2str X ?pc) + of_nat (get_length d)"
    using ReadGPR_pc [OF assms(1) ok(2), of g5] x rdy ok(3) assms(3) by (simp add: mask_pc_def)
  have "\<not> is_nop g5" using pp rdy by (simp add: is_nop_def)
  then have o: "operate X H ?E (val (reg_enum_t2str X ?pc) + of_nat (get_length d)) (g5, s5, log) = Some (kGood, g', s', log')"
    using u(3) u2 npc by simp
  obtain w1 w2 npc' g2 where w: "fpu_read ?E (g5, s5, log) = (True, w1)"
    "ReadMemory X ?E ((if gUsesMMX (fst w1) then CopyMMXStateToFPU X ?E (fst w1) else fst w1), snd w1) = (True, w2)"
    "perform X H ?E (val (reg_enum_t2str X ?pc) + of_nat (get_length d)) (fst w2) = Some (kGood, npc', g2)"
    "commit X ?E npc' (g2, snd w2) = Some (kGood, g', s', log')"
    by (rule operate_good [OF o])
  have "w1 = (g5, s5, log)" using w(1) rdy by (simp add: fpu_read_def)
  then have "ReadMemory X ?E (g5, s5, log) = (True, w2)" using w(2) rdy by simp
  then obtain g6 s6 where m: "ReadMemory X ?E (g5, s5, log) = (True, g6, s6, log)" and w2: "w2 = (g6, s6, log)"
    using logged.ReadMemory_looks [of "(g5, s5, log)" X E] by (cases w2) (auto simp: looks_def)
  have sp: "ReadGPR X (reg X XED_REG_RSP) g5 = val (reg_enum_t2str X (reg X XED_REG_RSP))"
    using coherent_ReadGPR [of X val g5 "reg X XED_REG_RSP"] RSP_facts [OF assms(1)] rdy by simp
  obtain M where M: "g6 = g5\<lparr>gMemory := M\<rparr>"
    "cell_slot w d (val (reg_enum_t2str X (reg X XED_REG_RSP))) ?E (M 0)" "\<not> present (M 1)"
    by (rule ReadMemory_stack [OF assms(1) default_address_logged [OF assms(4)] _ _ _ _ m, of w r])
      (use assms(7,8) pr rdy sp in auto)
  have "stack_ready X E val w d r g6" using G by (simp add: M(1) stack_ready_def coherent_def)
  from that [OF this, of npc' g2 s6] show thesis using M w(3,4) w2 cell_slot_logged [OF M(2)] by simp
qed

section \<open>The reports\<close>

lemma reports_no_flags: "reports X E d 0 af R pc =
    map (\<lambda>r. WroteReg (reg_enum_t2str X r) 64 (R r)) (written_regs X E d) @ [WroteReg (reg_enum_t2str X (reg X XED_REG_RIP)) 64 pc]"
  by (simp add: reports_def flag_writes_def flag_reports_def flag_def)

text \<open>The instruction has changed registers and the cell only.\<close>

lemma stack_committed:
  assumes "xed_ok X" and "addr_size E = 64" and "reg X XED_REG_RIP < reg X XED_REG_LAST"
    and "stack_inst X w d r" and "stack_regs X r" and "stack_ready X E val w d r g"
    and "present (M 0)" and "write_back (M 0) = w" and "\<not> present (M 1)"
    and "commit X (logged E) npc (g\<lparr>gMemory := M, gRegs := R\<rparr>, s, log) = Some (kGood, g', s', log')"
  shows "\<exists>pc. log' = log @ (if w then [WroteMem (maddress (M 0)) (msize (M 0)) (mdata (M 0))] else []) @
      map (\<lambda>r. WroteReg (reg_enum_t2str X r) 64 (R r)) (written_regs X E d) @
      [WroteReg (reg_enum_t2str X (reg X XED_REG_RIP)) 64 pc] \<and> get_bits 0 64 pc = npc"
proof -
  let ?g = "g\<lparr>gMemory := M, gRegs := R\<rparr>" and ?ws = "if w then [WroteMem (maddress (M 0)) (msize (M 0)) (mdata (M 0))] else []"
  note rdy = assms(6) [unfolded stack_ready_def] and pr = assms(5) [unfolded stack_regs_def]
  note names = stack_gathered(3) [OF assms(1,4,5,2)]
  obtain w1 w2 where w: "WriteMemory (logged E) (?g, s, log) = (True, w1)" "fpu_write (logged E) w1 = (True, w2)"
    "report_back X (logged E) npc
      ((if gUsesMMX (fst w2) then CopyMMXStateFromFPU X (logged E) (fst w2) else fst w2), snd w2) = Some (kGood, g', s', log')"
    by (rule commit_good [OF assms(10)])
  obtain s1 where w1: "w1 = (?g, s1, log @ ?ws)"
    using w(1) assms(7-9)
    by (cases w) (auto simp: WriteMemory_def WriteSlot_def logged_def split: prod.splits if_splits)
  have "w2 = w1" using w(2) w1 rdy by (simp add: fpu_write_def)
  then have b: "report_back X (logged E) npc (?g, s1, log @ ?ws) = Some (kGood, g', s', log')"
    using w(3) w1 rdy by simp
  have "\<forall>r \<in> gUsedRegs ?g. get_largest_enclosing_register X r = r" using rdy by (simp add: coherent_def)
  moreover have "\<forall>q \<in> written_names X E d. q \<in> gUsedRegs ?g \<and> get_register_width_bits64 X q = 64"
    using rdy pr RSP_facts [OF assms(1)] unfolding names by (auto simp: plain_reg_def Let_def split: if_splits)
  ultimately show ?thesis
    using report_back_written [OF assms(1-3) _ _ _ _ _ _ b, of d] rdy by (auto simp: reports_no_flags)
qed

end
