(* ===== verification/Obliging.thy ===== *)
theory Obliging
  imports Branch
begin

text \<open>
  Executors that never refuse a request: the errors of reading and writing do not occur,
  and an instruction that is decoded, supported, and emulated or run by the processor
  without a fault always completes.
\<close>

section \<open>No request fails\<close>

definition obliging :: "'s executor \<Rightarrow> bool" where
  "obliging E \<longleftrightarrow>
     (\<forall>nm n h v s. fst (ReadReg E nm n h v s)) \<and> (\<forall>nm n v s. fst (WriteReg E nm n v s)) \<and>
     (\<forall>a n h v s. fst (ReadMem E a n h v s)) \<and> (\<forall>a n v s. fst (WriteMem E a n v s)) \<and>
     (\<forall>f s. fst (ReadFPU E f s)) \<and> (\<forall>f s. fst (WriteFPU E f s))"

text \<open>A step that succeeds from every state that satisfies \<open>P\<close>, and keeps \<open>P\<close>.\<close>

definition assures :: "('w \<Rightarrow> bool) \<Rightarrow> ('w \<Rightarrow> bool \<times> 'w) \<Rightarrow> bool" where
  "assures P a \<longleftrightarrow> (\<forall>w. P w \<longrightarrow> fst (a w) \<and> P (snd (a w)))"

lemma assuresI: "(\<And>w ok w'. P w \<Longrightarrow> a w = (ok, w') \<Longrightarrow> ok \<and> P w') \<Longrightarrow> assures P a"
  unfolding assures_def by (metis prod.collapse)

lemma assuresD: "assures P a \<Longrightarrow> P w \<Longrightarrow> a w = (ok, w') \<Longrightarrow> ok \<and> P w'"
  unfolding assures_def by (metis fst_conv snd_conv)

lemma assures_each:
  assumes "\<And>x. x \<in> set xs \<Longrightarrow> assures P (f x)"
  shows "assures P (each f xs)"
  using assms
proof (induction xs)
  case Nil
  then show ?case by (simp add: assures_def)
next
  case (Cons x xs)
  have "assures P (f x)" "assures P (each f xs)" using Cons by auto
  then show ?case
    by (intro assuresI) (auto split: prod.splits if_splits dest: assuresD)
qed

lemma assures_and_also: "assures P a \<Longrightarrow> assures P b \<Longrightarrow> assures P (and_also a b)"
  by (intro assuresI) (auto simp: and_also_def split: prod.splits if_splits dest: assuresD)

lemma assures_return:
  assumes "assures P a" and "P w"
  obtains w' where "a w = (True, w')" and "P w'" and "or_return a err k w = k w'"
proof -
  obtain ok w' where w': "a w = (ok, w')" by fastforce
  with assuresD [OF assms w'] show thesis by (intro that [of w']) (simp_all add: or_return_def)
qed

text \<open>An executor that, as long as \<open>I\<close> holds of its state, refuses no request for a register
  or the FPU, and none for memory if \<open>mem\<close>; requests keep \<open>I\<close>.\<close>

locale willing =
  fixes E :: "'s executor" and mem :: bool and I :: "'s \<Rightarrow> bool"
  assumes reg_read: "I s \<Longrightarrow> ReadReg E nm n h v s = (ok, d, s') \<Longrightarrow> ok \<and> I s'"
    and reg_write: "I s \<Longrightarrow> WriteReg E nm n v s = (ok, s') \<Longrightarrow> ok \<and> I s'"
    and fpu_get: "I s \<Longrightarrow> ReadFPU E f s = (ok, f', s') \<Longrightarrow> ok \<and> I s'"
    and fpu_put: "I s \<Longrightarrow> WriteFPU E f s = (ok, s') \<Longrightarrow> ok \<and> I s'"
    and mem_read: "mem \<Longrightarrow> I s \<Longrightarrow> ReadMem E a n mh v s = (ok, d, s') \<Longrightarrow> ok \<and> I s'"
    and mem_write: "mem \<Longrightarrow> I s \<Longrightarrow> WriteMem E a n v s = (ok, s') \<Longrightarrow> ok \<and> I s'"
    and address: "I s \<Longrightarrow> ComputeAddress E nm b i sc disp n mh s = (a, s') \<Longrightarrow> I s'"
begin

lemma ReadRegister_assures: "assures (\<lambda>w. I (snd w)) (ReadRegister X E r h)"
  by (rule assuresI)
    (auto simp: ReadRegister_def request_register_def Let_def split: prod.splits if_splits dest: reg_read)

lemma ReadRegisters_assures: "assures (\<lambda>w. I (snd w)) (ReadRegisters X E)"
proof -
  have m: "assures (\<lambda>w. I (snd w)) (ReadRegistersMemOp X E k)" for k
    unfolding assures_def ReadRegistersMemOp_def
    using assures_and_also [OF ReadRegister_assures ReadRegister_assures] by (simp add: assures_def)
  have o: "assures (\<lambda>w. I (snd w)) (ReadOperandRegister X E wr h xedo)" for wr h xedo
    using ReadRegister_assures unfolding assures_def ReadOperandRegister_def by (simp add: Let_def)
  have "assures (\<lambda>w. I (snd w)) (and_also (each (ReadRegistersMemOp X E) ks)
      (and_also (each (ReadOperandRegister X E False kGeneral) ops) (each (ReadOperandRegister X E True kWriteBack) ops)))"
    for ks ops
    by (intro assures_and_also assures_each m o)
  then show ?thesis by (simp add: assures_def ReadRegisters_def Let_def)
qed

lemma ReadPC_assures: "assures (\<lambda>w. I (snd w)) (ReadPC X E)"
  using ReadRegister_assures unfolding assures_def ReadPC_def by (simp add: Let_def)

lemma ReadFlags_assures: "assures (\<lambda>w. I (snd w)) (ReadFlags X H E)"
proof (rule assuresI)
  fix w w' :: "'s world" and ok
  assume i: "I (snd w)" and r: "ReadFlags X H E w = (ok, w')"
  have "assures (\<lambda>st. I (snd (snd st))) (READ_FLAG E rd fn)" for rd fn
    by (rule assuresI) (auto simp: READ_FLAG_def split: prod.splits if_splits dest: reg_read)
  then have u: "assures (\<lambda>st. I (snd (snd st))) (each (READ_FLAG E rd) flag_regs)" for rd by (rule assures_each)
  show "ok \<and> I (snd w')"
  proof (cases "get_rflags_info (gXedd (fst w))")
    case None
    with i r show ?thesis by (auto simp: ReadFlags_def)
  next
    case (Some rf)
    obtain ok' af fv s where e: "each (READ_FLAG E (flags_to_read rf)) flag_regs (pushfq H (fst w), 0, snd w) = (ok', af, fv, s)"
      by (metis prod_cases4)
    then have "ok' \<and> I s" using assuresD [OF u _ e] i by simp
    with r Some e show ?thesis by (auto simp: ReadFlags_def Let_def split: if_splits)
  qed
qed

lemma ReadMemory_assures:
  assumes "mem \<or> (\<forall>xedo \<in> set (get_operands (gXedd (fst w))). mem_slot (operand_name xedo) = None)" and "I (snd w)"
  shows "fst (ReadMemory X E w) \<and> I (snd (snd (ReadMemory X E w)))"
  using assms(1)
proof
  assume mem
  have "assures (\<lambda>w. I (snd w)) (ReadMemoryOperand X E xedo k)" for xedo k
  proof (rule assuresI)
    fix w w' :: "'s world" and ok
    assume i: "I (snd w)" and r: "ReadMemoryOperand X E xedo k w = (ok, w')"
    obtain nm base idx sc disp n mh a s where c: "ComputeAddress E nm base idx sc disp n mh (snd w) = (a, s)"
      and "ok \<and> snd w' = s \<or> (\<exists>a n h v v'. ReadMem E a n h v s = (ok, v', snd w'))"
      using r unfolding ReadMemoryOperand_def Let_def by (force split: prod.splits if_splits)
    moreover have s: "I s" by (rule address [OF i c])
    ultimately show "ok \<and> I (snd w')" using mem_read [OF \<open>mem\<close> s] by blast
  qed
  then have "assures (\<lambda>w. I (snd w)) (\<lambda>w. case mem_slot (operand_name xedo) of None \<Rightarrow> (True, w)
      | Some k \<Rightarrow> ReadMemoryOperand X E xedo k w)" for xedo
    by (cases "mem_slot (operand_name xedo)") (simp_all add: assures_def)
  then have "assures (\<lambda>w. I (snd w)) (each (\<lambda>xedo w. case mem_slot (operand_name xedo) of
      None \<Rightarrow> (True, w) | Some k \<Rightarrow> ReadMemoryOperand X E xedo k w) ops)" for ops
    by (rule assures_each)
  with assms(2) show ?thesis by (simp add: ReadMemory_def assures_def)
qed (use assms(2) in \<open>simp add: ReadMemory_none\<close>)

lemma WriteMemory_assures:
  assumes "mem \<or> \<not> present (gMemory (fst w) 0) \<and> \<not> present (gMemory (fst w) 1)" and "I (snd w)"
  shows "fst (WriteMemory E w) \<and> I (snd (snd (WriteMemory E w)))"
  using assms(1)
proof
  assume mem
  have "assures I (WriteSlot E m)" for m
    by (rule assuresI) (auto simp: WriteSlot_def split: if_splits dest: mem_write [OF \<open>mem\<close>])
  then have u: "assures I (each (WriteSlot E) ms)" for ms by (rule assures_each)
  obtain ok s where "each (WriteSlot E) [gMemory (fst w) 0, gMemory (fst w) 1] (snd w) = (ok, s)" by fastforce
  with assuresD [OF u assms(2) this] show ?thesis by (simp add: WriteMemory_def del: each.simps)
qed (use assms(2) in \<open>simp add: WriteMemory_def WriteSlot_def\<close>)

lemma WriteFlags_assures: "assures (\<lambda>w. I (snd w)) (WriteFlags X E)"
proof (rule assuresI)
  fix w w' :: "'s world" and ok
  assume i: "I (snd w)" and r: "WriteFlags X E w = (ok, w')"
  have "assures I (WRITE_FLAG E f af fn)" for f af fn
    by (rule assuresI) (auto simp: WRITE_FLAG_def split: prod.splits if_splits dest: reg_write)
  then have u: "assures I (each (WRITE_FLAG E f af) flag_regs)" for f af by (rule assures_each)
  obtain ok' s where e: "each (WRITE_FLAG E (gWriteBackFlags (fst w)) (aflag X (fst w))) flag_regs (snd w) = (ok', s)"
    by fastforce
  have "ok' \<and> I s" by (rule assuresD [OF u i e])
  with r i e show "ok \<and> I (snd w')"
    by (auto simp: WriteFlags_def aflag_def Let_def simp del: each.simps split: if_splits)
qed

lemma WriteRegisters_assures:
  assumes "xed_ok X"
  shows "assures (\<lambda>w. I (snd w)) (WriteRegisters X E)"
proof (rule assuresI)
  fix w w' :: "'s world" and ok
  assume i: "I (snd w)" and r: "WriteRegisters X E w = (ok, w')"
  let ?g = "restore_stack_pointer X (fst w)"
  have "assures I (write_one X E g q)" for g q
    by (rule assuresI) (auto simp: write_one_def dest: reg_write)
  then have u: "assures I (each (write_one X E g) qs)" for g qs by (rule assures_each)
  obtain ok' s where e: "each (write_one X E ?g) (write_order X ?g) (snd w) = (ok', s)" by fastforce
  have "ok' \<and> I s" by (rule assuresD [OF u i e])
  with r e show "ok \<and> I (snd w')" unfolding WriteRegisters_eq [OF assms] by (auto simp: Let_def)
qed

lemma fpu_assures: "assures (\<lambda>w. I (snd w)) (fpu_read E)" "assures (\<lambda>w. I (snd w)) (fpu_write E)"
  by (rule assuresI; auto simp: fpu_read_def fpu_write_def split: prod.splits if_splits dest: fpu_get fpu_put)+

lemma report_back_assures:
  assumes "xed_ok X" and "I (snd w)"
  obtains w' where "report_back X E npc w = Some (kGood, w')" and "I (snd w')"
proof -
  obtain w1 where 1: "WriteFlags X E w = (True, w1)" "I (snd w1)"
    by (rule assures_return [OF WriteFlags_assures assms(2)])
  obtain w2 where "WriteRegisters X E (SetNextPC X npc (fst w1), snd w1) = (True, w2)" "I (snd w2)"
    by (rule assures_return [OF WriteRegisters_assures [OF assms(1)], of "(SetNextPC X npc (fst w1), snd w1)"]) (simp_all add: 1)
  with 1 show thesis by (intro that [of w2]) (simp_all add: report_back_def or_return_def)
qed

lemma commit_assures:
  assumes "xed_ok X" and "I (snd w)" and "mem \<or> \<not> present (gMemory (fst w) 0) \<and> \<not> present (gMemory (fst w) 1)"
  obtains w' where "commit X E npc w = Some (kGood, w')" and "I (snd w')"
proof -
  obtain w1 where 1: "WriteMemory E w = (True, w1)" "I (snd w1)"
    using WriteMemory_assures [OF assms(3,2)] by (metis prod.collapse)
  obtain w2 where 2: "fpu_write E w1 = (True, w2)" "I (snd w2)"
    by (rule assures_return [OF fpu_assures(2) 1(2)])
  obtain w' where "report_back X E npc
      (if gUsesMMX (fst w2) then CopyMMXStateFromFPU X E (fst w2) else fst w2, snd w2) = Some (kGood, w')" "I (snd w')"
    by (rule report_back_assures [OF assms(1), of "(if gUsesMMX (fst w2) then CopyMMXStateFromFPU X E (fst w2) else fst w2, snd w2)"])
      (simp_all add: 2)
  with 1 2 show thesis by (intro that [of w']) (simp_all add: commit_def or_return_def)
qed

end

text \<open>An obliging executor is willing in every state.\<close>

lemma obliging_willing: "obliging E \<Longrightarrow> willing E True (\<lambda>_. True)"
  unfolding obliging_def by unfold_locales (metis fst_conv)+

lemma fetch_ok:
  assumes "obliging E"
  shows "fst (fetch E pc n w) = n"
proof (cases n)
  case (Suc m)
  obtain d s where "ReadMem E pc (Suc m * 8) kReadExecutable (idata (fst w)) (snd w) = (True, d, s)"
    using assms unfolding obliging_def by (metis prod.collapse)
  then show ?thesis using Suc by simp
qed simp

lemma FetchInstruction_ok: "obliging E \<Longrightarrow> fst (FetchInstruction X E w) = max_inst_length"
  by (simp add: FetchInstruction_def fetch_ok split: prod.split)

section \<open>Every phase completes\<close>

text \<open>The forms that \<open>Emulate\<close> handles itself.\<close>

fun emulated :: "iform \<Rightarrow> bool" where
  "emulated (Bt f) = False"
| "emulated (XED_IFORM_OTHER n) = False"
| "emulated (Cfi XED_IFORM_XABORT_IMMb) = False"
| "emulated (Cfi XED_IFORM_XEND) = False"
| "emulated (Cfi (XED_IFORM_CALL_NEAR_RELBR b)) = (b \<noteq> RELBRb)"
| "emulated (Cfi XED_IFORM_CALL_FAR_MEMp2) = False"
| "emulated (Cfi XED_IFORM_CALL_FAR_PTRp_IMMw) = False"
| "emulated (Cfi XED_IFORM_JMP_FAR_MEMp2) = False"
| "emulated (Cfi XED_IFORM_JMP_FAR_PTRp_IMMw) = False"
| "emulated (Cfi XED_IFORM_RET_FAR_IMMw) = False"
| "emulated (Cfi XED_IFORM_RET_FAR) = False"
| "emulated (Stk (XED_IFORM_POP_SEG s)) = (s \<noteq> SegCS)"
| "emulated (Stk XED_IFORM_PUSHA) = False"
| "emulated (Stk XED_IFORM_PUSHAD) = False"
| "emulated (Stk XED_IFORM_POPA) = False"
| "emulated (Stk XED_IFORM_POPAD) = False"
| "emulated (Stk XED_IFORM_ENTER_IMMw_IMMb) = False"
| "emulated f = True"

lemma rep_round_handled: "fst (rep_round X l again body g)"
  by (simp add: rep_round_def handled_def Let_def)

lemma emulate_str_handled: "fst (emulate_str X H l f g)"
  by (cases f) (simp_all add: emulate_str_def REP_def REPE_def REPNE_def rep_round_handled handled_def)

lemma emulate_cfi_handled: "fst (emulate_cfi X l f g) \<longleftrightarrow> emulated (Cfi f)"
  by (cases f) (simp_all add: emulate_cfi_def handled_def rejected_def Let_def)

lemma emulate_stk_handled: "fst (emulate_stk X l f g) \<longleftrightarrow> emulated (Stk f)"
  by (cases f) (simp_all add: emulate_stk_def handled_def rejected_def Let_def)

lemma Emulate_handled: "fst (Emulate X H E npc g) \<longleftrightarrow> emulated (get_iform_enum (gXedd g))"
  by (cases "get_iform_enum (gXedd g)")
    (simp_all add: Emulate_def Let_def emulate_str_handled emulate_cfi_handled emulate_stk_handled
      emulate_jcc_def handled_def rejected_def)

lemma perform_emulated:
  assumes "emulated (get_iform_enum (gXedd g))"
  obtains npc' g' where "perform X H E npc g = Some (kGood, npc', g')"
proof -
  obtain npc' st g' where "Emulate X H E npc g = (True, npc', st, g')"
    using assms Emulate_handled [of X H E npc g] by (metis prod_cases4 fst_conv)
  then show thesis using that by (simp add: perform_def)
qed

text \<open>Reading memory changes the decoded instruction for bit tests only.\<close>

definition same_inst_unless_bt :: "'s world \<Rightarrow> 's world \<Rightarrow> bool" where
  "same_inst_unless_bt w w' \<longleftrightarrow>
     (\<forall>f. get_iform_enum (gXedd (fst w)) \<noteq> Bt f) \<longrightarrow> gXedd (fst w') = gXedd (fst w)"

interpretation inst: step_relation same_inst_unless_bt
  by unfold_locales (auto simp: same_inst_unless_bt_def)

lemma adjust_displacement_inst:
  assumes "\<forall>f. get_iform_enum (gXedd g) \<noteq> Bt f"
  shows "snd (adjust_displacement X k b disp g) = g"
  using assms by (simp add: adjust_displacement_def Let_def split: iform.split)

lemma ReadMemoryOperand_inst: "same_inst_unless_bt w (snd (ReadMemoryOperand X E xedo k w))"
proof -
  let ?d = "gXedd (fst w)"
  let ?a = "adjust_displacement X k (get_base_reg ?d k) (word_of_int (get_memory_displacement ?d k)) (fst w)"
  have "gXedd (fst (snd (ReadMemoryOperand X E xedo k w))) = ?d" if n: "\<forall>f. get_iform_enum ?d \<noteq> Bt f"
  proof -
    obtain disp where "?a = (disp, fst w)" using adjust_displacement_inst [OF n] by (metis prod.collapse)
    then show ?thesis by (simp add: ReadMemoryOperand_def Let_def split: prod.split)
  qed
  then show ?thesis by (simp add: same_inst_unless_bt_def)
qed

lemma ReadMemory_inst: "same_inst_unless_bt w (snd (ReadMemory X E w))"
proof -
  have "same_inst_unless_bt w (clear_present (fst w), snd w)"
    by (simp add: same_inst_unless_bt_def clear_present_def)
  moreover have "same_inst_unless_bt u (snd (ReadMemory X E w))" if "u = (clear_present (fst w), snd w)" for u
    unfolding ReadMemory_def that
    by (rule inst.each_keeps) (simp add: inst.R_refl ReadMemoryOperand_inst split: option.split)
  ultimately show ?thesis by (blast intro: inst.R_trans)
qed

lemma gXedd_CopyMMXStateToFPU: "gXedd (CopyMMXStateToFPU X E g) = gXedd g"
proof -
  have "gXedd (fold (COPY_FROM_MMX X (fpu_layout E)) ks g) = gXedd g" for ks
    by (induction ks arbitrary: g) (simp_all add: COPY_FROM_MMX_def)
  then show ?thesis by (simp add: CopyMMXStateToFPU_def)
qed

text \<open>The forms that \<open>Emulate\<close> leaves to the processor.\<close>

fun native_form :: "iform \<Rightarrow> bool" where
  "native_form (Bt f) = True"
| "native_form (XED_IFORM_OTHER n) = True"
| "native_form f = False"

lemma Emulate_native:
  "native_form (get_iform_enum (gXedd g)) \<Longrightarrow> Emulate X H E npc g = (False, mask_pc E npc, kGood, g)"
  by (cases "get_iform_enum (gXedd g)") (simp_all add: Emulate_def rejected_def Let_def)

text \<open>Instructions without an operand in memory.\<close>

definition memoryless :: "xed_decoded_inst \<Rightarrow> bool" where
  "memoryless d \<longleftrightarrow> (\<forall>xedo \<in> set (get_operands d). mem_slot (operand_name xedo) = None)"

lemma ReadFlags_gXedd: "gXedd (fst (snd (ReadFlags X H E w))) = gXedd (fst w)"
  by (simp add: ReadFlags_def set_aflag_def Let_def split: option.split prod.split)

section \<open>The globals an instruction is performed on\<close>

text \<open>The phases before \<open>Emulate\<close>, when none of them fails: up to the fetch, from the gathering of
  the FPU, from the gathering of the flags, and altogether.\<close>

definition succeed :: "('w \<Rightarrow> bool \<times> 'w) \<Rightarrow> 'w \<Rightarrow> 'w option" where
  "succeed a w = (case a w of (ok, w') \<Rightarrow> if ok then Some w' else None)"

lemma succeed_simps [simp]: "a w = (True, w') \<Longrightarrow> succeed a w = Some w'" "a w = (False, w') \<Longrightarrow> succeed a w = None"
  by (simp_all add: succeed_def)

lemma succeedD: "succeed a w = Some w' \<Longrightarrow> a w = (True, w')"
  by (simp add: succeed_def split: prod.splits if_splits)

definition fetched :: "xed \<Rightarrow> 's executor \<Rightarrow> 's world \<Rightarrow> (nat \<times> 's world) option" where
  "fetched X E w = map_option (FetchInstruction X E) (succeed (ReadPC X E) (reset_instruction X (fst w), snd w))"

definition decode_fetched :: "xed \<Rightarrow> 's executor \<Rightarrow> nat \<Rightarrow> 's world \<Rightarrow> bool \<times> 's world" where
  "decode_fetched X E n = on_globals (\<lambda>g. DecodeInstruction X (word_bytes n (idata g)) (addr_size E) g)"

definition operated_on :: "xed \<Rightarrow> 's executor \<Rightarrow> 's world \<Rightarrow> gstate option" where
  "operated_on X E w = Option.bind (succeed (fpu_read E) w) (\<lambda>w. map_option fst (succeed (ReadMemory X E)
     ((if gUsesMMX (fst w) then CopyMMXStateToFPU X E (fst w) else fst w), snd w)))"

definition decoded_on :: "xed \<Rightarrow> host \<Rightarrow> 's executor \<Rightarrow> 's world \<Rightarrow> gstate option" where
  "decoded_on X H E w = Option.bind (Option.bind (succeed (ReadFlags X H E) w) (succeed (ReadRegisters X E))) (operated_on X E)"

definition performed_on :: "xed \<Rightarrow> host \<Rightarrow> 's executor \<Rightarrow> 's world \<Rightarrow> gstate option" where
  "performed_on X H E w = Option.bind (fetched X E w) (\<lambda>(n, w). Option.bind (succeed (decode_fetched X E n) w) (decoded_on X H E))"

text \<open>XED encodes the instruction as it is then requested, and the processor runs the page
  without a fault.\<close>

definition runs_without_fault :: "xed \<Rightarrow> host \<Rightarrow> 's executor \<Rightarrow> gstate \<Rightarrow> bool" where
  "runs_without_fault X H E g \<longleftrightarrow>
     (case EncodeInstruction X H g of
        Some (ok, g1) \<Rightarrow> ok \<and> (case run_encoded X H E g1 of Some g2 \<Rightarrow> gSignal g2 = None | None \<Rightarrow> False)
      | None \<Rightarrow> False)"

definition native_succeeds :: "xed \<Rightarrow> host \<Rightarrow> 's executor \<Rightarrow> gstate option \<Rightarrow> bool" where
  "native_succeeds X H E r \<longleftrightarrow>
     (case r of Some g \<Rightarrow> native_form (get_iform_enum (gXedd g)) \<and> runs_without_fault X H E g | None \<Rightarrow> True)"

text \<open>What lies outside of the library goes well for one instruction: XED decodes what is fetched to
  a supported instruction, which is a no-operation, one of the forms \<open>Emulate\<close> handles, or one
  that XED encodes and the processor runs without a fault. Nothing is said of phases that are
  not reached.\<close>

definition completes_at :: "xed \<Rightarrow> host \<Rightarrow> 's executor \<Rightarrow> 's world \<Rightarrow> bool" where
  "completes_at X H E w \<longleftrightarrow>
     (case fetched X E w of
        None \<Rightarrow> True
      | Some (n, u) \<Rightarrow>
          (case decode_fetched X E n u of (ok, v) \<Rightarrow> ok \<and> \<not> UsesUnsupportedFeatures E (fst v) \<and>
             (is_nop (fst v) \<or> emulated (get_iform_enum (gXedd (fst v))) \<or> native_succeeds X H E (performed_on X H E w))))"

text \<open>So it does for the first \<open>n\<close> instructions of an execution.\<close>

fun run_completes :: "xed \<Rightarrow> host \<Rightarrow> 's executor \<Rightarrow> nat \<Rightarrow> 's world \<Rightarrow> bool" where
  "run_completes X H E 0 w = True"
| "run_completes X H E (Suc n) w = (completes_at X H E w \<and>
     (case ExecuteOne X H E w of Some (st, w') \<Rightarrow> st = kGood \<longrightarrow> run_completes X H E n w' | None \<Rightarrow> True))"

lemma perform_native_succeeds:
  assumes "native_form (get_iform_enum (gXedd g))" and "runs_without_fault X H E g"
  obtains npc' g' where "perform X H E npc g = Some (kGood, npc', g')"
proof -
  obtain g1 g2 where "EncodeInstruction X H g = Some (True, g1)" "run_encoded X H E g1 = Some g2" "gSignal g2 = None"
    using assms(2) by (auto simp: runs_without_fault_def split: option.splits)
  then have "perform X H E npc g = Some (kGood, mask_pc E npc, g2)"
    using assms(1) by (simp add: perform_def Emulate_native)
  then show thesis by (rule that)
qed

context willing
begin

lemma operate_assures:
  assumes "xed_ok X" and "I (snd w)" and "mem \<or> memoryless (gXedd (fst w))"
    and "emulated (get_iform_enum (gXedd (fst w))) \<or> native_succeeds X H E (operated_on X E w)"
  obtains w' where "operate X H E npc w = Some (kGood, w')" and "I (snd w')"
proof -
  obtain w1 where 1: "fpu_read E w = (True, w1)" "I (snd w1)"
    by (rule assures_return [OF fpu_assures(1) assms(2)])
  let ?w2 = "(if gUsesMMX (fst w1) then CopyMMXStateToFPU X E (fst w1) else fst w1, snd w1)"
  have "gXedd (fst w1) = gXedd (fst w)" using 1(1) by (auto simp: fpu_read_def split: prod.splits if_splits)
  then have d: "gXedd (fst ?w2) = gXedd (fst w)" by (simp add: gXedd_CopyMMXStateToFPU)
  have m: "ReadMemory X E ?w2 = (True, clear_present (fst ?w2), snd ?w2)" if "memoryless (gXedd (fst w))"
    using that d by (intro ReadMemory_none) (simp add: memoryless_def)
  obtain w3 where 3: "ReadMemory X E ?w2 = (True, w3)" "I (snd w3)"
  proof -
    have "fst (ReadMemory X E ?w2) \<and> I (snd (snd (ReadMemory X E ?w2)))"
      using assms(3) d 1(2) by (intro ReadMemory_assures) (simp_all add: memoryless_def)
    then show thesis using that by (cases "ReadMemory X E ?w2") simp
  qed
  have on: "operated_on X E w = Some (fst w3)" using 1(1) 3(1) by (simp add: operated_on_def)
  obtain npc' g' where p: "perform X H E npc (fst w3) = Some (kGood, npc', g')"
    using assms(4)
  proof
    assume e: "emulated (get_iform_enum (gXedd (fst w)))"
    then have "gXedd (fst w3) = gXedd (fst w)"
      using ReadMemory_inst [of ?w2 X E] d 3(1) unfolding same_inst_unless_bt_def by (metis emulated.simps(1) snd_conv)
    then show thesis using perform_emulated e that by metis
  next
    assume "native_succeeds X H E (operated_on X E w)"
    then have "native_form (get_iform_enum (gXedd (fst w3)))" "runs_without_fault X H E (fst w3)"
      by (simp_all add: native_succeeds_def on)
    then show thesis using perform_native_succeeds that by metis
  qed
  have "mem \<or> \<not> present (gMemory g' 0) \<and> \<not> present (gMemory g' 1)"
  proof (cases "memoryless (gXedd (fst w))")
    case True
    then have "w3 = (clear_present (fst ?w2), snd ?w2)" using m 3(1) by simp
    moreover have "slots_of g' = slots_of (fst w3)" using kept_perform [OF p] by simp
    then have "present (gMemory g' k) = present (gMemory (fst w3) k)" for k by (simp add: slots_of_def fun_eq_iff)
    ultimately show ?thesis by (simp add: clear_present_def)
  qed (use assms(3) in simp)
  then obtain w' where "commit X E npc' (g', snd w3) = Some (kGood, w')" "I (snd w')"
    using commit_assures [OF assms(1), of "(g', snd w3)" npc'] 3(2) by auto
  with 1 3 p show thesis by (intro that [of w']) (simp_all add: operate_def or_return_def)
qed

lemma decoded_assures:
  assumes "xed_ok X" and "I (snd w)" and "mem \<or> memoryless (gXedd (fst w))"
    and "\<not> UsesUnsupportedFeatures E (fst w)"
    and "is_nop (fst w) \<or> emulated (get_iform_enum (gXedd (fst w))) \<or> native_succeeds X H E (decoded_on X H E w)"
  obtains w' where "decoded X H E w = Some (kGood, w')" and "I (snd w')"
proof -
  obtain w1 where 1: "ReadFlags X H E w = (True, w1)" "I (snd w1)"
    by (rule assures_return [OF ReadFlags_assures assms(2)])
  obtain w2 where 2: "ReadRegisters X E w1 = (True, w2)" "I (snd w2)"
    by (rule assures_return [OF ReadRegisters_assures 1(2)])
  let ?npc = "GetNextPC X E (fst w2)"
  have d: "gXedd (fst w2) = gXedd (fst w)"
    using ReadRegisters_same [of w1 X E] ReadFlags_gXedd [of X H E w] 1 2 by (simp add: same_inst_def)
  have step: "decoded X H E w = (if is_nop (fst w2) then report_back X E ?npc w2 else operate X H E ?npc w2)"
    using assms(4) 1 2 by (simp add: decoded_def or_return_def Let_def)
  have on: "decoded_on X H E w = operated_on X E w2" using 1(1) 2(1) by (simp add: decoded_on_def)
  show thesis
  proof (cases "is_nop (fst w2)")
    case True
    then show thesis using report_back_assures [OF assms(1) 2(2)] that step by metis
  next
    case False
    then have "emulated (get_iform_enum (gXedd (fst w2))) \<or> native_succeeds X H E (operated_on X E w2)"
      using assms(5) d by (simp add: on is_nop_def)
    moreover have "mem \<or> memoryless (gXedd (fst w2))" using assms(3) d by simp
    ultimately obtain w' where "operate X H E ?npc w2 = Some (kGood, w')" "I (snd w')"
      using operate_assures [OF assms(1) 2(2)] by metis
    with False step show thesis by (intro that [of w']) simp_all
  qed
qed

text \<open>One instruction, from what its fetch yields.\<close>

lemma ExecuteOne_assures:
  assumes "xed_ok X" and "I (snd w)" and "completes_at X H E w"
    and "\<And>w1 n w2. ReadPC X E (reset_instruction X (fst w), snd w) = (True, w1) \<Longrightarrow> I (snd w1) \<Longrightarrow>
      FetchInstruction X E w1 = (n, w2) \<Longrightarrow> n \<noteq> 0 \<and> I (snd w2) \<and>
      (mem \<or> memoryless (snd (xed_decode X (if 32 = addr_size E then kXEDState32 else kXEDState64) (word_bytes n (idata (fst w2))))))"
  obtains w' where "ExecuteOne X H E w = Some (kGood, w')" and "I (snd w')"
proof -
  obtain w1 where 1: "ReadPC X E (reset_instruction X (fst w), snd w) = (True, w1)" "I (snd w1)"
    by (rule assures_return [OF ReadPC_assures, of "(reset_instruction X (fst w), snd w)"]) (simp_all add: assms(2))
  obtain n w2 where f: "FetchInstruction X E w1 = (n, w2)" by (metis surj_pair)
  have F: "fetched X E w = Some (n, w2)" using 1(1) f by (simp add: fetched_def)
  obtain ok w3 where D: "decode_fetched X E n w2 = (ok, w3)" by (metis surj_pair)
  have c: "ok" "\<not> UsesUnsupportedFeatures E (fst w3)"
    "is_nop (fst w3) \<or> emulated (get_iform_enum (gXedd (fst w3))) \<or> native_succeeds X H E (performed_on X H E w)"
    using assms(3) by (simp_all add: completes_at_def F D)
  note D = D [unfolded eqTrueI [OF c(1)]]
  have on: "performed_on X H E w = decoded_on X H E w3" using D by (simp add: performed_on_def F)
  have g: "gXedd (fst w3) = snd (xed_decode X (if 32 = addr_size E then kXEDState32 else kXEDState64) (word_bytes n (idata (fst w2))))"
    "snd w3 = snd w2"
    using Decode_result(1,6) [OF D [unfolded decode_fetched_def]] by simp_all
  have n: "n \<noteq> 0" "I (snd w2)" "mem \<or> memoryless (gXedd (fst w3))" using assms(4) [OF 1 f] unfolding g by blast+
  obtain w' where "decoded X H E w3 = Some (kGood, w')" "I (snd w')"
    using decoded_assures [OF assms(1), of w3 H] n(2,3) c(2,3) unfolding on g(2) by metis
  with 1 f n D show thesis by (intro that [of w']) (simp_all add: ExecuteOne_def or_return_def decode_fetched_def)
qed

end

section \<open>Whole executions\<close>

lemma run_succeeds:
  assumes "obliging E" and "xed_ok X"
  shows "run_completes X H E n w \<Longrightarrow> \<exists>w'. execute_loop X H E n w = Some (kGood, w')"
proof (induction n arbitrary: w)
  case (Suc n)
  then have c: "completes_at X H E w" by simp
  obtain w1 where w1: "ExecuteOne X H E w = Some (kGood, w1)"
  proof (rule willing.ExecuteOne_assures [OF obliging_willing [OF assms(1)] assms(2) _ c])
    fix w1 w2 :: "'a world" and k
    assume "FetchInstruction X E w1 = (k, w2)"
    then show "k \<noteq> 0 \<and> True \<and> (True \<or> memoryless (snd (xed_decode X (if 32 = addr_size E then kXEDState32 else kXEDState64)
        (word_bytes k (idata (fst w2))))))"
      using FetchInstruction_ok [OF assms(1), of X w1] by (simp add: max_inst_length_def)
  qed simp_all
  moreover have "run_completes X H E n w1" using Suc.prems w1 by simp
  ultimately show ?case using Suc.IH [of w1] by simp
qed simp

text \<open>
  C12: an execution of any number of instructions completes with \<open>kGood\<close> when the executor
  refuses no request and what lies outside of the library goes well for every instruction of
  this run: XED decodes the bytes fetched to a supported instruction, which is a
  no-operation, one of the forms \<open>Emulate\<close> handles, or one that XED encodes, as it is requested
  at this point of the run, and that the processor then runs without a fault. No phase
  reports an error of its own.
\<close>

theorem obliging_succeeds:
  assumes "obliging E" and "xed_ok X" and "gIsInitialized (fst w)"
    and "run_completes X H E n w"
  shows "\<exists>w'. Execute X H E n w = Some (kGood, w')"
  using run_succeeds [OF assms(1,2,4)] assms(3) by (simp add: Execute_def)

section \<open>Instances\<close>

text \<open>Simple instances of XED and of the processor, on which witnesses run: one that encodes
  every request, one that never faults and refuses no FPU image, and instructions without
  memory operands.\<close>

definition never_faults :: "host \<Rightarrow> bool" where
  "never_faults H \<longleftrightarrow> (\<forall>area c. \<exists>c'. run_native H area c = Returned c') \<and> (\<forall>rex f. \<not> fxrstor_faults H rex f)"

definition always_encodes :: "xed \<Rightarrow> bool" where
  "always_encodes X \<longleftrightarrow> (\<forall>e. convert_to_encoder_request X e \<and> xed_encode X e \<noteq> None)"

definition runs_natively :: "xed \<Rightarrow> host \<Rightarrow> 's executor \<Rightarrow> xed_decoded_inst \<Rightarrow> bool" where
  "runs_natively X H E d \<longleftrightarrow> native_form (get_iform_enum d) \<and> memoryless d \<and>
     always_encodes X \<and> never_faults H \<and> \<not> has_avx E \<and> \<not> has_avx512 E"

lemma EncodeInstruction_succeeds:
  assumes "always_encodes X" and "\<not> present (gMemory g 0)"
  obtains g' where "EncodeInstruction X H g = Some (True, g')"
proof -
  have "\<exists>g'. EncodeInstruction X H g = Some (True, g')"
    using assms CreateEncodable_same(2) [of X g 0]
    by (auto simp: always_encodes_def EncodeInstruction_def EncodeRequest_def Let_def split: option.split)
  then show thesis using that by blast
qed

lemma run_encoded_succeeds:
  assumes "never_faults H" and "\<not> has_avx E" and "\<not> has_avx512 E"
  obtains g' where "run_encoded X H E g = Some g'" and "gSignal g' = None"
proof -
  let ?h = "install_handlers (g\<lparr>gSignal := None\<rparr>)"
  obtain fpu h where L: "LoadFPU H E ?h = Some (fpu, h)" and h: "gSignal h = None"
    using assms(1) by (cases "gUsesFPU g") (auto simp: LoadFPU_def never_faults_def install_handlers_def)
  obtain c where c: "run_native H (gExecArea h) (native_entry X H fpu h) = Returned c"
    using assms(1) unfolding never_faults_def by blast
  let ?r = "leave_native X H c h"
  have "gSignal (snd ?r) = None" using h by (simp add: leave_native_def)
  then have "gSignal (snd (StoreFPU H E (fst ?r) (snd ?r))) = None" by (simp add: StoreFPU_def)
  moreover have "run_encoded X H E g = Some (restore_handlers (snd (StoreFPU H E (fst ?r) (snd ?r))))"
    using assms(2,3) L c by (simp add: run_encoded_def ExecuteNative_def split: prod.split)
  ultimately show thesis using that by (simp add: restore_handlers_def)
qed

lemma operated_natively:
  assumes "runs_natively X H E (gXedd (fst w))"
  shows "native_succeeds X H E (operated_on X E w)"
proof (cases "operated_on X E w")
  case (Some g)
  note n = assms [unfolded runs_natively_def]
  obtain w1 w3 where w: "fpu_read E w = (True, w1)"
    "ReadMemory X E ((if gUsesMMX (fst w1) then CopyMMXStateToFPU X E (fst w1) else fst w1), snd w1) = (True, w3)" "g = fst w3"
    using Some unfolding operated_on_def by (auto simp: bind_eq_Some_conv dest!: succeedD)
  let ?g = "if gUsesMMX (fst w1) then CopyMMXStateToFPU X E (fst w1) else fst w1"
  have "gXedd (fst w1) = gXedd (fst w)" using w(1) by (auto simp: fpu_read_def split: prod.splits if_splits)
  then have d: "gXedd ?g = gXedd (fst w)" by (simp add: gXedd_CopyMMXStateToFPU)
  then have "g = clear_present ?g" using w(2,3) n ReadMemory_none [of "(?g, snd w1)" X E] by (simp add: memoryless_def)
  then have g: "gXedd g = gXedd (fst w)" "\<not> present (gMemory g 0)" using d by (simp_all add: clear_present_def)
  obtain g1 where e: "EncodeInstruction X H g = Some (True, g1)" using EncodeInstruction_succeeds g(2) n by blast
  obtain g2 where "run_encoded X H E g1 = Some g2" "gSignal g2 = None" using run_encoded_succeeds n by blast
  with e g n show ?thesis by (simp add: Some native_succeeds_def runs_without_fault_def)
qed (simp add: native_succeeds_def)

lemma decoded_natively:
  assumes "runs_natively X H E (gXedd (fst w))"
  shows "native_succeeds X H E (decoded_on X H E w)"
proof (cases "Option.bind (succeed (ReadFlags X H E) w) (succeed (ReadRegisters X E))")
  case (Some w2)
  then obtain w1 where "ReadFlags X H E w = (True, w1)" "ReadRegisters X E w1 = (True, w2)"
    by (auto simp: bind_eq_Some_conv dest!: succeedD)
  then have "gXedd (fst w2) = gXedd (fst w)"
    using ReadRegisters_same [of w1 X E] ReadFlags_gXedd [of X H E w] by (simp add: same_inst_def)
  then show ?thesis using operated_natively [of X H E w2] assms by (simp add: decoded_on_def Some)
qed (simp add: decoded_on_def native_succeeds_def)

lemma performed_natively:
  assumes "\<And>st bs. runs_natively X H E (snd (xed_decode X st bs))"
  shows "native_succeeds X H E (performed_on X H E w)"
proof (cases "performed_on X H E w")
  case (Some g)
  then obtain n u v where "decode_fetched X E n u = (True, v)" and on: "decoded_on X H E v = Some g"
    by (auto simp: performed_on_def bind_eq_Some_conv dest!: succeedD)
  then have "runs_natively X H E (gXedd (fst v))"
    using Decode_result(1) [of X "\<lambda>g. word_bytes n (idata g)" "addr_size E" u v] assms by (simp add: decode_fetched_def)
  from decoded_natively [OF this] show ?thesis by (simp add: Some on)
qed (simp add: native_succeeds_def)

text \<open>Instances of XED that decode such instructions only.\<close>

definition completes :: "xed \<Rightarrow> host \<Rightarrow> 's executor \<Rightarrow> xed_decoded_inst \<Rightarrow> bool" where
  "completes X H E d \<longleftrightarrow> get_category d \<in> {XED_CATEGORY_NOP, XED_CATEGORY_WIDENOP} \<or>
     emulated (get_iform_enum d) \<or> runs_natively X H E d"

definition only_completing :: "xed \<Rightarrow> host \<Rightarrow> 's executor \<Rightarrow> bool" where
  "only_completing X H E \<longleftrightarrow> (\<forall>st bs. fst (xed_decode X st bs) \<and> completes X H E (snd (xed_decode X st bs)) \<and>
     (\<forall>g. gXedd g = snd (xed_decode X st bs) \<longrightarrow> \<not> UsesUnsupportedFeatures E g))"

lemma only_completing_at:
  assumes "only_completing X H E"
  shows "completes_at X H E w"
proof (cases "fetched X E w")
  case (Some nu)
  obtain n u where nu: "nu = (n, u)" by (metis surj_pair)
  let ?d = "xed_decode X (if 32 = addr_size E then kXEDState32 else kXEDState64) (word_bytes n (idata (fst u)))"
  have o: "fst ?d" "completes X H E (snd ?d)" "\<And>g. gXedd g = snd ?d \<Longrightarrow> \<not> UsesUnsupportedFeatures E g"
    using assms unfolding only_completing_def by blast+
  obtain ok v where D: "decode_fetched X E n u = (ok, v)" by (metis surj_pair)
  have ok: "ok" using D o(1) by (auto simp: decode_fetched_def on_globals_def DecodeInstruction_def Let_def split: prod.splits)
  have d: "gXedd (fst v) = snd ?d"
    using Decode_result(1) [OF D [unfolded eqTrueI [OF ok] decode_fetched_def]] by simp
  have "performed_on X H E w = decoded_on X H E v" using D ok by (simp add: performed_on_def Some nu)
  moreover have "native_succeeds X H E (decoded_on X H E v)" if "runs_natively X H E (snd ?d)"
    using decoded_natively [of X H E v] that d by simp
  ultimately show ?thesis
    using o(2) o(3) [OF d] ok d by (auto simp: completes_at_def Some nu D completes_def is_nop_def)
qed (simp add: completes_at_def)

lemma only_completing_run: "only_completing X H E \<Longrightarrow> run_completes X H E n w"
  by (induction n arbitrary: w) (auto simp: only_completing_at split: option.split)

lemma Execute_succeeds:
  assumes "obliging E" and "xed_ok X" and "gIsInitialized (fst w)"
    and "only_completing X H E"
  obtains w' where "Execute X H E n w = Some (kGood, w')"
proof -
  have "\<exists>w'. Execute X H E n w = Some (kGood, w')"
    using run_succeeds [OF assms(1,2) only_completing_run [OF assms(4)], of n w] assms(3) by (simp add: Execute_def)
  then show thesis using that by blast
qed

lemma xed_ok_decode: "xed_ok (X\<lparr>xed_decode := f\<rparr>) = xed_ok X"
  by (simp add: xed_ok_def gpr_pair_def)

text \<open>An endless loop of LOOP instructions, executed a hundred times.\<close>

definition loop_inst :: xed_decoded_inst where
  "loop_inst = sample_inst\<lparr>get_iform_enum := Cfi XED_IFORM_LOOP_RELBRb\<rparr>"

definition loop_xed :: xed where
  "loop_xed = sample_xed\<lparr>xed_decode := (\<lambda>st bs. (True, loop_inst))\<rparr>"

lemma sample_obliging: "obliging (sample_executor n)"
  by (simp add: obliging_def sample_executor_def)

theorem obliging_succeeds_witness:
  "obliging (sample_executor 64) \<and> xed_ok loop_xed \<and>
   (\<exists>w'. Execute loop_xed sample_host (sample_executor 64) 100 (sample_gstate, []) = Some (kGood, w'))"
proof -
  have x: "xed_ok loop_xed" by (simp add: loop_xed_def xed_ok_decode sample_xed_ok)
  have i: "gIsInitialized (fst (sample_gstate, []))" by (simp add: sample_gstate_def)
  have c: "only_completing loop_xed sample_host (sample_executor 64)"
    by (simp add: only_completing_def loop_xed_def completes_def loop_inst_def UsesUnsupportedFeatures_def
        UsesUnsupportedAttributes_def sample_inst_def)
  show ?thesis
    using obliging_succeeds [OF sample_obliging x i only_completing_run [OF c]] x sample_obliging by blast
qed

end
