(* ===== verification/Push.thy ===== *)
theory Push
  imports Stack Obliging
begin

text \<open>
  A push of a register from the call of \<open>Execute\<close> to the reports, for a 64-bit executor: the
  cell below the stack pointer is written, then the stack pointer and the program counter
  are reported.
\<close>

section \<open>The push itself\<close>

definition plain_push :: "xed \<Rightarrow> xed_decoded_inst \<Rightarrow> xed_reg \<Rightarrow> bool" where
  "plain_push X d r \<longleftrightarrow> get_iform_enum d = Stk XED_IFORM_PUSH_GPRv_50 \<and> stack_inst X True d r"

lemma perform_push:
  assumes "xed_ok X" and "addr_size E = 64" and "get_iform_enum (gXedd g) = Stk XED_IFORM_PUSH_GPRv_50"
  shows "perform X H E npc g = Some (kGood, npc, WriteGPR X (reg X XED_REG_RSP)
    (ReadGPR X (reg X XED_REG_RSP) g - of_nat (effective_operand_width (gEmu g) div 8))
    (set_memv 0 (ReadGPR X (get_reg (gXedd g) XED_OPERAND_REG0) g) g))"
proof -
  have w: "WidestRegister X E (reg X XED_REG_ESP) = reg X XED_REG_RSP"
    using assms(2) by (simp add: WidestRegister_pair [OF xed_ok_pairs(2) [OF assms(1)]])
  have "ReadGPR X q (set_memv k v g) = ReadGPR X q g" for q k v
    by (simp add: ReadGPR_def ReadValue_def set_memv_def Let_def)
  then show ?thesis
    using assms(2,3) by (simp add: perform_def Emulate_def emulate_stk_def handled_def add_stack_def w mask_pc_def Let_def)
qed

text \<open>Storing into the slot of the stack pointer.\<close>

lemma WriteGPR_RSP:
  assumes "xed_ok X"
  shows "WriteGPR X (reg X XED_REG_RSP) v g =
    g\<lparr>gRegs := (gRegs g)(reg X XED_REG_RSP := put_bits 0 64 v (gRegs g (reg X XED_REG_RSP)))\<rparr>"
  using RSP_facts(1,2) [OF assms] by (simp add: WriteGPR_def WriteValue_def Let_def)

text \<open>The reports of a push, for a stack pointer \<open>sp\<close>, operand size \<open>n\<close> and value \<open>v\<close>.\<close>

definition push_reported :: "xed \<Rightarrow> xed_decoded_inst \<Rightarrow> u64 \<Rightarrow> u64 \<Rightarrow> u64 \<Rightarrow> u64 \<Rightarrow> written list \<Rightarrow> bool" where
  "push_reported X d sp n v npc ws \<longleftrightarrow> (\<exists>m sp' pc.
     ws = [WroteMem (mask_address (get_memop_address_width d 0) (sp - n)) (8 * get_memory_operand_length d 0) m,
       WroteReg (reg_enum_t2str X (reg X XED_REG_RSP)) 64 sp', WroteReg (reg_enum_t2str X (reg X XED_REG_RIP)) 64 pc] \<and>
     get_bits 0 64 m = v \<and> get_bits 0 64 sp' = sp - n \<and> get_bits 0 64 pc = npc)"

lemma push_written_regs:
  assumes "xed_ok X" and "addr_size E = 64" and "plain_push X d r" and "stack_regs X r"
  shows "written_regs X E d = [reg X XED_REG_RSP]"
proof -
  let ?sp = "reg X XED_REG_RSP"
  have i: "stack_inst X True d r" and l: "?sp < reg X XED_REG_LAST"
    using assms(3,4) by (simp_all add: plain_push_def stack_regs_def)
  have f: "flags_reg_of X E \<noteq> ?sp" using flags_reg_64 [OF assms(1,2)] RSP_facts(7) [OF assms(1)] by metis
  have n: "written_names X E d = {?sp}" using stack_gathered(3) [OF assms(1) i assms(4,2)] by simp
  have "(q \<in> written_names X E d \<and> q \<noteq> flags_reg_of X E \<and> \<not> is_pc X q) = (q = ?sp)" for q
    unfolding n using f RSP_facts(5) [OF assms(1)] by blast
  then show ?thesis using filter_single [of "[0..<reg X XED_REG_LAST]" ?sp] l by (simp add: written_regs_def)
qed

text \<open>The reports of a successful push.\<close>

lemma push_writes:
  assumes "xed_ok X" and "pc_plain X" and "addr_size E = 64" and "default_address E" and "serves E val"
    and "code_at X E (val (reg_enum_t2str X (reg X XED_REG_RIP))) d" and "plain_push X d r" and "stack_regs X r"
    and "Execute X H (logged E) 1 (g, s, log) = Some (kGood, g', s', log')"
  shows "\<exists>ws. log' = log @ ws \<and> push_reported X d (val (reg_enum_t2str X (reg X XED_REG_RSP)))
    (of_nat (get_operand_width d div 8))
    (take_bit (get_register_width_bits64 X r) (val (reg_enum_t2str X (get_largest_enclosing_register X r))))
    (val (reg_enum_t2str X (reg X XED_REG_RIP)) + of_nat (get_length d)) ws"
proof -
  let ?sp = "val (reg_enum_t2str X (reg X XED_REG_RSP))" and ?n = "of_nat (get_operand_width d div 8) :: u64"
  let ?npc = "val (reg_enum_t2str X (reg X XED_REG_RIP)) + of_nat (get_length d)"
  have i: "stack_inst X True d r" "get_iform_enum d = stack_form True"
    using assms(7) by (simp_all add: plain_push_def stack_form_def)
  obtain g1 s1 npc g2 where rdy: "stack_ready X E val True d r g1" and slot: "cell_slot True d ?sp E (gMemory g1 0)"
    and none: "\<not> present (gMemory g1 1)" and p: "perform X H (logged E) ?npc g1 = Some (kGood, npc, g2)"
    and c: "commit X (logged E) npc (g2, s1, log) = Some (kGood, g', s', log')"
    by (rule stack_prepared [OF assms(1-6) i assms(8,9)])
  note g1 = rdy [unfolded stack_ready_def] and pr = assms(8) [unfolded stack_regs_def] and sp = RSP_facts [OF assms(1)]
  have rd: "ReadGPR X (reg X XED_REG_RSP) g1 = ?sp"
    "ReadGPR X r g1 = take_bit (get_register_width_bits64 X r) (val (reg_enum_t2str X (get_largest_enclosing_register X r)))"
    using coherent_ReadGPR [of X val g1 "reg X XED_REG_RSP"] coherent_ReadGPR [of X val g1 r] sp g1 pr by simp_all
  let ?R = "(gRegs g1)(reg X XED_REG_RSP := put_bits 0 64 (?sp - ?n) (gRegs g1 (reg X XED_REG_RSP)))"
  let ?M = "(gMemory g1)(0 := (gMemory g1 0)\<lparr>mdata := put_bits 0 64 (ReadGPR X r g1) (mdata (gMemory g1 0))\<rparr>)"
  have form: "get_iform_enum (gXedd g1) = Stk XED_IFORM_PUSH_GPRv_50" "get_reg (gXedd g1) XED_OPERAND_REG0 = r"
    using g1 assms(7) i(1) by (simp_all add: plain_push_def stack_inst_def)
  have "g2 = g1\<lparr>gMemory := ?M, gRegs := ?R\<rparr>" "npc = ?npc"
    using p perform_push [OF assms(1) _ form(1), of "logged E" H ?npc] assms(3) form(2) rd(1) g1
    by (simp_all add: WriteGPR_RSP [OF assms(1)] set_memv_def)
  then have c: "commit X (logged E) ?npc (g1\<lparr>gMemory := ?M, gRegs := ?R\<rparr>, s1, log) = Some (kGood, g', s', log')"
    using c by simp
  have l: "reg X XED_REG_RIP < reg X XED_REG_LAST" using assms(2) by (simp add: pc_plain_def)
  obtain pc where "log' = log @ [WroteMem (maddress (?M 0)) (msize (?M 0)) (mdata (?M 0)),
      WroteReg (reg_enum_t2str X (reg X XED_REG_RSP)) 64 (?R (reg X XED_REG_RSP)),
      WroteReg (reg_enum_t2str X (reg X XED_REG_RIP)) 64 pc]" "get_bits 0 64 pc = ?npc"
    using stack_committed [OF assms(1,3) l i(1) assms(8) rdy _ _ _ c] slot none
    by (auto simp: push_written_regs [OF assms(1,3,7,8)] cell_slot_def)
  moreover have "maddress (?M 0) = mask_address (get_memop_address_width d 0) (?sp - ?n)"
    "msize (?M 0) = 8 * get_memory_operand_length d 0"
    using slot by (simp_all add: cell_slot_def cell_address_def)
  ultimately show ?thesis
    unfolding push_reported_def rd(2) [symmetric] by (intro exI conjI) (auto simp: get_put_bits)
qed

text \<open>
  C11: end to end, for any 64-bit executor that serves the register values \<open>val\<close>: a push of
  a register makes exactly three reports, in this order: the cell one operand size below
  the stack pointer, with the register's value; the stack pointer, moved to that cell; and
  the program counter, moved past the instruction.
\<close>

theorem push_reports:
  assumes "xed_ok X" and "pc_plain X" and "addr_size E = 64" and "default_address E" and "serves E val"
    and "code_at X E (val (reg_enum_t2str X (reg X XED_REG_RIP))) d" and "plain_push X d r" and "stack_regs X r"
    and "Execute X H (logged E) 1 (g, s, log) = Some (kGood, g', s', log')"
  shows "\<exists>ws. log' = log @ ws \<and> push_reported X d (val (reg_enum_t2str X (reg X XED_REG_RSP)))
    (of_nat (get_operand_width d div 8))
    (take_bit (get_register_width_bits64 X r) (val (reg_enum_t2str X (get_largest_enclosing_register X r))))
    (val (reg_enum_t2str X (reg X XED_REG_RIP)) + of_nat (get_length d)) ws"
  by (rule push_writes [OF assms])

text \<open>PUSH RCX at 0x401000 with RSP = 0x7000 and RCX = 5.\<close>

definition push_inst :: xed_decoded_inst where
  "push_inst = sample_inst\<lparr>get_iform_enum := Stk XED_IFORM_PUSH_GPRv_50,
     get_reg := (\<lambda>_. 0)(XED_OPERAND_REG0 := 12, XED_OPERAND_REG1 := 1), get_base_reg := (\<lambda>_. 15),
     get_operands := [
       \<lparr>operand_name = XED_OPERAND_REG0, operand_visibility = XED_OPVIS_EXPLICIT, operand_read = True,
         operand_written = False, operand_conditional_write = False\<rparr>,
       \<lparr>operand_name = XED_OPERAND_REG1, operand_visibility = XED_OPVIS_SUPPRESSED, operand_read = True,
         operand_written = True, operand_conditional_write = False\<rparr>,
       \<lparr>operand_name = XED_OPERAND_MEM0, operand_visibility = XED_OPVIS_SUPPRESSED, operand_read = False,
         operand_written = True, operand_conditional_write = False\<rparr>]\<rparr>"

definition push_xed :: xed where
  "push_xed = sample_xed\<lparr>xed_decode := (\<lambda>st bs. (True, push_inst))\<rparr>"

definition push_values :: "string \<Rightarrow> u64" where
  "push_values nm = (if nm = ''RIP'' then 0x401000 else if nm = ''RSP'' then 0x7000 else if nm = ''RCX'' then 5 else 0)"

definition push_executor :: "unit executor" where
  "push_executor = \<lparr>addr_size = 64, has_avx = False, has_avx512 = False,
     ComputeAddress = (\<lambda>_ b i s d _ _ u. (Executor_ComputeAddress b i s d, u)),
     ReadReg = (\<lambda>nm _ _ _ u. (True, ucast (push_values nm), u)),
     WriteReg = (\<lambda>_ _ _ u. (True, u)), ReadMem = (\<lambda>_ _ _ d u. (True, d, u)),
     WriteMem = (\<lambda>_ _ _ u. (True, u)), ReadFPU = (\<lambda>f u. (True, f, u)),
     WriteFPU = (\<lambda>_ u. (True, u)), ClearFetchError = (\<lambda>u. u)\<rparr>"

lemma push_serves: "serves push_executor push_values"
proof -
  have "(get_bits 0 64 (ucast v :: Data) :: u64) = v" for v :: u64
    by (rule bit_word_eqI) (auto simp: bit_simps)
  then show ?thesis by (auto simp: serves_def push_executor_def)
qed

theorem push_reports_witness:
  "xed_ok push_xed \<and> serves push_executor push_values \<and>
   (\<exists>g' s' m sp pc. Execute push_xed sample_host (logged push_executor) 1 (sample_gstate, (), []) =
      Some (kGood, g', s', [WroteMem 0x6FF8 64 m, WroteReg ''RSP'' 64 sp, WroteReg ''RIP'' 64 pc]) \<and>
      get_bits 0 64 m = (5 :: u64) \<and> get_bits 0 64 sp = (0x6FF8 :: u64) \<and> get_bits 0 64 pc = (0x401001 :: u64))"
proof -
  have x: "xed_ok push_xed" "pc_plain push_xed"
    by (simp add: push_xed_def xed_ok_decode sample_xed_ok)
      (simp add: push_xed_def pc_plain_def is_stack_pseudo_def sample_xed_simps)
  have e: "addr_size push_executor = 64" "default_address push_executor"
    by (simp_all add: push_executor_def default_address_def)
  have d: "code_at push_xed push_executor pc push_inst" for pc by (rule code_at_everywhere) (simp add: push_xed_def)
  have p: "plain_push push_xed push_inst 12" "stack_regs push_xed 12"
    by code_simp+
  let ?r = "Execute push_xed sample_host (logged push_executor) 1 (sample_gstate, (), [])"
  have "obliging (logged push_executor)"
    by (simp add: obliging_def logged_def push_executor_def)
  moreover have "only_completing push_xed sample_host (logged push_executor)"
    by (simp add: only_completing_def push_xed_def push_inst_def completes_def UsesUnsupportedFeatures_def
        UsesUnsupportedAttributes_def sample_inst_def)
  moreover have "gIsInitialized (fst (sample_gstate, (), []))" by (simp add: sample_gstate_def)
  ultimately obtain w' where "?r = Some (kGood, w')" using Execute_succeeds x(1) by blast
  then obtain g' log' where r: "?r = Some (kGood, g', (), log')" by (metis old.unit.exhaust prod_cases3)
  have n: "reg_enum_t2str push_xed (reg push_xed XED_REG_RSP) = ''RSP''"
    "reg_enum_t2str push_xed (reg push_xed XED_REG_RIP) = ''RIP''" "push_values ''RSP'' = 0x7000"
    "push_values ''RIP'' + of_nat (get_length push_inst) = 0x401001"
    "(of_nat (get_operand_width push_inst div 8) :: u64) = 8"
    "take_bit (get_register_width_bits64 push_xed 12)
       (push_values (reg_enum_t2str push_xed (get_largest_enclosing_register push_xed 12))) = 5"
    "mask_address (get_memop_address_width push_inst 0) (0x7000 - 8) = 0x6FF8"
    "8 * get_memory_operand_length push_inst 0 = 64"
    by code_simp+
  from push_reports [OF x e push_serves d p r] obtain m sp pc where
    "log' = [WroteMem 0x6FF8 64 m, WroteReg ''RSP'' 64 sp, WroteReg ''RIP'' 64 pc]"
    "get_bits 0 64 m = (5 :: u64)" "get_bits 0 64 sp = (0x6FF8 :: u64)" "get_bits 0 64 pc = (0x401001 :: u64)"
    unfolding push_reported_def n by auto
  then show ?thesis using x(1) push_serves r by blast
qed

text \<open>The same instruction while its registers are gathered.\<close>

definition push_gstate :: gstate where
  "push_gstate = sample_gstate\<lparr>gXedd := push_inst, gModifiedRegs := {4}\<rparr>"

theorem ReadRegisters_coherent_witness:
  "\<exists>g. ReadRegisters push_xed push_executor (push_gstate, ()) = (True, g, ()) \<and>
     (\<forall>r \<in> gUsedRegs g - {6}. get_bits 0 64 (gRegs g r) = push_values (reg_enum_t2str push_xed r)) \<and>
     gModifiedRegs g = {4, 15}"
proof -
  have a: "addr_size push_executor = 64" by (simp add: push_executor_def)
  have g: "gathered_regs push_xed push_inst" "no_pseudo_base push_xed push_inst"
    by code_simp+
  have w: "gXedd (fst (push_gstate, ())) = push_inst" "\<not> gUsesFPU (fst (push_gstate, ()))"
    "\<not> gUsesMMX (fst (push_gstate, ()))" "coherent push_xed push_values (fst (push_gstate, ()))"
    by (simp_all add: push_gstate_def sample_gstate_def coherent_def)
  have "fst (ReadRegisters push_xed push_executor (push_gstate, ()))" by code_simp
  then obtain g' where r: "ReadRegisters push_xed push_executor (push_gstate, ()) = (True, g', ())"
    by (metis old.unit.exhaust prod.collapse)
  have n: "written_names push_xed push_executor push_inst = {15}" "gModifiedRegs push_gstate = {4}"
    "reg push_xed XED_REG_RFLAGS = 6"
    by code_simp+
  from ReadRegisters_coherent [OF a push_serves g w r] show ?thesis using r n by auto
qed

end
