(* ===== verification/Compute.thy ===== *)
theory Compute
  imports Push
begin

text \<open>
  An instruction on registers that the library does not emulate, from the call of
  \<open>Execute\<close> to the reports: the processor runs its encoding on the registers and flags
  the executor has served, and what it leaves in them is reported.
\<close>

section \<open>What encoding and running leave alone\<close>

text \<open>The register cache and what is to be reported of it.\<close>

definition same_cache :: "gstate \<Rightarrow> gstate \<Rightarrow> bool" where
  "same_cache g h \<longleftrightarrow> gRegs h = gRegs g \<and> gUsedRegs h = gUsedRegs g \<and>
     gModifiedRegs h = gModifiedRegs g \<and> gStackPtrAlias h = gStackPtrAlias g \<and>
     gWriteBackFlags h = gWriteBackFlags g \<and> gUsesFPU h = gUsesFPU g \<and> gUsesMMX h = gUsesMMX g \<and>
     gXedd h = gXedd g"

text \<open>Operands that are neither in memory nor (part of) the stack pointer.\<close>

definition register_operands :: "xed \<Rightarrow> xed_decoded_inst \<Rightarrow> bool" where
  "register_operands X d \<longleftrightarrow> (\<forall>xedo \<in> set (get_operands d).
     mem_slot (operand_name xedo) = None \<and>
     (is_reg_operand (operand_name xedo) \<longrightarrow> \<not> is_stack_pseudo X (get_reg d (operand_name xedo)) \<and>
        (get_reg d (operand_name xedo) \<noteq> 0 \<longrightarrow>
           get_largest_enclosing_register X (get_reg d (operand_name xedo)) \<noteq> reg X XED_REG_RSP)))"

lemma same_cache_refl: "same_cache g g"
  by (simp add: same_cache_def)

lemma update_operand_cache: "same_cache g (update_operand i f g)"
  by (simp add: same_cache_def update_operand_def)

lemma EncodeOperand_cache:
  assumes "mem_slot name = None"
    and "is_reg_operand name \<longrightarrow> get_reg (gXedd g) name \<noteq> 0 \<longrightarrow>
      get_largest_enclosing_register X (get_reg (gXedd g) name) \<noteq> reg X XED_REG_RSP"
  shows "same_cache g (EncodeOperand X name g)"
proof -
  have r: "same_cache h (DecodeRegN X i r h)" if "get_largest_enclosing_register X r \<noteq> reg X XED_REG_RSP" for i r h
    using that by (simp add: DecodeRegN_def update_operand_cache)
  have m: "name \<noteq> XED_OPERAND_MEM0" using assms(1) by auto
  let ?h = "g\<lparr>gEmu := (gEmu g)\<lparr>noperands := noperands (gEmu g) + 1\<rparr>\<rparr>"
  have trans: "same_cache g h" if "same_cache ?h h" for h using that by (simp add: same_cache_def)
  have "same_cache ?h (EncodeOperand X name g)"
  proof (cases "name \<in> {XED_OPERAND_REG0, XED_OPERAND_REG1, XED_OPERAND_REG2, XED_OPERAND_REG3}")
    case True
    then have "is_reg_operand name" by (auto simp: is_reg_operand_def)
    then show ?thesis
      using assms(2) True m r by (simp add: EncodeOperand_def same_cache_refl Let_def)
  next
    case False
    then show ?thesis
      using m by (simp add: EncodeOperand_def DecodeImm0_def DecodeImm1_def update_operand_cache same_cache_refl Let_def)
  qed
  then show ?thesis by (rule trans)
qed

lemma CreateEncodable_cache:
  assumes "register_operands X (gXedd g)"
  shows "same_cache g (CreateEncodableInstruction X g)"
proof -
  have "same_cache g (fold (\<lambda>xedo g. if is_encoded xedo then EncodeOperand X (operand_name xedo) g else g) ops h)"
    if "set ops \<subseteq> set (get_operands (gXedd g))" and "same_cache g h" for ops h
    using that
  proof (induction ops arbitrary: h)
    case (Cons op ops)
    let ?h = "if is_encoded op then EncodeOperand X (operand_name op) h else h"
    have h: "gXedd h = gXedd g" using Cons.prems(2) by (simp add: same_cache_def)
    have "same_cache h (EncodeOperand X (operand_name op) h)"
      using assms Cons.prems(1) by (intro EncodeOperand_cache) (simp_all add: register_operands_def h)
    then have "same_cache g ?h" using Cons.prems(2) by (simp add: same_cache_def)
    then show ?case using Cons.IH [of ?h] Cons.prems(1) by simp
  qed simp
  then show ?thesis by (simp add: CreateEncodableInstruction_def same_cache_def)
qed

lemma EncodeInstruction_cache:
  assumes "EncodeInstruction X H g = Some (True, g')" and "register_operands X (gXedd g)"
    and "\<not> present (gMemory g 0)" and "\<not> present (gMemory g 1)"
  obtains bs where "xed_encode X (gEmu (CreateEncodableInstruction X g)) = Some bs"
    and "gExecArea g' = overwrite bs (overwrite (replicate 32 0xC3) (gExecArea g))"
    and "same_cache g g'" and "\<not> present (gMemory g' 0)" and "\<not> present (gMemory g' 1)"
proof -
  define c where "c = CreateEncodableInstruction X g"
  have c: "same_cache g c" "\<not> present (gMemory c 0)" "\<not> present (gMemory c 1)" "gExecArea c = gExecArea g"
    using CreateEncodable_cache [OF assms(2)] assms(3,4) CreateEncodable_same [of X g] by (simp_all add: c_def)
  let ?h = "c\<lparr>gExecArea := overwrite (replicate 32 0xC3) (gExecArea c)\<rparr>"
  obtain ok g1 where e: "EncodeRequest X ?h = (ok, g1)" by (cases "EncodeRequest X ?h")
  have "ok" using assms(1) e by (auto simp: EncodeInstruction_def c_def [symmetric] Let_def split: if_splits)
  then obtain bs where bs: "xed_encode X (gEmu ?h) = Some bs"
    "g1 = ?h\<lparr>gExecArea := overwrite bs (gExecArea ?h), gEmuSize := length bs\<rparr>"
    using EncodeRequest_Some [of X ?h g1] e by auto
  then have "g' = g1" using assms(1) e c(2) \<open>ok\<close> by (simp add: EncodeInstruction_def c_def [symmetric] Let_def)
  then show thesis using that [of bs] bs c by (simp add: same_cache_def c_def [symmetric])
qed

section \<open>The run\<close>

text \<open>What the second exchange of registers leaves alone.\<close>

definition exchanged :: "gstate \<Rightarrow> gstate \<Rightarrow> bool" where
  "exchanged h g \<longleftrightarrow> gUsedRegs h = gUsedRegs g \<and> gModifiedRegs h = gModifiedRegs g \<and>
     gStackPtrAlias h = gStackPtrAlias g \<and> gWriteBackFlags h = gWriteBackFlags g \<and>
     gUsesFPU h = gUsesFPU g \<and> gUsesMMX h = gUsesMMX g \<and> gXedd h = gXedd g \<and>
     (\<forall>k. present (gMemory h k) = present (gMemory g k))"

lemma exchanged_refl: "exchanged g g"
  by (simp add: exchanged_def)

lemma exchanged_trans: "exchanged h g \<Longrightarrow> exchanged i h \<Longrightarrow> exchanged i g"
  by (simp add: exchanged_def)

lemma exchanged_fold: "(\<And>x g. exchanged (f x g) g) \<Longrightarrow> exchanged (fold f xs g) g"
  by (induction xs arbitrary: g) (auto simp: exchanged_refl intro: exchanged_trans)

lemma exchanged_gprs: "exchanged (set_gprs X vs g) g"
  unfolding set_gprs_def by (rule exchanged_fold) (simp add: exchanged_def set_slot_low_def split: prod.split)

lemma exchanged_xmms: "exchanged (set_xmms X xs g) g"
  unfolding set_xmms_def by (rule exchanged_fold) (simp add: exchanged_def split: prod.split)

lemma exchanged_leave_native: "exchanged (snd (leave_native X H c g)) g"
  unfolding leave_native_def snd_conv
  by (rule exchanged_trans [OF exchanged_trans [OF _ exchanged_gprs] exchanged_xmms])
    (simp add: exchanged_def set_aflag_def set_mem0_data_def)

lemma status_of_signal_good: "status_of_signal s = kGood \<longleftrightarrow> s = None"
  by (cases s rule: status_of_signal.cases) simp_all

text \<open>A processor returns all fifteen registers of the exchange.\<close>

definition returns_gprs :: "host \<Rightarrow> bool" where
  "returns_gprs H \<longleftrightarrow> (\<forall>area c c'. length (cpu_gprs c) = 15 \<longrightarrow>
     run_native H area c = Returned c' \<longrightarrow> length (cpu_gprs c') = 15)"

lemma length_get_gprs: "length (get_gprs X g) = 15"
  by (simp add: get_gprs_def native_gprs_def)

lemma run_encoded_good:
  assumes "run_encoded X H E g = Some g'" and "gSignal g' = None" and "\<not> gUsesFPU g"
    and "\<not> has_avx E" and "\<not> has_avx512 E" and "native_regs_ok X" and "returns_gprs H"
  obtains c c' where "run_native H (gExecArea g) c = Returned c'" and "cpu_gprs c = get_gprs X g"
    and "cpu_rflags c = aflag X g" and "exchanged g' g" and "get_gprs X g' = cpu_gprs c'" and "aflag X g' = cpu_rflags c'"
    and "length (cpu_gprs c') = 15"
proof -
  define h where "h = install_handlers (g\<lparr>gSignal := None\<rparr>)"
  have h: "gExecArea h = gExecArea g" "gRegs h = gRegs g" "gSignal h = None" "exchanged h g"
    by (simp_all add: h_def install_handlers_def exchanged_def)
  let ?c = "native_entry X H (host_fpu H) h"
  have "LoadFPU H E h = Some (host_fpu H, h)" using assms(3) h(4) by (simp add: LoadFPU_def exchanged_def)
  then obtain fpu g1 where n: "ExecuteNative X H (host_fpu H) h = Some (fpu, g1)"
    and g': "g' = restore_handlers (snd (StoreFPU H E fpu g1))"
    using assms(1,4,5) by (auto simp: run_encoded_def h_def [symmetric] split: option.splits prod.splits)
  have sig: "gSignal g1 = None"
    using assms(2) g' by (auto simp: StoreFPU_def restore_handlers_def split: if_splits)
  obtain c' where c': "run_native H (gExecArea h) ?c = Returned c'"
    using n sig
    by (cases "run_native H (gExecArea h) ?c") (auto simp: ExecuteNative_def RecoverFromError_def split: if_splits)
  then have g1: "g1 = snd (leave_native X H c' h)" using n by (simp add: ExecuteNative_def)
  have x: "exchanged g1 h" unfolding g1 by (rule exchanged_leave_native)
  have uses: "\<not> gUsesFPU g1" using x h(4) assms(3) by (simp add: exchanged_def)
  have len: "length (cpu_gprs c') = 15" using assms(7) c' unfolding returns_gprs_def
    by (metis length_get_gprs native_entry_def cpu.select_convs(1))
  have r: "gRegs g' = gRegs g1" using uses by (simp add: g' StoreFPU_def restore_handlers_def)
  show thesis
  proof (rule that)
    show "run_native H (gExecArea g) ?c = Returned c'" using c' h by simp
    show "cpu_gprs ?c = get_gprs X g" "cpu_rflags ?c = aflag X g"
      using h(2) by (simp_all add: native_entry_def get_gprs_def aflag_def)
    show "exchanged g' g" using x h(4) uses by (simp add: g' StoreFPU_def restore_handlers_def exchanged_def)
    show "get_gprs X g' = cpu_gprs c'" "aflag X g' = cpu_rflags c'"
      using leave_native_registers [OF assms(6) len, of H h] r by (simp_all add: get_gprs_def aflag_def g1)
    show "length (cpu_gprs c') = 15" by (rule len)
  qed
qed

section \<open>The instruction\<close>

lemma perform_native:
  assumes "native_form (get_iform_enum (gXedd g))" and "addr_size E = 64"
    and "perform X H E npc g = Some (kGood, npc', g')"
  obtains g1 where "EncodeInstruction X H g = Some (True, g1)" and "run_encoded X H E g1 = Some g'"
    and "gSignal g' = None" and "npc' = npc"
proof -
  have "Emulate X H E npc g = (False, npc, kGood, g)"
    using assms(1,2) by (simp add: Emulate_native mask_pc_def)
  then show thesis
    using assms(3) that
    by (auto simp: perform_def status_of_signal_good split: option.splits prod.splits if_splits)
qed

text \<open>A run of the page on the cached registers and flags, and the reports it leads to; \<open>V\<close> are
  the slots after it.\<close>

definition ran ::
  "xed \<Rightarrow> host \<Rightarrow> 's executor \<Rightarrow> xed_decoded_inst \<Rightarrow> u64 \<Rightarrow> u8 list \<Rightarrow> cpu \<Rightarrow> u64 \<Rightarrow> written list \<Rightarrow> bool" where
  "ran X H E d wb bs c npc ws \<longleftrightarrow> (\<exists>page c' V pc.
     run_native H (overwrite bs (overwrite (replicate 32 0xC3) page)) c = Returned c' \<and>
     (\<forall>(n, v) \<in> set (zip native_gprs (cpu_gprs c')). get_bits 0 64 (V (reg X n)) = v) \<and>
     get_bits 0 64 pc = npc \<and> ws = reports X E d wb (cpu_rflags c') V pc)"

lemma zip_get_gprs:
  "get_gprs X g = vs \<Longrightarrow> \<forall>(n, v) \<in> set (zip native_gprs vs). get_bits 0 64 (gRegs g (reg X n)) = v"
  unfolding get_gprs_def by (auto simp: zip_map2 in_set_conv_nth)

lemma compute_operate:
  assumes "xed_ok X" and "addr_size E = 64" and "reg X XED_REG_RIP < reg X XED_REG_LAST"
    and "\<not> has_avx E" and "\<not> has_avx512 E" and "native_regs_ok X" and "returns_gprs H"
    and "native_form (get_iform_enum (gXedd g))" and "register_operands X (gXedd g)"
    and "\<not> gUsesFPU g" and "\<not> gUsesMMX g"
    and "\<forall>r \<in> gUsedRegs g. get_largest_enclosing_register X r = r" and "reg X XED_REG_RIP \<in> gUsedRegs g"
    and "gWriteBackFlags g \<noteq> 0 \<longrightarrow> flags_reg_of X E \<in> gModifiedRegs g"
    and "\<And>r. r \<noteq> flags_reg_of X E \<Longrightarrow> r \<in> gModifiedRegs g \<longleftrightarrow> r = reg X XED_REG_RIP \<or> r \<in> written_names X E (gXedd g)"
    and "\<forall>r \<in> written_names X E (gXedd g). r \<in> gUsedRegs g \<and> get_register_width_bits64 X r = 64"
    and "gStackPtrAlias g = reg X XED_REG_INVALID"
    and "operate X H (logged E) npc (g, s, log) = Some (kGood, g', s', log')"
  shows "\<exists>bs c ws. xed_encode X (gEmu (CreateEncodableInstruction X (clear_present g))) = Some bs \<and>
    cpu_gprs c = get_gprs X g \<and> cpu_rflags c = aflag X g \<and> log' = log @ ws \<and>
    ran X H E (gXedd g) (gWriteBackFlags g) bs c npc ws"
proof -
  let ?g = "clear_present g"
  have k: "gXedd ?g = gXedd g" "\<not> gUsesFPU ?g" "\<not> present (gMemory ?g 0)" "\<not> present (gMemory ?g 1)"
    "get_gprs X ?g = get_gprs X g" "aflag X ?g = aflag X g" "same_cache g ?g"
    using assms(10) by (simp_all add: clear_present_def get_gprs_def aflag_def same_cache_def)
  obtain w1 w2 npc' g2 where w: "fpu_read (logged E) (g, s, log) = (True, w1)"
    "ReadMemory X (logged E) ((if gUsesMMX (fst w1) then CopyMMXStateToFPU X (logged E) (fst w1) else fst w1), snd w1) = (True, w2)"
    "perform X H (logged E) npc (fst w2) = Some (kGood, npc', g2)"
    "commit X (logged E) npc' (g2, snd w2) = Some (kGood, g', s', log')"
    by (rule operate_good [OF assms(18)])
  have "w1 = (g, s, log)" using w(1) assms(10) by (simp add: fpu_read_def)
  moreover have "\<forall>xedo \<in> set (get_operands (gXedd (fst (g, s, log)))). mem_slot (operand_name xedo) = None"
    using assms(9) by (simp add: register_operands_def)
  ultimately have w2: "w2 = (?g, s, log)" using w(2) assms(11) ReadMemory_none [of "(g, s, log)" X "logged E"] by simp
  obtain g1 where p: "EncodeInstruction X H ?g = Some (True, g1)" "run_encoded X H (logged E) g1 = Some g2"
    "gSignal g2 = None" "npc' = npc"
    by (rule perform_native [of ?g "logged E" X H npc npc' g2]) (use w(3) w2 assms(2,8) k(1) in simp_all)
  obtain bs where e: "xed_encode X (gEmu (CreateEncodableInstruction X ?g)) = Some bs"
    "gExecArea g1 = overwrite bs (overwrite (replicate 32 0xC3) (gExecArea ?g))" "same_cache ?g g1"
    "\<not> present (gMemory g1 0)" "\<not> present (gMemory g1 1)"
    by (rule EncodeInstruction_cache [OF p(1) _ k(3,4)]) (use assms(9) k(1) in simp_all)
  have c1: "\<not> gUsesFPU g1" "get_gprs X g1 = get_gprs X g" "aflag X g1 = aflag X g"
    using e(3) k by (simp_all add: same_cache_def get_gprs_def aflag_def)
  obtain c c' where r: "run_native H (gExecArea g1) c = Returned c'" "cpu_gprs c = get_gprs X g1"
    "cpu_rflags c = aflag X g1" "exchanged g2 g1" "get_gprs X g2 = cpu_gprs c'" "aflag X g2 = cpu_rflags c'"
    by (rule run_encoded_good [OF p(2,3) c1(1) _ _ assms(6,7)]) (use assms(4,5) in simp_all)
  have g2: "\<not> present (gMemory g2 0)" "\<not> present (gMemory g2 1)" "gUsedRegs g2 = gUsedRegs g" "gXedd g2 = gXedd g"
    "gModifiedRegs g2 = gModifiedRegs g" "gStackPtrAlias g2 = gStackPtrAlias g" "gWriteBackFlags g2 = gWriteBackFlags g"
    "\<not> gUsesFPU g2" "\<not> gUsesMMX g2"
    using r(4) e(3-5) k(7) assms(10,11) by (simp_all add: exchanged_def same_cache_def)
  have cm: "commit X (logged E) npc (g2, s, log) = Some (kGood, g', s', log')" using w(4) w2 p(4) by simp
  obtain w3 w4 where m: "WriteMemory (logged E) (g2, s, log) = (True, w3)" "fpu_write (logged E) w3 = (True, w4)"
    "report_back X (logged E) npc ((if gUsesMMX (fst w4) then CopyMMXStateFromFPU X (logged E) (fst w4) else fst w4), snd w4)
      = Some (kGood, g', s', log')"
    by (rule commit_good [OF cm])
  have "w3 = (g2, s, log)" using m(1) g2(1,2) by (simp add: WriteMemory_def WriteSlot_def)
  moreover from this have "w4 = w3" using m(2) g2(8) by (simp add: fpu_write_def)
  ultimately have rb: "report_back X (logged E) npc (g2, s, log) = Some (kGood, g', s', log')" using m(3) g2(9) by simp
  have "\<exists>pc. log' = log @ reports X E (gXedd g) (gWriteBackFlags g2) (aflag X g2) (gRegs g2) pc \<and> get_bits 0 64 pc = npc"
  proof (rule report_back_written [OF assms(1-3) _ _ _ _ _ _ rb])
    fix r assume "r \<noteq> flags_reg_of X E"
    then show "r \<in> gModifiedRegs g2 \<longleftrightarrow> r = reg X XED_REG_RIP \<or> r \<in> written_names X E (gXedd g)"
      unfolding g2(5) by (rule assms(15))
  qed (use assms(12-14,16,17) g2(3-7) in simp_all)
  then obtain pc where pc: "log' = log @ reports X E (gXedd g) (gWriteBackFlags g2) (aflag X g2) (gRegs g2) pc"
    "get_bits 0 64 pc = npc" by blast
  have "ran X H E (gXedd g) (gWriteBackFlags g) bs c npc (reports X E (gXedd g) (gWriteBackFlags g) (cpu_rflags c') (gRegs g2) pc)"
    unfolding ran_def
    by (intro exI conjI) (rule r(1) [unfolded e(2)], rule zip_get_gprs [OF r(5)], rule pc(2), rule refl)
  then have "ran X H E (gXedd g) (gWriteBackFlags g) bs c npc
      (reports X E (gXedd g) (gWriteBackFlags g2) (aflag X g2) (gRegs g2) pc)"
    by (simp add: g2(7) r(6))
  with e(1) r(2,3) c1(2,3) pc(1) show ?thesis by (intro exI conjI) simp_all
qed

section \<open>From the call to the reports\<close>

definition written_flags :: "xed_decoded_inst \<Rightarrow> u64" where
  "written_flags d = (case get_rflags_info d of None \<Rightarrow> 0 | Some rf \<Rightarrow> ucast (ucast (flag_written rf) :: u16))"

text \<open>The flags the instruction reads are the executor's.\<close>

definition flags_served :: "(string \<Rightarrow> bool) \<Rightarrow> xed_decoded_inst \<Rightarrow> u64 \<Rightarrow> bool" where
  "flags_served ans d af \<longleftrightarrow> (\<forall>rf. get_rflags_info d = Some rf \<longrightarrow>
     (\<forall>(nm, i) \<in> set rflags_bits. depends_on_flag rf i \<longrightarrow> bit af i = ans nm))"

text \<open>The globals once the flags have been obtained.\<close>

definition flags_obtained :: "xed \<Rightarrow> 's executor \<Rightarrow> xed_decoded_inst \<Rightarrow> gstate \<Rightarrow> gstate \<Rightarrow> bool" where
  "flags_obtained X E d g h \<longleftrightarrow> gXedd h = gXedd g \<and> gEmu h = gEmu g \<and> gStackPtrAlias h = gStackPtrAlias g \<and>
     gUsesFPU h = gUsesFPU g \<and> gUsesMMX h = gUsesMMX g \<and> gWriteBackFlags h = written_flags d \<and>
     gRegs h (reg X XED_REG_RIP) = gRegs g (reg X XED_REG_RIP) \<and>
     gUsedRegs h = (if get_rflags_info d = None then gUsedRegs g else insert (flags_reg_of X E) (gUsedRegs g)) \<and>
     gModifiedRegs h = (if written_flags d = 0 then gModifiedRegs g else insert (flags_reg_of X E) (gModifiedRegs g))"

lemma ReadFlags_obtained:
  assumes "xed_ok X" and "serves_flags E ans" and "gXedd g = d" and "ReadFlags X H (logged E) (g, s, log) = (True, w)"
  obtains h t where "w = (h, t, log)" and "flags_obtained X E d g h" and "flags_served ans d (aflag X h)"
proof -
  obtain h t where w: "w = (h, t, log)"
    using logged.ReadFlags_looks [of "(g, s, log)" X H E] assms(4) by (cases w) (auto simp: looks_def)
  show thesis
  proof (cases "get_rflags_info d")
    case None
    then have "h = g\<lparr>gWriteBackFlags := 0\<rparr>" using assms(3,4) w by (simp add: ReadFlags_def)
    then show thesis using that [OF w] None by (simp add: flags_obtained_def flags_served_def written_flags_def)
  next
    case (Some rf)
    then have i: "get_rflags_info (gXedd (fst (g, s, log))) = Some rf" using assms(3) by simp
    let ?g = "\<lambda>g. g\<lparr>gWriteBackFlags := written_flags d, gUsedRegs := insert (flags_reg_of X E) (gUsedRegs g),
      gModifiedRegs := (if written_flags d \<noteq> 0 then insert (flags_reg_of X E) (gModifiedRegs g) else gModifiedRegs g)\<rparr>"
    obtain af s' where F: "w = (set_aflag X af ((fst (g, s, log))\<lparr>
        gWriteBackFlags := ucast (ucast (flag_written rf) :: u16),
        gUsedRegs := insert (WidestRegister X (logged E) (reg X XED_REG_EFLAGS)) (gUsedRegs (fst (g, s, log))),
        gModifiedRegs := (if ucast (ucast (flag_written rf) :: u16) \<noteq> (0 :: u64)
          then insert (WidestRegister X (logged E) (reg X XED_REG_EFLAGS)) (gModifiedRegs (fst (g, s, log)))
          else gModifiedRegs (fst (g, s, log)))\<rparr>), s')"
      and af: "\<forall>fn \<in> set flag_regs. flag (fst fn) af = flag_answer ans (flags_to_read rf) (pushfq H (fst (g, s, log))) fn"
      by (rule ReadFlags_served [OF i serves_flags_logged [OF assms(2)] assms(4)])
    have h: "h = set_aflag X af (?g g)"
      using F assms(4) w by (simp add: Some written_flags_def flags_reg_of_def)
    have "flags_obtained X E d g h" unfolding h
      using RFLAGS_slot [OF assms(1)] Some by (simp add: flags_obtained_def set_aflag_def)
    moreover have "aflag X h = af" by (simp add: h rflags.rd_wr)
    then have "flags_served ans d (aflag X h)"
      using af Some unfolding flag_answers_places by (auto simp: flags_served_def)
    ultimately show thesis using that [OF w] by blast
  qed
qed

text \<open>The operands that are registers, under the names by which they are cached.\<close>

definition operand_names :: "xed \<Rightarrow> 's executor \<Rightarrow> xed_decoded_inst \<Rightarrow> xed_reg set" where
  "operand_names X E d = (\<Union>xedo \<in> set (get_operands d).
     if is_reg_operand (operand_name xedo) \<and> get_reg d (operand_name xedo) \<noteq> 0
     then {cache_name X E (get_reg d (operand_name xedo))} else {})"

lemma register_operands_facts:
  assumes "xed_ok X" and "addr_size E = 64" and "register_operands X d" and "gathered_regs X d"
  shows "no_pseudo_base X d" and "written_names X E d \<subseteq> operand_names X E d"
    and "\<forall>r \<in> written_names X E d. get_register_width_bits64 X r = 64"
proof -
  have "mem_indices (get_operands d) 0 = []"
    using assms(3) by (intro mem_indices_none) (simp add: register_operands_def)
  then show "no_pseudo_base X d" using assms(3) by (simp add: no_pseudo_base_def register_operands_def)
  show "written_names X E d \<subseteq> operand_names X E d"
    by (force simp: written_names_def marked_names_def operand_names_def Let_def)
  show "\<forall>r \<in> written_names X E d. get_register_width_bits64 X r = 64"
  proof
    fix r assume "r \<in> written_names X E d"
    then obtain xedo where x: "xedo \<in> set (get_operands d)" "is_reg_operand (operand_name xedo)"
      "get_reg d (operand_name xedo) \<noteq> 0" "\<not> not_cached X (get_reg d (operand_name xedo))"
      "r = cache_name X E (get_reg d (operand_name xedo))"
      by (auto simp: written_names_def marked_names_def Let_def split: if_splits)
    then have p: "plain_reg X (get_reg d (operand_name xedo))" "\<not> is_stack_pseudo X (get_reg d (operand_name xedo))"
      using assms(3,4) by (auto simp: gathered_regs_def gathered_reg_def register_operands_def not_cached_def)
    then show "get_register_width_bits64 X r = 64"
      using x(5) WidestRegister_plain [OF assms(2) p(1)] by (simp add: cache_name_def plain_reg_def Let_def)
  qed
qed

lemma operand_names_used:
  assumes "xed_ok X" and "gathered_regs X d" and "ReadRegisters X E w = (True, w')" and "gXedd (fst w) = d"
  shows "operand_names X E d \<subseteq> gUsedRegs (fst w')"
proof
  fix r assume "r \<in> operand_names X E d"
  then obtain xedo where x: "xedo \<in> set (get_operands d)" "is_reg_operand (operand_name xedo)"
    "get_reg d (operand_name xedo) \<noteq> 0" "r = cache_name X E (get_reg d (operand_name xedo))"
    by (auto simp: operand_names_def split: if_splits)
  have "\<not> not_cached X (get_reg d (operand_name xedo))"
    using assms(1,2) x(1-3) by (auto simp: gathered_regs_def gathered_reg_def not_cached_def xed_ok_def)
  from ReadRegisters_uses_operand [OF assms(3,4) x(1-3) this] show "r \<in> gUsedRegs (fst w')" by (simp add: x(4))
qed

text \<open>The globals when the instruction is about to run.\<close>

definition prepared :: "xed \<Rightarrow> 's executor \<Rightarrow> (string \<Rightarrow> u64) \<Rightarrow> (string \<Rightarrow> bool) \<Rightarrow> xed_decoded_inst \<Rightarrow> gstate \<Rightarrow> bool" where
  "prepared X E val ans d g \<longleftrightarrow> coherent X val g \<and> gXedd g = d \<and> gEmu g = fresh_request d \<and>
     \<not> gUsesFPU g \<and> \<not> gUsesMMX g \<and> gStackPtrAlias g = reg X XED_REG_INVALID \<and>
     gWriteBackFlags g = written_flags d \<and> reg X XED_REG_RIP \<in> gUsedRegs g \<and>
     operand_names X E d \<subseteq> gUsedRegs g \<and> flags_served ans d (aflag X g) \<and>
     gModifiedRegs g = {reg X XED_REG_RIP} \<union> written_names X E d \<union>
       (if written_flags d = 0 then {} else {flags_reg_of X E})"

lemma ReadRegisters_prepared:
  assumes "xed_ok X" and "addr_size E = 64" and "serves E val"
    and "register_operands X d" and "gathered_regs X d"
    and "gXedd g = d" and "gEmu g = fresh_request d" and "gUsedRegs g = {reg X XED_REG_RIP}"
    and "gModifiedRegs g = {reg X XED_REG_RIP}" and "gStackPtrAlias g = reg X XED_REG_INVALID"
    and "get_bits 0 64 (gRegs g (reg X XED_REG_RIP)) = val (reg_enum_t2str X (reg X XED_REG_RIP))"
    and "\<not> gUsesFPU g" and "\<not> gUsesMMX g"
    and "flags_obtained X E d g h" and "flags_served ans d (aflag X h)"
    and "ReadRegisters X E (h, s) = (True, k, t)"
  shows "prepared X E val ans d k"
proof -
  note fl = assms(14) [unfolded flags_obtained_def]
  note fr = flags_reg_64 [OF assms(1,2)]
  note e = gpr_pairD(2) [OF xed_ok_pairs(1) [OF assms(1)]] gpr_pairD(2) [OF xed_ok_pairs(7) [OF assms(1)]]
  have c: "gathering X val d (h, s)"
    using fl assms(6,8,11-13) e fr by (auto simp: gathering_def coherent_def)
  have G: "gathering X val d (k, t)"
    by (rule ReadRegisters_gathering [OF assms(2,5,3) c assms(16)])
  have d: "gXedd (fst (h, s)) = d" using fl assms(6) by simp
  have m: "gModifiedRegs k = gModifiedRegs h \<union> written_names X E d"
    using ReadRegisters_modified [OF assms(16) d register_operands_facts(1) [OF assms(1,2,4,5)]] by simp
  have same: "gEmu k = gEmu h" "gStackPtrAlias k = gStackPtrAlias h" "gWriteBackFlags k = gWriteBackFlags h"
    using ReadRegisters_same [of "(h, s)" X E] assms(16) by (simp_all add: same_inst_def)
  have u: "gUsedRegs h \<subseteq> gUsedRegs k"
    using ReadRegisters_uses [of "(h, s)" X E] assms(16) by (simp add: uses_more_def)
  have f: "flags_served ans d (aflag X k)"
  proof (cases "get_rflags_info d")
    case None
    then show ?thesis by (simp add: flags_served_def)
  next
    case (Some rf)
    then have "flags_cached X d (aflag X h) (h, s)" using d fl fr by (simp add: flags_cached_def)
    from ReadRegisters_flags_cached [OF assms(2,5) this assms(16)] assms(15) show ?thesis
      by (simp add: flags_cached_def)
  qed
  have "written_flags d = 0" if "get_rflags_info d = None" using that by (simp add: written_flags_def)
  show ?thesis
    unfolding prepared_def
  proof (intro conjI)
    show "coherent X val k" "gXedd k = d" "\<not> gUsesFPU k" "\<not> gUsesMMX k" using G by (simp_all add: gathering_def)
    show "gEmu k = fresh_request d" "gStackPtrAlias k = reg X XED_REG_INVALID" "gWriteBackFlags k = written_flags d"
      using same fl assms(7,10) by simp_all
    show "reg X XED_REG_RIP \<in> gUsedRegs k" using u fl assms(8) by (auto split: if_splits)
    show "operand_names X E d \<subseteq> gUsedRegs k" using operand_names_used [OF assms(1,5,16) d] by simp
    show "flags_served ans d (aflag X k)" by (rule f)
    show "gModifiedRegs k = {reg X XED_REG_RIP} \<union> written_names X E d \<union>
        (if written_flags d = 0 then {} else {flags_reg_of X E})"
      using m fl assms(9) by auto
  qed
qed

text \<open>An instruction the processor runs on registers.\<close>

definition computes :: "xed \<Rightarrow> xed_decoded_inst \<Rightarrow> bool" where
  "computes X d \<longleftrightarrow> native_form (get_iform_enum d) \<and>
     get_category d \<notin> {XED_CATEGORY_NOP, XED_CATEGORY_WIDENOP} \<and> register_operands X d \<and> gathered_regs X d"

text \<open>The registers and flags the processor is given: those of its operands and the flags it
  reads are what the executor serves.\<close>

definition given :: "xed \<Rightarrow> 's executor \<Rightarrow> (string \<Rightarrow> u64) \<Rightarrow> (string \<Rightarrow> bool) \<Rightarrow> xed_decoded_inst \<Rightarrow> cpu \<Rightarrow> bool" where
  "given X E val ans d c \<longleftrightarrow> length (cpu_gprs c) = 15 \<and> flags_served ans d (cpu_rflags c) \<and>
     (\<forall>(n, v) \<in> set (zip native_gprs (cpu_gprs c)).
        reg X n \<in> operand_names X E d \<longrightarrow> v = val (reg_enum_t2str X (reg X n)))"

lemma given_gpr:
  "given X E val ans d c \<Longrightarrow> (n, v) \<in> set (zip native_gprs (cpu_gprs c)) \<Longrightarrow> reg X n \<in> operand_names X E d \<Longrightarrow>
   v = val (reg_enum_t2str X (reg X n))"
  by (auto simp: given_def)

lemma prepared_given:
  assumes "prepared X E val ans d g" and "native_regs_ok X" and "cpu_gprs c = get_gprs X g" and "cpu_rflags c = aflag X g"
  shows "given X E val ans d c"
proof -
  have "v = val (reg_enum_t2str X (reg X n))"
    if z: "(n, v) \<in> set (zip native_gprs (cpu_gprs c))" and o: "reg X n \<in> operand_names X E d" for n v
  proof -
    have "n \<in> set native_gprs" using z by (rule set_zip_leftD)
    moreover have "reg X XED_REG_RFLAGS \<notin> reg X ` set native_gprs" using assms(2) by (simp add: native_regs_ok_def)
    ultimately have "reg X n \<noteq> reg X XED_REG_RFLAGS" by (metis imageI)
    moreover have "reg X n \<in> gUsedRegs g" using assms(1) o unfolding prepared_def by blast
    ultimately have "get_bits 0 64 (gRegs g (reg X n)) = val (reg_enum_t2str X (reg X n))"
      using assms(1) by (simp add: prepared_def coherent_def)
    then show ?thesis using zip_get_gprs [of X g "cpu_gprs c"] assms(3) z by auto
  qed
  then show ?thesis using assms(1,3,4) by (auto simp: given_def prepared_def length_get_gprs)
qed

lemma compute_writes:
  assumes "xed_ok X" and "pc_plain X" and "native_regs_ok X" and "returns_gprs H"
    and "addr_size E = 64" and "\<not> has_avx E" and "\<not> has_avx512 E" and "serves E val" and "serves_flags E ans"
    and "code_at X E (val (reg_enum_t2str X (reg X XED_REG_RIP))) d" and "computes X d"
    and "Execute X H (logged E) 1 (g, s, log) = Some (kGood, g', s', log')"
  shows "\<exists>g0 bs c ws. gXedd g0 = d \<and> gEmu g0 = fresh_request d \<and>
    xed_encode X (gEmu (CreateEncodableInstruction X g0)) = Some bs \<and> given X E val ans d c \<and>
    ran X H E d (written_flags d) bs c (val (reg_enum_t2str X (reg X XED_REG_RIP)) + of_nat (get_length d)) ws \<and>
    log' = log @ ws"
proof -
  let ?E = "logged E" and ?pc = "reg X XED_REG_RIP"
  have ok: "addr_ok E" "addr_ok ?E" "addr_size ?E = 64" using assms(5) by (simp_all add: addr_ok_def)
  note cd = assms(11) [unfolded computes_def]
  have one: "ExecuteOne X H ?E (g, s, log) = Some (kGood, g', s', log')"
    using assms(12) by (auto simp: Execute_def split: option.splits if_splits)
  note pc = pc_reg_64 [OF assms(1,5)]
  obtain g3 s3 where dd: "decoded X H ?E (g3, s3, log) = Some (kGood, g', s', log')"
    and g3: "gXedd g3 = d" "gUsedRegs g3 = {?pc}" "gModifiedRegs g3 = {?pc}"
    "get_bits 0 64 (gRegs g3 ?pc) = val (reg_enum_t2str X ?pc)" "gStackPtrAlias g3 = reg X XED_REG_INVALID"
    "\<not> gUsesFPU g3" "\<not> gUsesMMX g3" "gEmu g3 = fresh_request d"
    by (rule ExecuteOne_decoded [OF assms(1) ok(1) assms(2) stands_at_serves [OF assms(5,8), of X, unfolded pc] assms(10) one,
          unfolded pc assms(5)])
  obtain u1 u2 where u: "ReadFlags X H ?E (g3, s3, log) = (True, u1)" "ReadRegisters X ?E u1 = (True, u2)"
    "(if is_nop (fst u2) then report_back X ?E (GetNextPC X ?E (fst u2)) u2
      else operate X H ?E (GetNextPC X ?E (fst u2)) u2) = Some (kGood, g', s', log')"
    by (rule decoded_good [OF dd])
  obtain h t where h: "u1 = (h, t, log)" "flags_obtained X E d g3 h" "flags_served ans d (aflag X h)"
    by (rule ReadFlags_obtained [OF assms(1,9) g3(1) u(1)])
  obtain g5 s5 where R: "ReadRegisters X ?E (h, t, log) = (True, g5, s5, log)" and u2: "u2 = (g5, s5, log)"
    using u(2) h(1) logged.ReadRegisters_looks [of "(h, t, log)" X E] by (cases u2) (auto simp: looks_def)
  have same: "operand_names X ?E d = operand_names X E d" "written_names X ?E d = written_names X E d"
    by (simp_all add: operand_names_def written_names_logged cache_name_def)
  have "flags_obtained X ?E d g3 h" using h(2) by (simp add: flags_obtained_def)
  then have "prepared X ?E val ans d g5"
    using cd by (intro ReadRegisters_prepared [OF assms(1) ok(3) serves_logged [OF assms(8)] _ _ g3(1,8,2,3,5,4,6,7) _ h(3) R]) simp_all
  then have P: "prepared X E val ans d g5" by (simp add: prepared_def same)
  note p = P [unfolded prepared_def]
  have "get_bits 0 64 (gRegs g5 ?pc) = val (reg_enum_t2str X ?pc)"
    using p RFLAGS_slot [OF assms(1)] by (simp add: coherent_def)
  then have npc: "GetNextPC X ?E g5 = val (reg_enum_t2str X ?pc) + of_nat (get_length d)"
    using ReadGPR_pc [OF assms(1) ok(2), of g5] p ok(3) assms(5) by (simp add: mask_pc_def)
  have "\<not> is_nop g5" using cd p by (simp add: is_nop_def)
  then have o: "operate X H ?E (val (reg_enum_t2str X ?pc) + of_nat (get_length d)) (g5, s5, log) = Some (kGood, g', s', log')"
    using u(3) u2 npc by simp
  have l: "?pc < reg X XED_REG_LAST" using assms(2) by (simp add: pc_plain_def)
  have d5: "gXedd g5 = d" using p by simp
  note W = register_operands_facts [OF assms(1,5)]
  have "\<exists>bs c ws. xed_encode X (gEmu (CreateEncodableInstruction X (clear_present g5))) = Some bs \<and>
    cpu_gprs c = get_gprs X g5 \<and> cpu_rflags c = aflag X g5 \<and> log' = log @ ws \<and>
    ran X H E (gXedd g5) (gWriteBackFlags g5) bs c (val (reg_enum_t2str X ?pc) + of_nat (get_length d)) ws"
  proof (rule compute_operate [OF assms(1,5) l assms(6,7,3,4) _ _ _ _ _ _ _ _ _ _ o])
    show "\<forall>r \<in> gUsedRegs g5. get_largest_enclosing_register X r = r" using p by (auto simp: coherent_def)
    show "\<forall>r \<in> written_names X E (gXedd g5). r \<in> gUsedRegs g5 \<and> get_register_width_bits64 X r = 64"
      using W(2,3) cd p by blast
    fix r assume "r \<noteq> flags_reg_of X E"
    then show "r \<in> gModifiedRegs g5 \<longleftrightarrow> r = ?pc \<or> r \<in> written_names X E (gXedd g5)" using p by auto
  qed (use cd p in auto)
  then obtain bs c ws where b: "xed_encode X (gEmu (CreateEncodableInstruction X (clear_present g5))) = Some bs"
    "cpu_gprs c = get_gprs X g5" "cpu_rflags c = aflag X g5" "log' = log @ ws"
    "ran X H E d (written_flags d) bs c (val (reg_enum_t2str X ?pc) + of_nat (get_length d)) ws"
    using p by auto
  have "given X E val ans d c" by (rule prepared_given [OF P assms(3) b(2,3)])
  moreover have "gXedd (clear_present g5) = d" "gEmu (clear_present g5) = fresh_request d"
    using p by (simp_all add: clear_present_def)
  ultimately show ?thesis using b(1,4,5) by blast
qed

text \<open>
  C9: end to end, for a 64-bit executor without AVX that serves the register values \<open>val\<close> and
  the flags \<open>ans\<close>: a successful execution of an instruction on registers that is not
  emulated runs on the processor a page that starts with an encoding of the instruction,
  followed by a return, on the served values of its operands and of the flags it reads; it
  then makes exactly these reports: the flags the instruction writes and the registers it
  writes, with what the processor has left in them, and the program counter, moved past the
  instruction.
\<close>

theorem compute_reports:
  assumes "xed_ok X" and "pc_plain X" and "native_regs_ok X" and "returns_gprs H"
    and "addr_size E = 64" and "\<not> has_avx E" and "\<not> has_avx512 E" and "serves E val" and "serves_flags E ans"
    and "code_at X E (val (reg_enum_t2str X (reg X XED_REG_RIP))) d" and "computes X d"
    and "Execute X H (logged E) 1 (g, s, log) = Some (kGood, g', s', log')"
  shows "\<exists>g0 bs c ws. gXedd g0 = d \<and> gEmu g0 = fresh_request d \<and>
    xed_encode X (gEmu (CreateEncodableInstruction X g0)) = Some bs \<and> given X E val ans d c \<and>
    ran X H E d (written_flags d) bs c (val (reg_enum_t2str X (reg X XED_REG_RIP)) + of_nat (get_length d)) ws \<and>
    log' = log @ ws"
  by (rule compute_writes [OF assms])

text \<open>ADD RCX, RAX at 0x401000 with RCX = 5 and RAX = 7, on a processor that adds and sets the
  carry flag.\<close>

definition add_inst :: xed_decoded_inst where
  "add_inst = sample_inst\<lparr>get_iform_enum := XED_IFORM_OTHER 1, get_length := 3,
     get_reg := (\<lambda>_. 0)(XED_OPERAND_REG0 := 12, XED_OPERAND_REG1 := 11, XED_OPERAND_REG2 := 6),
     get_rflags_info := Some \<lparr>flag_read = 0, flag_written = 0x41, flag_may_write = False\<rparr>,
     get_operands := [
       \<lparr>operand_name = XED_OPERAND_REG0, operand_visibility = XED_OPVIS_EXPLICIT, operand_read = True,
         operand_written = True, operand_conditional_write = False\<rparr>,
       \<lparr>operand_name = XED_OPERAND_REG1, operand_visibility = XED_OPVIS_EXPLICIT, operand_read = True,
         operand_written = False, operand_conditional_write = False\<rparr>,
       \<lparr>operand_name = XED_OPERAND_REG2, operand_visibility = XED_OPVIS_SUPPRESSED, operand_read = False,
         operand_written = True, operand_conditional_write = False\<rparr>]\<rparr>"

definition add_xed :: xed where
  "add_xed = sample_xed\<lparr>xed_decode := (\<lambda>st bs. (True, add_inst))\<rparr>"

definition add_host :: host where
  "add_host = sample_host\<lparr>run_native := (\<lambda>_ c. Returned (c\<lparr>
     cpu_gprs := (cpu_gprs c)[2 := cpu_gprs c ! 2 + cpu_gprs c ! 0], cpu_rflags := 1\<rparr>))\<rparr>"

definition add_values :: "string \<Rightarrow> u64" where
  "add_values nm = (if nm = ''RIP'' then 0x401000 else if nm = ''RCX'' then 5 else if nm = ''RAX'' then 7 else 0)"

definition add_executor :: "unit executor" where
  "add_executor = push_executor\<lparr>ReadReg := (\<lambda>nm _ _ _ u. (True, ucast (add_values nm), u))\<rparr>"

lemma ucast_served: "(get_bits 0 64 (ucast (v :: u64) :: Data) :: u64) = v"
  by (rule bit_word_eqI) (auto simp: bit_simps)

lemma add_setting:
  "xed_ok add_xed" "pc_plain add_xed" "native_regs_ok add_xed" "returns_gprs add_host" "addr_size add_executor = 64"
  "\<not> has_avx add_executor" "\<not> has_avx512 add_executor" "serves add_executor add_values"
  "serves_flags add_executor (\<lambda>nm. bit (ucast (add_values nm) :: Data) 0)" "code_at add_xed add_executor pc add_inst"
  "computes add_xed add_inst"
proof -
  show "xed_ok add_xed" by (simp add: add_xed_def xed_ok_decode sample_xed_ok)
  show "pc_plain add_xed" by (simp add: add_xed_def pc_plain_def is_stack_pseudo_def sample_xed_simps)
  show "native_regs_ok add_xed" by code_simp
  show "returns_gprs add_host" by (auto simp: returns_gprs_def add_host_def)
  show "addr_size add_executor = 64" "\<not> has_avx add_executor" "\<not> has_avx512 add_executor"
    by (simp_all add: add_executor_def push_executor_def)
  show "serves add_executor add_values"
    by (auto simp: serves_def add_executor_def push_executor_def ucast_served)
  show "serves_flags add_executor (\<lambda>nm. bit (ucast (add_values nm) :: Data) 0)"
    by (simp add: serves_flags_def add_executor_def push_executor_def)
  show "code_at add_xed add_executor pc add_inst" by (rule code_at_everywhere) (simp add: add_xed_def)
  show "computes add_xed add_inst" by code_simp
qed

lemma add_succeeds:
  obtains g' log' where "Execute add_xed add_host (logged add_executor) 1 (sample_gstate, (), []) = Some (kGood, g', (), log')"
proof -
  let ?E = "logged add_executor"
  have "obliging ?E" by (simp add: obliging_def logged_def add_executor_def push_executor_def)
  moreover have "runs_natively add_xed add_host ?E add_inst"
    by (simp add: runs_natively_def memoryless_def add_inst_def always_encodes_def never_faults_def add_xed_def add_host_def
        sample_xed_def sample_host_def add_setting(6,7))
  then have "only_completing add_xed add_host ?E"
    by (simp add: only_completing_def add_xed_def completes_def)
      (simp add: add_inst_def UsesUnsupportedFeatures_def UsesUnsupportedAttributes_def sample_inst_def)
  moreover have "gIsInitialized (fst (sample_gstate, (), []))" by (simp add: sample_gstate_def)
  ultimately obtain w' where "Execute add_xed add_host ?E 1 (sample_gstate, (), []) = Some (kGood, w')"
    using Execute_succeeds add_setting(1) by blast
  then show thesis using that by (metis old.unit.exhaust prod_cases3)
qed

lemma add_gprs:
  assumes "length vs = 15"
  shows "(XED_REG_RCX, vs ! 2) \<in> set (zip native_gprs vs)" and "(XED_REG_RAX, vs ! 0) \<in> set (zip native_gprs vs)"
  using assms by (auto simp: set_zip native_gprs_def intro: exI [of _ 0] exI [of _ 2])

theorem compute_reports_witness:
  "xed_ok add_xed \<and> computes add_xed add_inst \<and> serves add_executor add_values \<and>
   (\<exists>g' s' v pc. Execute add_xed add_host (logged add_executor) 1 (sample_gstate, (), []) = Some (kGood, g', s',
      [WroteReg ''CF'' 1 1, WroteReg ''ZF'' 1 0, WroteReg ''RCX'' 64 v, WroteReg ''RIP'' 64 pc]) \<and>
      get_bits 0 64 v = (12 :: u64) \<and> get_bits 0 64 pc = (0x401003 :: u64))"
proof -
  obtain g' log' where r: "Execute add_xed add_host (logged add_executor) 1 (sample_gstate, (), []) = Some (kGood, g', (), log')"
    by (rule add_succeeds)
  obtain bs c ws where c: "given add_xed add_executor add_values (\<lambda>nm. bit (ucast (add_values nm) :: Data) 0) add_inst c"
    and ws: "ran add_xed add_host add_executor add_inst (written_flags add_inst) bs c
      (add_values (reg_enum_t2str add_xed (reg add_xed XED_REG_RIP)) + of_nat (get_length add_inst)) ws" "log' = ws"
    using compute_reports [OF add_setting r] by auto
  have o: "reg add_xed XED_REG_RCX \<in> operand_names add_xed add_executor add_inst"
    "reg add_xed XED_REG_RAX \<in> operand_names add_xed add_executor add_inst" by code_simp+
  have n: "reg_enum_t2str add_xed (reg add_xed XED_REG_RIP) = ''RIP''" "written_regs add_xed add_executor add_inst = [12]"
    "reg_enum_t2str add_xed 12 = ''RCX''" "flag_writes (written_flags add_inst) 1 = [WroteReg ''CF'' 1 1, WroteReg ''ZF'' 1 0]"
    "add_values (reg_enum_t2str add_xed (reg add_xed XED_REG_RIP)) + of_nat (get_length add_inst) = 0x401003"
    "reg add_xed XED_REG_RCX = 12" "add_values (reg_enum_t2str add_xed (reg add_xed XED_REG_RCX)) = 5"
    "add_values (reg_enum_t2str add_xed (reg add_xed XED_REG_RAX)) = 7"
    by code_simp+
  have l: "length (cpu_gprs c) = 15" using c by (simp add: given_def)
  have v: "cpu_gprs c ! 2 = 5" "cpu_gprs c ! 0 = 7"
    using given_gpr [OF c add_gprs(1) [OF l] o(1)] given_gpr [OF c add_gprs(2) [OF l] o(2)] unfolding n(7,8) .
  obtain page c' V pc where c': "run_native add_host (overwrite bs (overwrite (replicate 32 0xC3) page)) c = Returned c'"
    and V: "\<forall>(n, v) \<in> set (zip native_gprs (cpu_gprs c')). get_bits 0 64 (V (reg add_xed n)) = v"
    and pc: "get_bits 0 64 pc = (0x401003 :: u64)"
    and rs: "log' = reports add_xed add_executor add_inst (written_flags add_inst) (cpu_rflags c') V pc"
    using ws unfolding ran_def n(5) by blast
  have "cpu_gprs c' = (cpu_gprs c)[2 := 12]" "cpu_rflags c' = 1" using c' v by (auto simp: add_host_def)
  then have "get_bits 0 64 (V 12) = (12 :: u64)" "log' = [WroteReg ''CF'' 1 1, WroteReg ''ZF'' 1 0, WroteReg ''RCX'' 64 (V 12), WroteReg ''RIP'' 64 pc]"
    using V add_gprs(1) [of "cpu_gprs c'"] l rs by (auto simp: n(6) reports_def n(1-4))
  then show ?thesis using r pc add_setting(1,8,11) by blast
qed

end
