(* ===== verification/Locking.thy ===== *)
theory Locking
  imports Lifecycle
begin

text \<open>
  Threads that share the globals. Each has an executor of its own; \<open>Init\<close> and \<open>Execute\<close>
  hold \<open>gExecutorLock\<close> through a \<open>LockGuard\<close>, whose constructor locks and whose destructor
  unlocks on every return. The steps of a thread are those of the two functions, an
  iteration of the loop of \<open>Execute\<close> being one step, so that the scheduler may switch
  between any two; \<open>history\<close> records the calls that have returned.
\<close>

section \<open>Threads\<close>

datatype call = CallInit | CallExecute nat

datatype reply = ReplyInit bool | ReplyExecute ExecutorStatus

datatype activity =
    Outside
  | Locking call
  | Inside call
  | Looping nat nat
  | Leaving call reply

text \<open>\<open>Looping m n\<close> is the loop of \<open>Execute(m)\<close> with \<open>n\<close> iterations left.\<close>

record 's sys =
  gExecutorLock :: "nat option"
  globals :: gstate
  activity_of :: "nat \<Rightarrow> activity"
  state_of :: "nat \<Rightarrow> 's"
  history :: "(nat \<times> call \<times> reply) list"

definition goes :: "nat \<Rightarrow> activity \<Rightarrow> 's sys \<Rightarrow> 's sys" where
  "goes t a y = y\<lparr>activity_of := (activity_of y)(t := a)\<rparr>"

lemma goes_simps [simp]:
  "activity_of (goes t a y) u = (if u = t then a else activity_of y u)"
  "history (goes t a y) = history y" "gExecutorLock (goes t a y) = gExecutorLock y"
  "globals (goes t a y) = globals y" "state_of (goes t a y) = state_of y"
  by (simp_all add: goes_def)

inductive lock_step ::
  "xed \<Rightarrow> host \<Rightarrow> (nat \<Rightarrow> 's executor) \<Rightarrow> 's sys \<Rightarrow> 's sys \<Rightarrow> bool"
  for X :: xed and H :: host and E :: "nat \<Rightarrow> 's executor"
where
  call_nothing: "activity_of y t = Outside \<Longrightarrow>
    lock_step X H E y (y\<lparr>history := history y @ [(t, CallExecute 0, ReplyExecute kGood)]\<rparr>)"
| call: "activity_of y t = Outside \<Longrightarrow> c \<noteq> CallExecute 0 \<Longrightarrow> lock_step X H E y (goes t (Locking c) y)"
| acquire: "activity_of y t = Locking c \<Longrightarrow> gExecutorLock y = None \<Longrightarrow>
    lock_step X H E y ((goes t (Inside c) y)\<lparr>gExecutorLock := Some t\<rparr>)"
| init: "activity_of y t = Inside CallInit \<Longrightarrow> Init H (globals y) = (ok, g) \<Longrightarrow>
    lock_step X H E y ((goes t (Leaving CallInit (ReplyInit ok)) y)\<lparr>globals := g\<rparr>)"
| uninitialised: "activity_of y t = Inside (CallExecute n) \<Longrightarrow> \<not> gIsInitialized (globals y) \<Longrightarrow>
    lock_step X H E y (goes t (Leaving (CallExecute n) (ReplyExecute kErrorNotInitialized)) y)"
| enter_loop: "activity_of y t = Inside (CallExecute n) \<Longrightarrow> gIsInitialized (globals y) \<Longrightarrow>
    lock_step X H E y (goes t (Looping n n) y)"
| iterate: "activity_of y t = Looping m (Suc n) \<Longrightarrow>
    ExecuteOne X H (E t) (globals y, state_of y t) = Some (kGood, g, s) \<Longrightarrow>
    lock_step X H E y ((goes t (Looping m n) y)\<lparr>globals := g, state_of := (state_of y)(t := s)\<rparr>)"
| fail: "activity_of y t = Looping m (Suc n) \<Longrightarrow>
    ExecuteOne X H (E t) (globals y, state_of y t) = Some (st, g, s) \<Longrightarrow> st \<noteq> kGood \<Longrightarrow>
    lock_step X H E y ((goes t (Leaving (CallExecute m) (ReplyExecute st)) y)
      \<lparr>globals := g, state_of := (state_of y)(t := s)\<rparr>)"
| loop_end: "activity_of y t = Looping m 0 \<Longrightarrow>
    lock_step X H E y (goes t (Leaving (CallExecute m) (ReplyExecute kGood)) y)"
| release: "activity_of y t = Leaving c r \<Longrightarrow>
    lock_step X H E y ((goes t Outside y)\<lparr>gExecutorLock := None, history := history y @ [(t, c, r)]\<rparr>)"

inductive reachable_sys ::
  "xed \<Rightarrow> host \<Rightarrow> (nat \<Rightarrow> 's executor) \<Rightarrow> 's sys \<Rightarrow> 's sys \<Rightarrow> bool"
  for X :: xed and H :: host and E :: "nat \<Rightarrow> 's executor" and y0 :: "'s sys"
where
  start: "reachable_sys X H E y0 y0"
| step: "reachable_sys X H E y0 y \<Longrightarrow> lock_step X H E y y' \<Longrightarrow> reachable_sys X H E y0 y'"

text \<open>At the start nobody is inside and no call has returned.\<close>

definition start_sys :: "gstate \<Rightarrow> (nat \<Rightarrow> 's) \<Rightarrow> 's sys" where
  "start_sys g st = \<lparr>gExecutorLock = None, globals = g, activity_of = (\<lambda>_. Outside), state_of = st, history = []\<rparr>"

section \<open>The calls one after the other\<close>

definition do_call ::
  "xed \<Rightarrow> host \<Rightarrow> (nat \<Rightarrow> 's executor) \<Rightarrow> nat \<Rightarrow> call \<Rightarrow> gstate \<times> (nat \<Rightarrow> 's) \<Rightarrow>
   (reply \<times> gstate \<times> (nat \<Rightarrow> 's)) option" where
  "do_call X H E t c v =
     (case v of (g, st) \<Rightarrow>
        (case c of
           CallInit \<Rightarrow> (case Init H g of (ok, g') \<Rightarrow> Some (ReplyInit ok, g', st))
         | CallExecute n \<Rightarrow>
             (case Execute X H (E t) n (g, st t) of
                None \<Rightarrow> None
              | Some (r, g', s) \<Rightarrow> Some (ReplyExecute r, g', st(t := s)))))"

text \<open>A sequence of calls with the replies it gives.\<close>

fun run_calls ::
  "xed \<Rightarrow> host \<Rightarrow> (nat \<Rightarrow> 's executor) \<Rightarrow> (nat \<times> call \<times> reply) list \<Rightarrow> gstate \<times> (nat \<Rightarrow> 's) \<Rightarrow>
   (gstate \<times> (nat \<Rightarrow> 's)) option" where
  "run_calls X H E [] v = Some v"
| "run_calls X H E ((t, c, r) # cs) v =
     (case do_call X H E t c v of
        None \<Rightarrow> None
      | Some (r', v') \<Rightarrow> if r = r' then run_calls X H E cs v' else None)"

lemma run_calls_snoc:
  assumes "run_calls X H E cs v = Some v1" and "do_call X H E t c v1 = Some (r, v2)"
  shows "run_calls X H E (cs @ [(t, c, r)]) v = Some v2"
  using assms by (induction cs arbitrary: v) (auto split: option.splits prod.splits if_splits)

section \<open>The invariant\<close>

fun holds :: "activity \<Rightarrow> bool" where
  "holds Outside = False"
| "holds (Locking c) = False"
| "holds (Inside c) = True"
| "holds (Looping m n) = True"
| "holds (Leaving c r) = True"

text \<open>What the present state owes to the state \<open>v\<close> before the call in progress.\<close>

fun progress ::
  "xed \<Rightarrow> host \<Rightarrow> (nat \<Rightarrow> 's executor) \<Rightarrow> nat \<Rightarrow> activity \<Rightarrow> gstate \<times> (nat \<Rightarrow> 's) \<Rightarrow>
   gstate \<times> (nat \<Rightarrow> 's) \<Rightarrow> bool" where
  "progress X H E t (Inside c) v v' = (v' = v \<and> c \<noteq> CallExecute 0)"
| "progress X H E t (Looping m n) v v' =
     (0 < m \<and> gIsInitialized (fst v) \<and> (\<forall>u. u \<noteq> t \<longrightarrow> snd v' u = snd v u) \<and>
      execute_loop X H (E t) m (fst v, snd v t) = execute_loop X H (E t) n (fst v', snd v' t))"
| "progress X H E t (Leaving c r) v v' = (do_call X H E t c v = Some (r, v'))"
| "progress X H E t a v v' = False"

definition lock_inv ::
  "xed \<Rightarrow> host \<Rightarrow> (nat \<Rightarrow> 's executor) \<Rightarrow> gstate \<times> (nat \<Rightarrow> 's) \<Rightarrow> 's sys \<Rightarrow> bool" where
  "lock_inv X H E v0 y \<longleftrightarrow>
     (\<forall>t. holds (activity_of y t) = (gExecutorLock y = Some t)) \<and>
     (\<forall>t c. activity_of y t = Locking c \<longrightarrow> c \<noteq> CallExecute 0) \<and>
     (\<exists>v. run_calls X H E (history y) v0 = Some v \<and>
        (case gExecutorLock y of
           None \<Rightarrow> v = (globals y, state_of y)
         | Some t \<Rightarrow> progress X H E t (activity_of y t) v (globals y, state_of y)))"

lemma do_nothing: "do_call X H E t (CallExecute 0) v = Some (ReplyExecute kGood, v)"
  by (cases v) (simp add: do_call_def Execute_def)

lemma do_execute:
  assumes "0 < m" and "gIsInitialized (fst v)"
    and "execute_loop X H (E t) m (fst v, snd v t) = Some (st, fst v', snd v' t)"
    and "\<forall>u. u \<noteq> t \<longrightarrow> snd v' u = snd v u"
  shows "do_call X H E t (CallExecute m) v = Some (ReplyExecute st, v')"
proof -
  have "(snd v)(t := snd v' t) = snd v'" using assms(4) by auto
  then show ?thesis using assms(1-3) by (cases v; cases v') (auto simp: do_call_def Execute_def)
qed

text \<open>What the invariant says of a thread that holds the lock, and how it is kept by a step of
  that thread that does not release it.\<close>

lemma lock_inv_holder:
  assumes "lock_inv X H E v0 y" and "holds (activity_of y t)"
  obtains v where "gExecutorLock y = Some t" and "run_calls X H E (history y) v0 = Some v"
    and "progress X H E t (activity_of y t) v (globals y, state_of y)"
  using assms unfolding lock_inv_def by auto

lemma lock_inv_inside:
  assumes "lock_inv X H E v0 y" and "gExecutorLock y = Some t" and "holds a"
    and "run_calls X H E (history y) v0 = Some v" and "progress X H E t a v (g, st)"
  shows "lock_inv X H E v0 ((goes t a y)\<lparr>globals := g, state_of := st\<rparr>)"
  using assms unfolding lock_inv_def by (auto simp: goes_def)

text \<open>A step inside the lock, for the holder's next activity \<open>a\<close>.\<close>

lemma lock_inv_goes:
  assumes "lock_inv X H E v0 y" and "holds (activity_of y t)" and "holds a"
    and "\<And>v. progress X H E t (activity_of y t) v (globals y, state_of y) \<Longrightarrow> progress X H E t a v (g, st)"
  shows "lock_inv X H E v0 ((goes t a y)\<lparr>globals := g, state_of := st\<rparr>)"
proof -
  obtain v where "gExecutorLock y = Some t" "run_calls X H E (history y) v0 = Some v"
    "progress X H E t (activity_of y t) v (globals y, state_of y)"
    by (rule lock_inv_holder [OF assms(1,2)])
  then show ?thesis using lock_inv_inside [OF assms(1) _ assms(3)] assms(4) by blast
qed

lemma goes_globals [simp]:
  "(goes t a y)\<lparr>globals := globals y, state_of := state_of y\<rparr> = goes t a y"
  "(goes t a y)\<lparr>globals := g, state_of := state_of y\<rparr> = (goes t a y)\<lparr>globals := g\<rparr>"
  by (simp_all add: goes_def)

lemma lock_step_inv:
  assumes "lock_step X H E y y'" and "lock_inv X H E v0 y"
  shows "lock_inv X H E v0 y'"
  using assms
proof (induction rule: lock_step.induct)
  case (call_nothing y t)
  then obtain v where v: "run_calls X H E (history y) v0 = Some v" unfolding lock_inv_def by blast
  have "run_calls X H E (history y @ [(t, CallExecute 0, ReplyExecute kGood)]) v0 = Some v"
    by (rule run_calls_snoc [OF v do_nothing])
  with call_nothing v show ?case unfolding lock_inv_def by (cases "gExecutorLock y") simp_all
next
  case (call y t c)
  then have "gExecutorLock y \<noteq> Some t" unfolding lock_inv_def by (metis holds.simps(1))
  with call show ?case
    unfolding lock_inv_def by (cases "gExecutorLock y") (auto simp: goes_def)
next
  case (acquire y t c)
  then show ?case unfolding lock_inv_def by (auto simp: goes_def)
next
  case (init y t ok g)
  then have "lock_inv X H E v0 ((goes t (Leaving CallInit (ReplyInit ok)) y)\<lparr>globals := g, state_of := state_of y\<rparr>)"
    by (intro lock_inv_goes) (auto simp: do_call_def)
  then show ?case by simp
next
  case (uninitialised y t n)
  then have "lock_inv X H E v0 ((goes t (Leaving (CallExecute n) (ReplyExecute kErrorNotInitialized)) y)
      \<lparr>globals := globals y, state_of := state_of y\<rparr>)"
    by (intro lock_inv_goes) (auto simp: do_call_def Execute_def)
  then show ?case by simp
next
  case (enter_loop y t n)
  then have "lock_inv X H E v0 ((goes t (Looping n n) y)\<lparr>globals := globals y, state_of := state_of y\<rparr>)"
    by (intro lock_inv_goes) (cases n, auto)
  then show ?case by simp
next
  case (iterate y t m n g s)
  then show ?case by (intro lock_inv_goes) auto
next
  case (fail y t m n st g s)
  show ?case
  proof (rule lock_inv_goes [OF fail.prems])
    fix v assume "progress X H E t (activity_of y t) v (globals y, state_of y)"
    then show "progress X H E t (Leaving (CallExecute m) (ReplyExecute st)) v (g, (state_of y)(t := s))"
      using fail.hyps do_execute [of m v X H E t st "(g, (state_of y)(t := s))"] by simp
  qed (simp_all add: fail.hyps)
next
  case (loop_end y t m)
  have "lock_inv X H E v0 ((goes t (Leaving (CallExecute m) (ReplyExecute kGood)) y)
      \<lparr>globals := globals y, state_of := state_of y\<rparr>)"
  proof (rule lock_inv_goes [OF loop_end.prems])
    fix v assume "progress X H E t (activity_of y t) v (globals y, state_of y)"
    then show "progress X H E t (Leaving (CallExecute m) (ReplyExecute kGood)) v (globals y, state_of y)"
      using loop_end.hyps do_execute [of m v X H E t kGood "(globals y, state_of y)"] by simp
  qed (simp_all add: loop_end.hyps)
  then show ?case by simp
next
  case (release y t c r)
  obtain v where v: "gExecutorLock y = Some t" "run_calls X H E (history y) v0 = Some v"
    "progress X H E t (activity_of y t) v (globals y, state_of y)"
    by (rule lock_inv_holder [OF release.prems, of t]) (simp add: release.hyps)
  then have d: "do_call X H E t c v = Some (r, globals y, state_of y)" using release.hyps by simp
  from run_calls_snoc [OF v(2) d] v(1) release show ?case
    unfolding lock_inv_def by (auto simp: goes_def)
qed

lemma reachable_lock_inv:
  "reachable_sys X H E (start_sys g st) y \<Longrightarrow> lock_inv X H E (g, st) y"
proof (induction rule: reachable_sys.induct)
  case start
  show ?case by (simp add: lock_inv_def start_sys_def)
next
  case (step y y')
  then show ?case by (blast intro: lock_step_inv)
qed

text \<open>
  C26: of any number of threads that call \<open>Init\<close> and \<open>Execute\<close>, at most one is between the
  constructor and the destructor of its \<open>LockGuard\<close>.
\<close>

theorem mutual_exclusion:
  assumes "reachable_sys X H E (start_sys g st) y"
    and "holds (activity_of y t)" and "holds (activity_of y u)"
  shows "t = u"
  using reachable_lock_inv [OF assms(1)] assms(2,3) unfolding lock_inv_def by auto

text \<open>
  C1: whatever the scheduler does, whenever no thread holds the lock the globals, the
  states of all executors and the replies given so far are those of the calls made one
  after the other, in the order in which they returned: no call sees the globals of
  another one half way through.
\<close>

theorem calls_serialise:
  assumes "reachable_sys X H E (start_sys g st) y" and "gExecutorLock y = None"
  shows "run_calls X H E (history y) (g, st) = Some (globals y, state_of y)"
  using reachable_lock_inv [OF assms(1)] assms(2) unfolding lock_inv_def by auto

text \<open>Two threads, the second waiting while the first initialises the globals.\<close>

definition two_threads :: "sample_call list sys" where
  "two_threads = start_sys (sample_gstate\<lparr>gIsInitialized := False\<rparr>) (\<lambda>_. [])"

definition init_running :: "sample_call list sys" where
  "init_running = (goes 0 (Inside CallInit) (goes 1 (Locking CallInit) (goes 0 (Locking CallInit) two_threads)))
     \<lparr>gExecutorLock := Some 0\<rparr>"

definition init_returned :: "sample_call list sys" where
  "init_returned = (goes 0 Outside ((goes 0 (Leaving CallInit (ReplyInit True)) init_running)
     \<lparr>globals := snd (Init sample_host (sample_gstate\<lparr>gIsInitialized := False\<rparr>))\<rparr>))
     \<lparr>gExecutorLock := None, history := [(0, CallInit, ReplyInit True)]\<rparr>"

lemma init_running_reachable: "reachable_sys sample_xed sample_host (\<lambda>_. sample_executor 64) two_threads init_running"
proof -
  let ?R = "reachable_sys sample_xed sample_host (\<lambda>_. sample_executor 64) two_threads"
  have 0: "?R two_threads" by (rule reachable_sys.start)
  have 1: "?R (goes 0 (Locking CallInit) two_threads)"
    by (rule reachable_sys.step [OF 0 lock_step.call]) (simp_all add: two_threads_def start_sys_def)
  have 2: "?R (goes 1 (Locking CallInit) (goes 0 (Locking CallInit) two_threads))"
    by (rule reachable_sys.step [OF 1 lock_step.call]) (simp_all add: two_threads_def start_sys_def goes_def)
  show ?thesis
    unfolding init_running_def
    by (rule reachable_sys.step [OF 2 lock_step.acquire]) (simp_all add: two_threads_def start_sys_def goes_def)
qed

lemma init_returned_reachable: "reachable_sys sample_xed sample_host (\<lambda>_. sample_executor 64) two_threads init_returned"
proof -
  let ?R = "reachable_sys sample_xed sample_host (\<lambda>_. sample_executor 64) two_threads"
  let ?g = "snd (Init sample_host (sample_gstate\<lparr>gIsInitialized := False\<rparr>))"
  have i: "Init sample_host (globals init_running) = (True, ?g)"
    by (simp add: init_running_def goes_def two_threads_def start_sys_def Init_def sample_host_def)
  have 1: "?R ((goes 0 (Leaving CallInit (ReplyInit True)) init_running)\<lparr>globals := ?g\<rparr>)"
    by (rule reachable_sys.step [OF init_running_reachable lock_step.init [OF _ i]])
      (simp add: init_running_def goes_def)
  have "lock_step sample_xed sample_host (\<lambda>_. sample_executor 64)
      ((goes 0 (Leaving CallInit (ReplyInit True)) init_running)\<lparr>globals := ?g\<rparr>) init_returned"
    using lock_step.release [of "(goes 0 (Leaving CallInit (ReplyInit True)) init_running)\<lparr>globals := ?g\<rparr>" 0
        CallInit "ReplyInit True" sample_xed sample_host "\<lambda>_. sample_executor 64"]
    by (simp add: init_returned_def init_running_def goes_def two_threads_def start_sys_def)
  with 1 show ?thesis by (rule reachable_sys.step)
qed

theorem mutual_exclusion_witness:
  "holds (activity_of init_running 0) \<and> \<not> holds (activity_of init_running 1)"
proof -
  have h: "holds (activity_of init_running 0)" by (simp add: init_running_def goes_def)
  from mutual_exclusion [OF init_running_reachable [unfolded two_threads_def] h, of 1] h show ?thesis by auto
qed

theorem calls_serialise_witness:
  "gExecutorLock init_returned = None \<and>
   run_calls sample_xed sample_host (\<lambda>_. sample_executor 64) [(0, CallInit, ReplyInit True)]
     (sample_gstate\<lparr>gIsInitialized := False\<rparr>, \<lambda>_. []) = Some (globals init_returned, state_of init_returned)"
proof -
  have h: "gExecutorLock init_returned = None" "history init_returned = [(0, CallInit, ReplyInit True)]"
    by (simp_all add: init_returned_def)
  from calls_serialise [OF init_returned_reachable [unfolded two_threads_def] h(1)] h show ?thesis by simp
qed

section \<open>The lock is released\<close>

lemma reachable_sys_trans:
  "reachable_sys X H E y1 y2 \<Longrightarrow> reachable_sys X H E y y1 \<Longrightarrow> reachable_sys X H E y y2"
  by (induction rule: reachable_sys.induct) (auto intro: reachable_sys.step)

lemma reachable_one: "lock_step X H E y y1 \<Longrightarrow> reachable_sys X H E y y1"
  by (rule reachable_sys.step [OF reachable_sys.start])

text \<open>What a thread inside can come to on its own, while the others stay where they are: it
  returns, or it is before an instruction whose execution is undefined.\<close>

definition alone :: "nat \<Rightarrow> 's sys \<Rightarrow> 's sys \<Rightarrow> bool" where
  "alone t y y' \<longleftrightarrow> (\<forall>u. u \<noteq> t \<longrightarrow> activity_of y' u = activity_of y u \<and> state_of y' u = state_of y u)"

lemma alone_goes [simp]:
  "alone t y (goes t a y)" "alone t y ((goes t a y)\<lparr>globals := g\<rparr>)"
  "alone t y ((goes t a y)\<lparr>globals := g, state_of := (state_of y)(t := s)\<rparr>)"
  "alone t y ((goes t a y)\<lparr>gExecutorLock := l, history := h\<rparr>)" "alone t y y"
  by (simp_all add: alone_def goes_def)

definition returns_or_undefined ::
  "xed \<Rightarrow> host \<Rightarrow> (nat \<Rightarrow> 's executor) \<Rightarrow> nat \<Rightarrow> 's sys \<Rightarrow> 's sys \<Rightarrow> bool" where
  "returns_or_undefined X H E t y y' \<longleftrightarrow> alone t y y' \<and>
     (gExecutorLock y' = None \<and> (\<exists>c r. history y' = history y @ [(t, c, r)]) \<or>
      (\<exists>m n. activity_of y' t = Looping m (Suc n) \<and> ExecuteOne X H (E t) (globals y', state_of y' t) = None))"

lemma leaving_returns:
  assumes "activity_of y t = Leaving c r"
  shows "\<exists>y'. reachable_sys X H E y y' \<and> returns_or_undefined X H E t y y'"
  using reachable_one [OF lock_step.release [OF assms]]
  by (intro exI conjI) (auto simp: returns_or_undefined_def)

lemma after_step:
  assumes "lock_step X H E y y1" and "history y1 = history y" and "alone t y y1"
    and "\<exists>y'. reachable_sys X H E y1 y' \<and> returns_or_undefined X H E t y1 y'"
  shows "\<exists>y'. reachable_sys X H E y y' \<and> returns_or_undefined X H E t y y'"
proof -
  obtain y' where y': "reachable_sys X H E y1 y'" "returns_or_undefined X H E t y1 y'"
    using assms(4) by blast
  have "reachable_sys X H E y y'" using reachable_sys_trans [OF y'(1) reachable_one [OF assms(1)]] .
  moreover have "returns_or_undefined X H E t y y'"
    using y'(2) assms(2,3) by (simp add: returns_or_undefined_def alone_def)
  ultimately show ?thesis by blast
qed

lemma leaving_step_returns:
  assumes "lock_step X H E y y1" and "history y1 = history y" and "alone t y y1"
    and "activity_of y1 t = Leaving c r"
  shows "\<exists>y'. reachable_sys X H E y y' \<and> returns_or_undefined X H E t y y'"
  using assms(1-3) leaving_returns [OF assms(4)] by (rule after_step)

lemma looping_returns:
  "activity_of y t = Looping m n \<Longrightarrow>
   \<exists>y'. reachable_sys X H E y y' \<and> returns_or_undefined X H E t y y'"
proof (induction n arbitrary: y)
  case 0
  then have "lock_step X H E y (goes t (Leaving (CallExecute m) (ReplyExecute kGood)) y)"
    by (rule lock_step.loop_end)
  then show ?case by (rule leaving_step_returns [where t = t]) simp_all
next
  case (Suc n)
  show ?case
  proof (cases "ExecuteOne X H (E t) (globals y, state_of y t)")
    case None
    with Suc.prems have "returns_or_undefined X H E t y y"
      by (simp add: returns_or_undefined_def)
    then show ?thesis using reachable_sys.start by blast
  next
    case (Some res)
    obtain st g s where r: "ExecuteOne X H (E t) (globals y, state_of y t) = Some (st, g, s)"
      using Some by (cases res) auto
    let ?v = "\<lambda>a. (goes t a y)\<lparr>globals := g, state_of := (state_of y)(t := s)\<rparr>"
    show ?thesis
    proof (cases "st = kGood")
      case True
      have "lock_step X H E y (?v (Looping m n))"
        using Suc.prems r True by (intro lock_step.iterate) simp_all
      then show ?thesis
        by (rule after_step [where t = t]) (simp, simp, rule Suc.IH, simp)
    next
      case False
      have "lock_step X H E y (?v (Leaving (CallExecute m) (ReplyExecute st)))"
        using Suc.prems r False by (intro lock_step.fail) simp_all
      then show ?thesis by (rule leaving_step_returns [where t = t]) simp_all
    qed
  qed
qed

lemma inside_returns:
  assumes "activity_of y t = Inside c"
  shows "\<exists>y'. reachable_sys X H E y y' \<and> returns_or_undefined X H E t y y'"
proof (cases c)
  case CallInit
  obtain ok g where "Init H (globals y) = (ok, g)" by (metis surj_pair)
  then have "lock_step X H E y ((goes t (Leaving CallInit (ReplyInit ok)) y)\<lparr>globals := g\<rparr>)"
    using assms CallInit by (intro lock_step.init) simp_all
  then show ?thesis by (rule leaving_step_returns [where t = t]) simp_all
next
  case (CallExecute n)
  show ?thesis
  proof (cases "gIsInitialized (globals y)")
    case True
    then have "lock_step X H E y (goes t (Looping n n) y)"
      using assms CallExecute by (intro lock_step.enter_loop) simp_all
    then show ?thesis
      by (rule after_step [where t = t]) (simp, simp, rule looping_returns, simp)
  next
    case False
    then have "lock_step X H E y (goes t (Leaving (CallExecute n) (ReplyExecute kErrorNotInitialized)) y)"
      using assms CallExecute by (intro lock_step.uninitialised) simp_all
    then show ?thesis by (rule leaving_step_returns [where t = t]) simp_all
  qed
qed

text \<open>
  C27: a thread that holds the lock can always go on, the other threads staying where they
  are, until it has returned and released the lock, unless it comes to an instruction whose
  execution is undefined (such as the write through a null pointer of
  \<open>EncodeInstruction\<close>).
\<close>

theorem holder_returns:
  assumes "holds (activity_of y t)"
  shows "\<exists>y'. reachable_sys X H E y y' \<and> alone t y y' \<and>
    (gExecutorLock y' = None \<and> (\<exists>c r. history y' = history y @ [(t, c, r)]) \<or>
     (\<exists>m n. activity_of y' t = Looping m (Suc n) \<and>
        ExecuteOne X H (E t) (globals y', state_of y' t) = None))"
  unfolding returns_or_undefined_def [symmetric]
  using assms leaving_returns looping_returns inside_returns by (cases "activity_of y t") auto

theorem holder_returns_witness:
  "holds (activity_of init_running 0) \<and>
   (\<exists>y'. reachable_sys sample_xed sample_host (\<lambda>_. sample_executor 64) init_running y' \<and>
      (gExecutorLock y' = None \<or> activity_of y' 0 \<noteq> Outside))"
proof -
  have h: "holds (activity_of init_running 0)" by (simp add: init_running_def goes_def)
  from holder_returns [OF h, of sample_xed sample_host "\<lambda>_. sample_executor 64"] h show ?thesis by fastforce
qed

end
