(* ===== verification/Signals.thy ===== *)
theory Signals
  imports Locking
begin

text \<open>
  The signal handlers of the process: \<open>Execute\<close> installs its own around the run of the
  encoded instruction and puts back the ones it found. The process has its own handlers
  whenever it is not inside such a run, and a fault of the instruction is reported as a
  status.
\<close>

section \<open>The handlers of the process\<close>

text \<open>What holds of the globals between any two steps: the process has the handlers it
  started with, and the one to be installed is ready once \<open>Init\<close> has succeeded.\<close>

definition handlers_ok :: "(signal \<Rightarrow> handler) \<Rightarrow> gstate \<Rightarrow> bool" where
  "handlers_ok d g \<longleftrightarrow> disposition g = d \<and> (gIsInitialized g \<longrightarrow> gSignalHandler g = SIG_RecoverFromError)"

lemma handlers_ok_same:
  "same_init (g, s) (g', s') \<Longrightarrow> handlers_ok d g \<Longrightarrow> handlers_ok d g'"
  by (simp add: handlers_ok_def same_init_def)

lemma handlers_ok_Init: "Init H g = (ok, g') \<Longrightarrow> handlers_ok d g \<Longrightarrow> handlers_ok d g'"
  by (auto simp: Init_def handlers_ok_def split: if_splits)

lemma handlers_ok_step:
  assumes "lock_step X H E y y'" and "handlers_ok d (globals y)"
  shows "handlers_ok d (globals y')"
  using assms
proof (induction rule: lock_step.induct)
  case (init y t ok g)
  then show ?case using handlers_ok_Init [of H "globals y" ok g d] by simp
next
  case (iterate y t m n g s)
  then show ?case using handlers_ok_same [OF ExecuteOne_init [OF iterate.hyps(2)]] by simp
next
  case (fail y t m n st g s)
  then show ?case using handlers_ok_same [OF ExecuteOne_init [OF fail.hyps(2)]] by simp
qed (simp_all add: goes_def)

text \<open>
  C33: between any two steps of any threads, an instruction being one step, every signal of
  the process has the handler it had before the library was used, whatever statuses the
  executions ended with; and once the library is initialised, the handler \<open>Execute\<close>
  installs is \<open>RecoverFromError\<close>.
\<close>

theorem handlers_restored:
  assumes "reachable_sys X H E (start_sys g st) y" and "\<not> gIsInitialized g"
  shows "disposition (globals y) = disposition g \<and>
    (gIsInitialized (globals y) \<longrightarrow> gSignalHandler (globals y) = SIG_RecoverFromError)"
proof -
  have "handlers_ok (disposition g) (globals y)"
    using assms(1)
  proof (induction rule: reachable_sys.induct)
    case start
    show ?case using assms(2) by (simp add: handlers_ok_def start_sys_def)
  next
    case (step y y')
    then show ?case by (blast intro: handlers_ok_step)
  qed
  then show ?thesis by (simp add: handlers_ok_def)
qed

theorem handlers_restored_witness:
  "disposition (globals init_returned) SIGSEGV = SIG_DFL \<and> gIsInitialized (globals init_returned) \<and>
   gSignalHandler (globals init_returned) = SIG_RecoverFromError"
proof -
  have n: "\<not> gIsInitialized (sample_gstate\<lparr>gIsInitialized := False\<rparr>)" by simp
  have "gIsInitialized (globals init_returned)"
    by (simp add: init_returned_def goes_def Init_def sample_host_def)
  moreover have "disposition (sample_gstate\<lparr>gIsInitialized := False\<rparr>) SIGSEGV = SIG_DFL"
    by (simp add: sample_gstate_def)
  ultimately show ?thesis
    using handlers_restored [OF init_returned_reachable [unfolded two_threads_def] n] by simp
qed

section \<open>Faults of the instruction\<close>

definition caught :: "signal set" where
  "caught = {SIGILL, SIGBUS, SIGSEGV, SIGFPE}"

text \<open>
  C34: an instruction that raises one of the four signals \<open>Execute\<close> catches ends its run
  with that signal recorded, which gives an error status, and with the handlers of the
  process as they were; another signal goes to the handler the process has for it.
\<close>

theorem native_faults_reported:
  assumes "gSignalHandler g = SIG_RecoverFromError" and "\<not> has_avx E" and "\<not> has_avx512 E"
    and "LoadFPU H E (install_handlers (g\<lparr>gSignal := None\<rparr>)) = Some (fpu, g1)"
    and "run_native H (gExecArea g1) (native_entry X H fpu g1) = Raised sig c"
  shows "if sig \<in> caught
    then \<exists>g'. run_encoded X H E g = Some g' \<and> gSignal g' = Some sig \<and>
           status_of_signal (gSignal g') \<noteq> kGood \<and> disposition g' = disposition g
    else run_encoded X H E g \<noteq> None \<longrightarrow> disposition g sig = SIG_RecoverFromError"
proof -
  have d: "disposition g1 sig = (if sig \<in> caught then SIG_RecoverFromError else disposition g sig)"
    using kept_call(1) [OF assms(4)] assms(1) by (auto simp: install_handlers_def caught_def)
  show ?thesis
  proof (cases "sig \<in> caught")
    case True
    then obtain fpu' g2 where x: "ExecuteNative X H fpu g1 = Some (fpu', g2)" "gSignal g2 = Some sig"
      using assms(5) d by (simp add: ExecuteNative_def RecoverFromError_def)
    define g' where "g' = restore_handlers (snd (StoreFPU H E fpu' g2))"
    have r: "run_encoded X H E g = Some g'"
      using assms(2-4) x(1) by (simp add: run_encoded_def g'_def)
    moreover have "gSignal g' = Some sig"
      using x(2) by (simp add: g'_def StoreFPU_def restore_handlers_def)
    moreover have "status_of_signal (Some sig) \<noteq> kGood"
      using True by (auto simp: caught_def)
    ultimately show ?thesis using True kept_run_encoded [OF r] by auto
  next
    case False
    then show ?thesis
      using assms(2-5) d by (simp add: run_encoded_def ExecuteNative_def)
  qed
qed

text \<open>An instruction that divides by zero.\<close>

definition divide_host :: host where
  "divide_host = sample_host\<lparr>run_native := (\<lambda>_ c. Raised SIGFPE c)\<rparr>"

theorem native_faults_reported_witness:
  "\<exists>g'. run_encoded sample_xed divide_host (sample_executor 64) sample_gstate = Some g' \<and>
     status_of_signal (gSignal g') = kErrorFloatingPointException \<and> disposition g' SIGFPE = SIG_DFL"
proof -
  have h: "gSignalHandler sample_gstate = SIG_RecoverFromError" "\<not> has_avx (sample_executor 64)"
    "\<not> has_avx512 (sample_executor 64)"
    by (simp_all add: sample_gstate_def sample_executor_def)
  obtain fpu g1 where l: "LoadFPU divide_host (sample_executor 64)
      (install_handlers (sample_gstate\<lparr>gSignal := None\<rparr>)) = Some (fpu, g1)"
    by (simp add: LoadFPU_def install_handlers_def sample_gstate_def)
  have "run_native divide_host (gExecArea g1) (native_entry sample_xed divide_host fpu g1) =
      Raised SIGFPE (native_entry sample_xed divide_host fpu g1)"
    by (simp add: divide_host_def)
  from native_faults_reported [OF h l this] show ?thesis
    by (auto simp: caught_def sample_gstate_def)
qed

text \<open>
  An FPU image the processor refuses is loaded with the handlers installed but before
  \<open>sigsetjmp\<close>, so that there is nothing to come back to.
\<close>

lemma refused_image:
  assumes "gUsesFPU g" and "fxrstor_faults H (32 \<noteq> addr_size E) (gFPU g)"
  shows "run_encoded X H E g = None"
  using assms by (simp add: run_encoded_def LoadFPU_def install_handlers_def)

end
