(* ===== verification/Windows.thy ===== *)
theory Windows
  imports NativeProps
begin

text \<open>
  The branches for Windows of \<open>Executor.cpp\<close>: an exception of the encoded instruction goes
  to \<open>VectoredHandler\<close>, which makes the thread return from the call of the page instead of
  jumping out of it. What the branches share with the other platforms (the exchange of the
  registers, the FPU) is that of \<open>Native\<close>.
\<close>

section \<open>The vectored exception handler\<close>

text \<open>The exception codes the code names; \<open>EXCEPTION_INT_DIVIDE_BY_ZERO\<close> is one it does
  not name. \<open>gExceptionCode = 0\<close> is \<open>None\<close>.\<close>

datatype exception_code =
    EXCEPTION_ACCESS_VIOLATION | EXCEPTION_FLT_DENORMAL_OPERAND | EXCEPTION_FLT_DIVIDE_BY_ZERO
  | EXCEPTION_FLT_INEXACT_RESULT | EXCEPTION_FLT_INVALID_OPERATION | EXCEPTION_FLT_OVERFLOW
  | EXCEPTION_FLT_STACK_CHECK | EXCEPTION_FLT_UNDERFLOW | EXCEPTION_ILLEGAL_INSTRUCTION
  | EXCEPTION_INT_DIVIDE_BY_ZERO | EXCEPTION_OTHER nat

text \<open>The part of \<open>ExceptionInfo\<close> the handler uses.\<close>

record exception_info =
  Cip :: u64
  Csp :: u64
  ExceptionCode :: exception_code

text \<open>\<open>area\<close> is the address in \<open>gExecArea\<close>, \<open>stack\<close> the eight bytes at an address. The
  result is the new \<open>gExceptionCode\<close> with the changed registers
  (\<open>EXCEPTION_CONTINUE_EXECUTION\<close>), or \<open>None\<close> (\<open>EXCEPTION_CONTINUE_SEARCH\<close>).\<close>

definition VectoredHandler ::
  "u64 \<Rightarrow> (u64 \<Rightarrow> u64) \<Rightarrow> exception_info \<Rightarrow> (exception_code option \<times> exception_info) option" where
  "VectoredHandler area stack ei =
     (if Cip ei \<ge> area \<and> Cip ei < area + kPageSize
      then Some (Some (ExceptionCode ei), ei\<lparr>Cip := stack (Csp ei), Csp := Csp ei + 8\<rparr>)
      else None)"

section \<open>The run\<close>

text \<open>What the call of the page comes to: it returns, or raises an exception with the
  registers and the stack as they are then.\<close>

datatype page_outcome = PageReturned cpu | PageRaised exception_info "u64 \<Rightarrow> u64" cpu

record windows_host =
  host_part :: host
  run_page :: "u8 list \<Rightarrow> cpu \<Rightarrow> page_outcome"
  call_return :: u64
  call_stack :: u64

text \<open>\<open>call_return\<close> is the address after the \<open>call\<close> of the inline assembly, \<open>call_stack\<close>
  the stack pointer there. After an exception the thread goes on where the handler sends
  it, which is in the assembly if these two are restored.\<close>

definition ExecuteNative_windows ::
  "xed \<Rightarrow> windows_host \<Rightarrow> FPU \<Rightarrow> gstate \<Rightarrow> (exception_code option \<times> FPU \<times> gstate) option" where
  "ExecuteNative_windows X W fpu g =
     (case run_page W (gExecArea g) (native_entry X (host_part W) fpu g) of
        PageReturned c \<Rightarrow> Some (None, leave_native X (host_part W) c g)
      | PageRaised ei stack c \<Rightarrow>
          (case VectoredHandler (exec_area_address (host_part W)) stack ei of
             None \<Rightarrow> None
           | Some (code, ei) \<Rightarrow>
               if Cip ei = call_return W \<and> Csp ei = call_stack W
               then Some (code, leave_native X (host_part W) c g) else None))"

text \<open>\<open>Execute\<close> from \<open>gExceptionCode = 0\<close> to the removal of the handler.\<close>

definition run_encoded_windows ::
  "xed \<Rightarrow> windows_host \<Rightarrow> 's executor \<Rightarrow> gstate \<Rightarrow> (exception_code option \<times> gstate) option" where
  "run_encoded_windows X W E g =
     (case LoadFPU (host_part W) E g of
        None \<Rightarrow> None
      | Some (fpu, g) \<Rightarrow>
          (case (if has_avx512 E then Some (Some EXCEPTION_ILLEGAL_INSTRUCTION, fpu, g)
                 else if has_avx E then Some (Some EXCEPTION_ILLEGAL_INSTRUCTION, fpu, g)
                 else ExecuteNative_windows X W fpu g) of
             None \<Rightarrow> None
           | Some (code, fpu, g) \<Rightarrow> Some (code, snd (StoreFPU (host_part W) E fpu g))))"

text \<open>The \<open>switch\<close> on the exception code.\<close>

fun status_of_exception :: "exception_code option \<Rightarrow> ExecutorStatus" where
  "status_of_exception None = kGood"
| "status_of_exception (Some EXCEPTION_ACCESS_VIOLATION) = kErrorFault"
| "status_of_exception (Some EXCEPTION_FLT_DENORMAL_OPERAND) = kErrorFloatingPointException"
| "status_of_exception (Some EXCEPTION_FLT_DIVIDE_BY_ZERO) = kErrorFloatingPointException"
| "status_of_exception (Some EXCEPTION_FLT_INEXACT_RESULT) = kErrorFloatingPointException"
| "status_of_exception (Some EXCEPTION_FLT_INVALID_OPERATION) = kErrorFloatingPointException"
| "status_of_exception (Some EXCEPTION_FLT_OVERFLOW) = kErrorFloatingPointException"
| "status_of_exception (Some EXCEPTION_FLT_STACK_CHECK) = kErrorFloatingPointException"
| "status_of_exception (Some EXCEPTION_FLT_UNDERFLOW) = kErrorFloatingPointException"
| "status_of_exception (Some EXCEPTION_ILLEGAL_INSTRUCTION) = kErrorExecute"
| "status_of_exception (Some EXCEPTION_INT_DIVIDE_BY_ZERO) = kErrorExecute"
| "status_of_exception (Some (EXCEPTION_OTHER n)) = kErrorExecute"

section \<open>What is left after an exception\<close>

lemma StoreFPU_registers:
  "get_gprs X (snd (StoreFPU H E fpu g)) = get_gprs X g" "aflag X (snd (StoreFPU H E fpu g)) = aflag X g"
  by (simp_all add: StoreFPU_def get_gprs_def aflag_def)

text \<open>
  C35: on Windows an instruction that raises an exception inside the page, with the stack as
  the call left it, ends the run with the exception recorded, which gives an error status,
  and with the registers and flags the instruction had reached in their slots (where
  \<open>RecoverFromError\<close> leaves those of the process).
\<close>

theorem exception_keeps_registers:
  assumes "native_regs_ok X" and "length (cpu_gprs c) = 15" and "\<not> has_avx E" and "\<not> has_avx512 E"
    and "LoadFPU (host_part W) E g = Some (fpu, g1)"
    and "run_page W (gExecArea g1) (native_entry X (host_part W) fpu g1) = PageRaised ei stack c"
    and "exec_area_address (host_part W) \<le> Cip ei"
    and "Cip ei < exec_area_address (host_part W) + kPageSize"
    and "stack (Csp ei) = call_return W" and "Csp ei + 8 = call_stack W"
  shows "\<exists>g'. run_encoded_windows X W E g = Some (Some (ExceptionCode ei), g') \<and>
    status_of_exception (Some (ExceptionCode ei)) \<noteq> kGood \<and>
    get_gprs X g' = cpu_gprs c \<and> aflag X g' = cpu_rflags c"
proof -
  let ?l = "leave_native X (host_part W) c g1"
  have "ExecuteNative_windows X W fpu g1 = Some (Some (ExceptionCode ei), ?l)"
    using assms(6-10) by (simp add: ExecuteNative_windows_def VectoredHandler_def)
  then have "run_encoded_windows X W E g =
      Some (Some (ExceptionCode ei), snd (StoreFPU (host_part W) E (fst ?l) (snd ?l)))"
    using assms(3-5) by (simp add: run_encoded_windows_def split: prod.split)
  moreover have "status_of_exception (Some (ExceptionCode ei)) \<noteq> kGood"
    by (cases "ExceptionCode ei") simp_all
  ultimately show ?thesis
    using leave_native_registers [OF assms(1,2)] by (simp add: StoreFPU_registers)
qed

text \<open>An access violation of the first byte of the page.\<close>

definition violating :: windows_host where
  "violating = \<lparr>host_part = sample_host,
     run_page = (\<lambda>_ c. PageRaised \<lparr>Cip = 0x3000, Csp = 0x7000, ExceptionCode = EXCEPTION_ACCESS_VIOLATION\<rparr>
       (\<lambda>_. 0x1234) (c\<lparr>cpu_gprs := [1, 2, 3, 4, 5, 6, 7, 8, 9, 10, 11, 12, 13, 14, 15]\<rparr>)),
     call_return = 0x1234, call_stack = 0x7008\<rparr>"

theorem exception_keeps_registers_witness:
  "\<exists>g'. run_encoded_windows sample_xed violating (sample_executor 64) sample_gstate =
      Some (Some EXCEPTION_ACCESS_VIOLATION, g') \<and> get_gprs sample_xed g' ! 3 = 4"
proof -
  have n: "native_regs_ok sample_xed" by code_simp
  have e: "\<not> has_avx (sample_executor 64)" "\<not> has_avx512 (sample_executor 64)"
    by (simp_all add: sample_executor_def)
  have l: "LoadFPU (host_part violating) (sample_executor 64) sample_gstate = Some (0, sample_gstate)"
    by (simp add: LoadFPU_def violating_def sample_gstate_def sample_host_def)
  define c where "c = (native_entry sample_xed sample_host 0 sample_gstate)
    \<lparr>cpu_gprs := [1, 2, 3, 4, 5, 6, 7, 8, 9, 10, 11, 12, 13, 14, 15]\<rparr>"
  define ei where "ei = \<lparr>Cip = 0x3000, Csp = 0x7000, ExceptionCode = EXCEPTION_ACCESS_VIOLATION\<rparr>"
  have r: "run_page violating (gExecArea sample_gstate) (native_entry sample_xed (host_part violating) 0 sample_gstate) =
      PageRaised ei (\<lambda>_. 0x1234) c"
    by (simp add: violating_def c_def ei_def)
  have a: "exec_area_address sample_host = 0x3000" by code_simp
  have "\<exists>g'. run_encoded_windows sample_xed violating (sample_executor 64) sample_gstate =
      Some (Some (ExceptionCode ei), g') \<and> status_of_exception (Some (ExceptionCode ei)) \<noteq> kGood \<and>
      get_gprs sample_xed g' = cpu_gprs c \<and> aflag sample_xed g' = cpu_rflags c"
    by (rule exception_keeps_registers [OF n _ e l r])
      (simp_all add: a c_def ei_def violating_def kPageSize_def)
  then show ?thesis by (auto simp: ei_def c_def)
qed

text \<open>An integer division by zero has different statuses on the two platforms: its signal
  is \<open>SIGFPE\<close>, its exception code is not among those of the \<open>switch\<close>.\<close>

lemma division_statuses:
  "status_of_signal (Some SIGFPE) = kErrorFloatingPointException"
  "status_of_exception (Some EXCEPTION_INT_DIVIDE_BY_ZERO) = kErrorExecute"
  by simp_all

end
