(* ===== verification/Guarded.thy ===== *)
theory Guarded
  imports Obliging
begin

text \<open>
  Asking before writing: every write to memory has been announced. \<open>ReadMemory\<close> requests each
  operand with a hint that says whether it will be written, and an instruction whose request
  is refused does not go on; what \<open>WriteMemory\<close> reports is exactly what was requested so. An
  executor that checks the permissions of the requests need not check those of the writes.
  The contract is the locale \<open>grantor\<close>.
\<close>

section \<open>Requests and slots\<close>

text \<open>The slots that will be written have been granted.\<close>

definition slots_granted :: "(u64 \<Rightarrow> nat \<Rightarrow> bool) \<Rightarrow> gstate \<Rightarrow> bool" where
  "slots_granted granted g \<longleftrightarrow>
     (\<forall>k < 2. case slots_of g k of (p, wb, a, n) \<Rightarrow> p \<and> wb \<longrightarrow> granted a n)"

text \<open>An address that is only generated is not written: XED has no such operand.\<close>

definition agen_read_only :: "xed_decoded_inst \<Rightarrow> bool" where
  "agen_read_only d \<longleftrightarrow>
     (\<forall>xedo \<in> set (get_operands d). operand_name xedo = XED_OPERAND_AGEN \<longrightarrow> \<not> operand_written xedo)"

definition agen_never_written :: "xed \<Rightarrow> bool" where
  "agen_never_written X \<longleftrightarrow> (\<forall>st bs. agen_read_only (snd (xed_decode X st bs)))"

lemma slots_granted_cong: "slots_of h = slots_of g \<Longrightarrow> slots_granted gr h = slots_granted gr g"
  by (simp add: slots_granted_def)

lemma slots_granted_clear: "slots_granted gr (clear_present g)"
proof -
  have "slots_of (clear_present g) k = (False, write_back (gMemory g k), maddress (gMemory g k), msize (gMemory g k))" if "k < 2" for k
    using that by (auto simp: slots_of_def clear_present_def numeral_2_eq_2 less_Suc_eq)
  then show ?thesis by (simp add: slots_granted_def)
qed

lemma or_return_cases:
  assumes "or_return a err k w = Some (st, w')"
  obtains (stopped) "a w = (False, w')" and "st = err" | (goes) w1 where "a w = (True, w1)" and "k w1 = Some (st, w')"
  using assms by (auto simp: or_return_def split: prod.splits if_splits)

section \<open>Executors that check the requests\<close>

locale grantor = reader E obs for E :: "'s executor" and obs :: "'s \<Rightarrow> 'o" +
  fixes grants :: "'o \<Rightarrow> u64 \<Rightarrow> nat \<Rightarrow> bool" and within :: "'o \<Rightarrow> 'o \<Rightarrow> bool"
  assumes asked: "h = kWriteOnly \<or> h = kReadWrite \<Longrightarrow> ReadMem E a n h v s = (True, v', s') \<Longrightarrow> grants (obs s) a n"
    and granted: "grants (obs s) a n \<Longrightarrow> within (obs s) (obs (snd (WriteMem E a n v s)))"
    and grants_stay: "within m m' \<Longrightarrow> grants m' = grants m"
    and within_refl: "within m m"
    and within_trans: "within m1 m2 \<Longrightarrow> within m2 m3 \<Longrightarrow> within m1 m3"
    and writereg_keeps: "obs (snd (WriteReg E nm k v s)) = obs s"
    and writefpu_keeps: "obs (snd (WriteFPU E f s)) = obs s"
begin

abbreviation goes_within :: "'g \<times> 's \<Rightarrow> 'g \<times> 's \<Rightarrow> bool" where
  "goes_within w w' \<equiv> within (obs (snd w)) (obs (snd w'))"

lemma looks_within: "looks obs w w' \<Longrightarrow> goes_within w w'"
  by (simp add: looks_def within_refl)

text \<open>Reading the operands obtains the grants.\<close>

lemma ReadMemoryOperand_granted:
  assumes "operand_name xedo = XED_OPERAND_AGEN \<longrightarrow> \<not> operand_written xedo"
  shows "upholds (\<lambda>w. slots_granted (grants (obs (snd w))) (fst w)) (ReadMemoryOperand X E xedo k)"
proof (rule upholdsI)
  fix w w' :: "'s world"
  assume g: "slots_granted (grants (obs (snd w))) (fst w)" and r: "ReadMemoryOperand X E xedo k w = (True, w')"
  let ?d = "gXedd (fst w)"
  let ?breg = "get_base_reg ?d k"
  obtain disp h where a: "adjust_displacement X k ?breg (word_of_int (get_memory_displacement ?d k)) (fst w) = (disp, h)"
    by (metis surj_pair)
  have slots: "slots_of h = slots_of (fst w)" using kept_adjust [of X k ?breg _ "fst w"] a by (metis snd_conv)
  have looks: "obs (snd w') = obs (snd w)" using ReadMemoryOperand_looks [of w X xedo k] r by (simp add: looks_def)
  let ?base = "if reg X XED_REG_EIP = ?breg \<or> reg X XED_REG_RIP = ?breg
    then ReadGPR X ?breg (fst w) + of_nat (get_length ?d) else ReadGPR X ?breg (fst w)"
  let ?seg = "reg_enum_t2str X (deduce_segment X (get_seg_reg ?d k) ?breg)"
  obtain addr s where c: "ComputeAddress E ?seg ?base (ReadGPR X (get_index_reg ?d k) (fst w)) (get_scale ?d k)
      disp (msize (gMemory (fst w) k)) (request_hint xedo) (snd w) = (addr, s)" by (metis surj_pair)
  then have s: "obs s = obs (snd w)" using compute_keeps by (metis snd_conv)
  let ?a = "mask_address (get_memop_address_width (gXedd h) k) addr" and ?n = "8 * get_memory_operand_length (gXedd h) k"
  obtain ok v t where m: "ReadMem E ?a ?n (request_hint xedo) 0 s = (ok, v, t)" by (metis prod_cases3)
  have new: "slots_of (fst w') = (slots_of h)(k := (True, operand_written xedo, ?a, ?n))"
    using r a c m by (cases "XED_OPERAND_AGEN = operand_name xedo")
      (auto simp: ReadMemoryOperand_def slots_of_def Let_def)
  have "grants (obs (snd w)) ?a ?n" if wr: "operand_written xedo"
  proof -
    have n: "XED_OPERAND_AGEN \<noteq> operand_name xedo" using assms wr by auto
    then have "request_hint xedo = kWriteOnly \<or> request_hint xedo = kReadWrite" using wr by (simp add: request_hint_def)
    moreover have "ok" using r a c m n by (simp add: ReadMemoryOperand_def Let_def)
    then have "ReadMem E ?a ?n (request_hint xedo) 0 s = (True, v, t)" using m by simp
    ultimately show ?thesis using asked s by metis
  qed
  then have "case slots_of (fst w') j of (p, wb, a, n) \<Rightarrow> p \<and> wb \<longrightarrow> grants (obs (snd w)) a n" if "j < 2" for j
    using g that by (auto simp: slots_granted_def new slots)
  then show "slots_granted (grants (obs (snd w'))) (fst w')" by (simp add: slots_granted_def looks)
qed

lemma ReadMemory_granted:
  assumes "agen_read_only (gXedd (fst w))" and "ReadMemory X E w = (True, w')"
  shows "slots_granted (grants (obs (snd w'))) (fst w')"
proof -
  have "upholds (\<lambda>w. slots_granted (grants (obs (snd w))) (fst w))
      (each (\<lambda>xedo w. case mem_slot (operand_name xedo) of None \<Rightarrow> (True, w)
         | Some k \<Rightarrow> ReadMemoryOperand X E xedo k w) (get_operands (gXedd (fst w))))"
  proof (rule upholds_each)
    fix xedo assume "xedo \<in> set (get_operands (gXedd (fst w)))"
    with assms(1) have "operand_name xedo = XED_OPERAND_AGEN \<longrightarrow> \<not> operand_written xedo" by (simp add: agen_read_only_def)
    from ReadMemoryOperand_granted [OF this]
    show "upholds (\<lambda>w. slots_granted (grants (obs (snd w))) (fst w))
        (\<lambda>w. case mem_slot (operand_name xedo) of None \<Rightarrow> (True, w) | Some k \<Rightarrow> ReadMemoryOperand X E xedo k w)"
      by (cases "mem_slot (operand_name xedo)") (simp_all add: upholds_succeed)
  qed
  from upholdsD [where P = "\<lambda>w. slots_granted (grants (obs (snd w))) (fst w)", OF this assms(2) [unfolded ReadMemory_def]]
  show ?thesis by (simp add: slots_granted_clear)
qed

text \<open>Granted slots are written, the others not.\<close>

lemma WriteSlots_within:
  assumes "\<forall>m \<in> set ms. present m \<and> write_back m \<longrightarrow> grants (obs s) (maddress m) (msize m)"
  shows "within (obs s) (obs (snd (each (WriteSlot E) ms s)))"
  using assms
proof (induction ms arbitrary: s)
  case (Cons m ms)
  have 1: "within (obs s) (obs (snd (WriteSlot E m s)))"
    using Cons.prems by (simp add: WriteSlot_def granted within_refl)
  from Cons.IH [of "snd (WriteSlot E m s)"] Cons.prems
  have "within (obs (snd (WriteSlot E m s))) (obs (snd (each (WriteSlot E) ms (snd (WriteSlot E m s)))))"
    by (simp add: grants_stay [OF 1])
  with 1 show ?case by (auto split: prod.split intro: within_trans)
qed (simp add: within_refl)

lemma WriteMemory_within:
  assumes "slots_granted (grants (obs (snd w))) (fst w)"
  shows "goes_within w (snd (WriteMemory E w))"
proof -
  have "\<forall>m \<in> set [gMemory (fst w) 0, gMemory (fst w) 1]. present m \<and> write_back m \<longrightarrow> grants (obs (snd w)) (maddress m) (msize m)"
    using assms by (auto simp: slots_granted_def slots_of_def numeral_2_eq_2 less_Suc_eq)
  from WriteSlots_within [OF this] show ?thesis
    by (cases "each (WriteSlot E) [gMemory (fst w) 0, gMemory (fst w) 1] (snd w)")
      (simp add: WriteMemory_def del: each.simps)
qed

lemma reports_keep:
  "obs (snd (snd (WriteFlags X E w))) = obs (snd w)" "obs (snd (snd (WriteRegisters X E w))) = obs (snd w)"
  "obs (snd (snd (fpu_write E w))) = obs (snd w)"
proof -
  have "obs (snd (each (WRITE_FLAG E wf af) fs s)) = obs s" for wf af fs s
    by (induction fs arbitrary: s) (auto simp: WRITE_FLAG_def writereg_keeps split: prod.splits, (metis writereg_keeps snd_conv)+)
  then show "obs (snd (snd (WriteFlags X E w))) = obs (snd w)"
    by (simp add: WriteFlags_def Let_def split: prod.split) (metis snd_conv)
  have one: "obs (snd (write_one X E g r s)) = obs s" for g r s by (simp add: write_one_def writereg_keeps)
  have "obs (snd (snd (write_loop X E g is pc s))) = obs s" for g "is" pc s
    by (induction "is" arbitrary: pc s) (auto split: prod.splits, (metis one snd_conv)+)
  then show "obs (snd (snd (WriteRegisters X E w))) = obs (snd w)"
    by (auto simp: WriteRegisters_def Let_def split: prod.splits) (metis one snd_conv)+
  show "obs (snd (snd (fpu_write E w))) = obs (snd w)"
    by (simp add: fpu_write_def split: prod.splits) (metis writefpu_keeps snd_conv)
qed

section \<open>Executions\<close>

lemma report_back_keeps: "report_back X E npc w = Some (st, w') \<Longrightarrow> obs (snd w') = obs (snd w)"
  unfolding report_back_def
proof (erule or_return_cases)
  assume "WriteFlags X E w = (False, w')"
  then show "obs (snd w') = obs (snd w)" using reports_keep(1) [of X w] by simp
next
  fix w1 assume 1: "WriteFlags X E w = (True, w1)"
    and "or_return (WriteRegisters X E) kErrorWriteReg (\<lambda>w. Some (kGood, w)) (SetNextPC X npc (fst w1), snd w1) = Some (st, w')"
  then have "snd (snd (WriteRegisters X E (SetNextPC X npc (fst w1), snd w1))) = snd w'"
    by (elim or_return_cases) simp_all
  then show "obs (snd w') = obs (snd w)"
    using reports_keep(2) [of X "(SetNextPC X npc (fst w1), snd w1)"] reports_keep(1) [of X w] 1 by simp
qed

lemma commit_within:
  assumes "slots_granted (grants (obs (snd w))) (fst w)" and "commit X E npc w = Some (st, w')"
  shows "goes_within w w'"
  using assms(2) unfolding commit_def
proof (cases rule: or_return_cases)
  case stopped
  then show ?thesis using WriteMemory_within [OF assms(1)] by simp
next
  case (goes w1)
  then have w1: "goes_within w w1" using WriteMemory_within [OF assms(1)] by simp
  from goes(2) have "obs (snd w') = obs (snd w1)"
  proof (cases rule: or_return_cases)
    case stopped
    then show ?thesis using reports_keep(3) [of w1] by simp
  next
    case (goes w2)
    then have "obs (snd w2) = obs (snd w1)" using reports_keep(3) [of w1] by simp
    with report_back_keeps [OF goes(2)] show ?thesis by (simp split: if_splits)
  qed
  with w1 show ?thesis by simp
qed

lemma operate_within:
  assumes "agen_read_only (gXedd (fst w))" and "operate X H E npc w = Some (st, w')"
  shows "goes_within w w'"
  using assms(2) unfolding operate_def
proof (cases rule: or_return_cases)
  case stopped
  then show ?thesis using fpu_read_looks [of w] by (simp add: looks_def within_refl)
next
  case (goes w1)
  let ?w1 = "(if gUsesMMX (fst w1) then CopyMMXStateToFPU X E (fst w1) else fst w1, snd w1)"
  have w1: "obs (snd w1) = obs (snd w)" using fpu_read_looks [of w] goes(1) by (simp add: looks_def)
  have "gXedd (fst w1) = gXedd (fst w)" using goes(1) by (auto simp: fpu_read_def split: prod.splits if_splits)
  then have d: "agen_read_only (gXedd (fst ?w1))" using assms(1) by (simp add: gXedd_CopyMMXStateToFPU)
  from goes(2) show ?thesis
  proof (cases rule: or_return_cases)
    case stopped
    then show ?thesis using ReadMemory_looks [of ?w1 X] w1 by (simp add: looks_def within_refl)
  next
    case (goes w2)
    have w2: "obs (snd w2) = obs (snd w)" using ReadMemory_looks [of ?w1 X] w1 goes(1) by (simp add: looks_def)
    have gr: "slots_granted (grants (obs (snd w2))) (fst w2)" by (rule ReadMemory_granted [OF d goes(1)])
    obtain st1 npc1 g where p: "perform X H E npc (fst w2) = Some (st1, npc1, g)"
      and k: "(if st1 \<noteq> kGood then Some (st1, g, snd w2) else commit X E npc1 (g, snd w2)) = Some (st, w')"
      using goes(2) by (auto split: option.splits)
    have "slots_of g = slots_of (fst w2)" using kept_perform [OF p] by blast
    then have "slots_granted (grants (obs (snd (g, snd w2)))) (fst (g, snd w2))"
      using gr by (simp add: slots_granted_cong [of g "fst w2"])
    from commit_within [OF this] k w2 show ?thesis by (auto simp: within_refl split: if_splits)
  qed
qed

lemma decoded_within:
  assumes "agen_read_only (gXedd (fst w))" and "decoded X H E w = Some (st, w')"
  shows "goes_within w w'"
proof (cases "UsesUnsupportedFeatures E (fst w)")
  case True
  with assms(2) show ?thesis by (simp add: decoded_def within_refl)
next
  case False
  with assms(2) have "or_return (ReadFlags X H E) kErrorReadFlags (or_return (ReadRegisters X E) kErrorReadReg (\<lambda>w.
      let npc = GetNextPC X E (fst w) in if is_nop (fst w) then report_back X E npc w else operate X H E npc w)) w = Some (st, w')"
    by (simp add: decoded_def)
  then show ?thesis
  proof (cases rule: or_return_cases)
    case stopped
    then show ?thesis using ReadFlags_looks [of w X H] by (simp add: looks_def within_refl)
  next
    case (goes w1)
    have w1: "obs (snd w1) = obs (snd w)" "gXedd (fst w1) = gXedd (fst w)"
      using ReadFlags_looks [of w X H] ReadFlags_gXedd [of X H E w] goes(1) by (simp_all add: looks_def)
    from goes(2) show ?thesis
    proof (cases rule: or_return_cases)
      case stopped
      then show ?thesis using ReadRegisters_looks [of w1 X] w1 by (simp add: looks_def within_refl)
    next
      case (goes w2)
      have w2: "obs (snd w2) = obs (snd w)" "gXedd (fst w2) = gXedd (fst w)"
        using ReadRegisters_looks [of w1 X] ReadRegisters_same [of w1 X E] goes(1) w1 by (simp_all add: looks_def same_inst_def)
      show ?thesis
      proof (cases "is_nop (fst w2)")
        case True
        with goes(2) have "report_back X E (GetNextPC X E (fst w2)) w2 = Some (st, w')" by (simp add: Let_def)
        from report_back_keeps [OF this] w2(1) show ?thesis by (simp add: within_refl)
      next
        case False
        with goes(2) have "operate X H E (GetNextPC X E (fst w2)) w2 = Some (st, w')" by (simp add: Let_def)
        from operate_within [OF _ this] assms(1) w2 show ?thesis by simp
      qed
    qed
  qed
qed

lemma ExecuteOne_within:
  assumes "agen_never_written X" and "ExecuteOne X H E w = Some (st, w')"
  shows "goes_within w w'"
  using assms(2) unfolding ExecuteOne_def
proof (cases rule: or_return_cases)
  case stopped
  then show ?thesis using ReadPC_looks [of "(reset_instruction X (fst w), snd w)" X] by (simp add: looks_def within_refl)
next
  case (goes w1)
  have w1: "obs (snd w1) = obs (snd w)"
    using ReadPC_looks [of "(reset_instruction X (fst w), snd w)" X] goes(1) by (simp add: looks_def)
  obtain n w2 where f: "FetchInstruction X E w1 = (n, w2)" by (metis surj_pair)
  have w2: "obs (snd w2) = obs (snd w)" using FetchInstruction_looks [of w1 X] f w1 by (simp add: looks_def)
  show ?thesis
  proof (cases "n = 0")
    case True
    with goes(2) f w2 show ?thesis by (simp add: within_refl)
  next
    case False
    with goes(2) f have "or_return (on_globals (\<lambda>g. DecodeInstruction X (word_bytes n (idata g)) (addr_size E) g))
        kErrorDecode (decoded X H E) w2 = Some (st, w')" by simp
    then show ?thesis
    proof (cases rule: or_return_cases)
      case stopped
      then have "snd w' = snd w2" by (auto simp: on_globals_def split: prod.splits)
      with w2 show ?thesis by (simp add: within_refl)
    next
      case (goes w3)
      have "agen_read_only (gXedd (fst w3))"
        using assms(1) Decode_result(1) [OF goes(1)] by (simp add: agen_never_written_def)
      from decoded_within [OF this goes(2)] Decode_result(6) [OF goes(1)] w2 show ?thesis by simp
    qed
  qed
qed

lemma execute_loop_within:
  assumes "agen_never_written X" and "execute_loop X H E n w = Some (st, w')"
  shows "goes_within w w'"
  using assms(2)
proof (induction n arbitrary: w)
  case (Suc n)
  obtain st1 w1 where 1: "ExecuteOne X H E w = Some (st1, w1)" using Suc.prems by (auto split: option.splits)
  note r = ExecuteOne_within [OF assms(1) 1]
  show ?case
  proof (cases "st1 = kGood")
    case True
    with Suc.prems 1 have "execute_loop X H E n w1 = Some (st, w')" by simp
    from within_trans [OF r Suc.IH [OF this]] show ?thesis .
  next
    case False
    with Suc.prems 1 r show ?thesis by (simp split: if_splits)
  qed
qed (simp add: within_refl)

lemma Execute_within:
  assumes "agen_never_written X" and "Execute X H E n w = Some (st, w')"
  shows "goes_within w w'"
  using execute_loop_within [OF assms(1)] assms(2) by (auto simp: Execute_def within_refl split: if_splits)

end

end
