(* ===== verification/PyBind.thy ===== *)
theory PyBind
  imports Exec
begin

text \<open>
  The Python binding of \<open>Python.cpp\<close>: \<open>PythonExecutor\<close>, whose virtual methods call the
  methods of a Python object and convert the values they return, and the functions
  \<open>Executor_init\<close>, \<open>Executor_Execute\<close>, \<open>CreateExceptions\<close> and \<open>PyInit_microx_core\<close>. The
  Python object is the program of the user: its methods are the fields of a record
  \<open>pyobject\<close> over a state \<open>'p\<close> of their own. The state of the executor is that state, the
  sticky error fields and the error indicator of the interpreter.
\<close>

section \<open>Python values and exceptions\<close>

datatype py_exn =
    PyExc_ValueError | PyExc_TypeError | PyExc_OverflowError | PyExc_FloatingPointError
  | PyExc_RuntimeError | PyExc_MemoryError | MicroxError | InstructionDecodeError
  | InstructionFetchError | AddressFaultError | UnsupportedError | UserException string

text \<open>A float carries the image of its double.\<close>

datatype pyval = PyBytes "u8 list" | PyLong int | PyFloat u64 | PyOther string

type_synonym 'p py_call = "'p \<Rightarrow> (py_exn + pyval) \<times> 'p"

record 'p pyobject =
  compute_address :: "string \<Rightarrow> u64 \<Rightarrow> u64 \<Rightarrow> u64 \<Rightarrow> u64 \<Rightarrow> nat \<Rightarrow> MemRequestHint \<Rightarrow> 'p py_call"
  read_register :: "string \<Rightarrow> RegRequestHint \<Rightarrow> 'p py_call"
  write_register :: "string \<Rightarrow> u8 list \<Rightarrow> 'p py_call"
  read_memory :: "u64 \<Rightarrow> nat \<Rightarrow> MemRequestHint \<Rightarrow> 'p py_call"
  write_memory :: "u64 \<Rightarrow> u8 list \<Rightarrow> 'p py_call"
  read_fpu :: "'p py_call"
  write_fpu :: "u8 list \<Rightarrow> 'p py_call"
  float_of_double :: "u64 \<Rightarrow> u32"

text \<open>The last field is not a method: it is the conversion of a double to single precision.\<close>

record 'p pystate =
  has_error :: bool
  error :: "py_exn option"
  err_indicator :: "py_exn option"
  user :: 'p

text \<open>\<open>PyObject_CallMethod\<close>: \<open>None\<close> is the null pointer, with the error indicator set.\<close>

definition PyObject_CallMethod :: "'p py_call \<Rightarrow> 'p pystate \<Rightarrow> pyval option \<times> 'p pystate" where
  "PyObject_CallMethod m s =
     (case m (user s) of
        (Inl e, u) \<Rightarrow> (None, s\<lparr>user := u, err_indicator := Some e\<rparr>)
      | (Inr v, u) \<Rightarrow> (Some v, s\<lparr>user := u\<rparr>))"

section \<open>Values returned by Python\<close>

text \<open>\<open>memset\<close> of everything above the first \<open>n\<close> bytes.\<close>

definition keep_bytes :: "nat \<Rightarrow> Data \<Rightarrow> Data" where
  "keep_bytes n d = take_bit (8 * n) d"

text \<open>\<open>PythonExecutor::ReadValue\<close>. The test of \<open>PyLong_CheckExact\<close> is never reached, because
  \<open>PyLong_Check\<close> accepts every value it accepts. An integer that does not fit leaves its low
  512 bits behind, a negative one leaves the buffer alone.\<close>

definition PyReadValue ::
  "'p pyobject \<Rightarrow> pyval \<Rightarrow> nat \<Rightarrow> Data \<Rightarrow> 'p pystate \<Rightarrow> bool \<times> Data \<times> 'p pystate" where
  "PyReadValue py res num_bits val s =
     (if has_error s then (False, val, s)
      else
        (let num_bytes = min 64 ((num_bits + 7) div 8) in
         case res of
           PyBytes bs \<Rightarrow>
             if num_bytes \<noteq> length bs
             then (False, val, s\<lparr>has_error := True, error := Some PyExc_ValueError\<rparr>)
             else (True, keep_bytes num_bytes (put_bits 0 (8 * num_bytes) (le_bytes bs :: Data) val), s)
         | PyLong i \<Rightarrow>
             if 0 \<le> i \<and> i < 2 ^ 512 then (True, word_of_int i, s)
             else (False, (if i < 0 then val else word_of_int i),
                   s\<lparr>has_error := True, err_indicator := Some PyExc_OverflowError\<rparr>)
         | PyFloat f \<Rightarrow>
             (True, keep_bytes num_bytes
                (if 32 = num_bits then put_bits 0 32 (float_of_double py f) val
                 else put_bits 0 64 f val), s)
         | PyOther tp \<Rightarrow> (False, val, s\<lparr>error := Some PyExc_TypeError\<rparr>)))"

section \<open>The virtual methods\<close>

definition PyComputeAddress ::
  "'p pyobject \<Rightarrow> nat \<Rightarrow> string \<Rightarrow> u64 \<Rightarrow> u64 \<Rightarrow> u64 \<Rightarrow> u64 \<Rightarrow> nat \<Rightarrow> MemRequestHint \<Rightarrow>
   'p pystate \<Rightarrow> u64 \<times> 'p pystate" where
  "PyComputeAddress py asize seg_name base index scale displacement sz hint s =
     (if has_error s then (0, s)
      else
        (case PyObject_CallMethod
            (compute_address py seg_name base index scale displacement (sz div 8) hint) s of
           (res, s) \<Rightarrow>
             (let ret_addr = Executor_ComputeAddress base index scale displacement in
              case res of
                Some v \<Rightarrow>
                  (case PyReadValue py v asize 0 s of (ok, val, s) \<Rightarrow>
                     (if ok then get_bits 0 64 val else ret_addr, s))
              | None \<Rightarrow> (ret_addr, s\<lparr>has_error := True\<rparr>))))"

text \<open>\<open>val\<close> is a fresh local of \<open>ComputeAddress\<close>; its first eight bytes are written by every
  conversion that succeeds, the address size being 32 or 64, so its initial content does
  not matter.\<close>

definition PyReadReg ::
  "'p pyobject \<Rightarrow> string \<Rightarrow> nat \<Rightarrow> RegRequestHint \<Rightarrow> Data \<Rightarrow> 'p pystate \<Rightarrow> bool \<times> Data \<times> 'p pystate" where
  "PyReadReg py name sz hint val s =
     (if has_error s then (False, val, s)
      else (case PyObject_CallMethod (read_register py name hint) s of
              (Some res, s) \<Rightarrow> PyReadValue py res sz val s
            | (None, s) \<Rightarrow> (False, val, s)))"

definition PyWriteReg ::
  "'p pyobject \<Rightarrow> string \<Rightarrow> nat \<Rightarrow> Data \<Rightarrow> 'p pystate \<Rightarrow> bool \<times> 'p pystate" where
  "PyWriteReg py name sz val s =
     (if has_error s then (False, s)
      else (case PyObject_CallMethod (write_register py name (word_bytes ((sz + 7) div 8) val)) s of
              (ret, s) \<Rightarrow> (ret \<noteq> None, s)))"

definition PyReadMem ::
  "'p pyobject \<Rightarrow> u64 \<Rightarrow> nat \<Rightarrow> MemRequestHint \<Rightarrow> Data \<Rightarrow> 'p pystate \<Rightarrow> bool \<times> Data \<times> 'p pystate" where
  "PyReadMem py addr sz hint val s =
     (if has_error s then (False, val, s)
      else (case PyObject_CallMethod (read_memory py addr (sz div 8) hint) s of
              (Some res, s) \<Rightarrow> PyReadValue py res sz val s
            | (None, s) \<Rightarrow> (False, val, s)))"

definition PyWriteMem ::
  "'p pyobject \<Rightarrow> u64 \<Rightarrow> nat \<Rightarrow> Data \<Rightarrow> 'p pystate \<Rightarrow> bool \<times> 'p pystate" where
  "PyWriteMem py addr sz val s =
     (if has_error s then (False, s)
      else (case PyObject_CallMethod (write_memory py addr (word_bytes (sz div 8) val)) s of
              (ret, s) \<Rightarrow> (ret \<noteq> None, s)))"

definition PyReadFPU :: "'p pyobject \<Rightarrow> FPU \<Rightarrow> 'p pystate \<Rightarrow> bool \<times> FPU \<times> 'p pystate" where
  "PyReadFPU py val s =
     (if has_error s then (False, val, s)
      else (case PyObject_CallMethod (read_fpu py) s of
              (None, s) \<Rightarrow> (False, val, s)
            | (Some (PyBytes bs), s) \<Rightarrow>
                if 512 \<noteq> length bs
                then (False, val, if error s = None then s\<lparr>error := Some PyExc_ValueError\<rparr> else s)
                else (True, le_bytes bs, s)
            | (Some _, s) \<Rightarrow> (False, val, s\<lparr>has_error := True, error := Some PyExc_ValueError\<rparr>)))"

definition PyWriteFPU :: "'p pyobject \<Rightarrow> FPU \<Rightarrow> 'p pystate \<Rightarrow> bool \<times> 'p pystate" where
  "PyWriteFPU py val s =
     (case PyObject_CallMethod (write_fpu py (word_bytes 512 val)) s of (ret, s) \<Rightarrow> (ret \<noteq> None, s))"

definition PythonExecutor :: "'p pyobject \<Rightarrow> nat \<Rightarrow> 'p pystate executor" where
  "PythonExecutor py a_size = \<lparr>addr_size = a_size, has_avx = False, has_avx512 = False,
     ComputeAddress = PyComputeAddress py a_size, ReadReg = PyReadReg py, WriteReg = PyWriteReg py,
     ReadMem = PyReadMem py, WriteMem = PyWriteMem py, ReadFPU = PyReadFPU py,
     WriteFPU = PyWriteFPU py, ClearFetchError = (\<lambda>s. s\<lparr>err_indicator := None\<rparr>)\<rparr>"

section \<open>The functions called by Python\<close>

text \<open>\<open>Executor_init\<close>; the argument is \<open>None\<close> where \<open>PyArg_ParseTuple\<close> fails, with the
  exception it raises.\<close>

definition Executor_init ::
  "'p pyobject \<Rightarrow> py_exn + nat \<Rightarrow> py_exn + 'p pystate executor" where
  "Executor_init py arg =
     (case arg of
        Inl e \<Rightarrow> Inl e
      | Inr a_size \<Rightarrow>
          if 64 \<noteq> a_size \<and> 32 \<noteq> a_size then Inl PyExc_ValueError
          else Inr (PythonExecutor py a_size))"

text \<open>\<open>PyErr_SetString\<close>.\<close>

definition set_err :: "py_exn \<Rightarrow> 'p pystate \<Rightarrow> 'p pystate" where
  "set_err e s = s\<lparr>err_indicator := Some e\<rparr>"

text \<open>The \<open>switch\<close> on the status: whether \<open>True\<close> is returned (or the null pointer).\<close>

definition raise_status :: "ExecutorStatus \<Rightarrow> 'p pystate \<Rightarrow> bool \<times> 'p pystate" where
  "raise_status st s =
     (case st of
        kGood \<Rightarrow> (True, s)
      | kErrorNotInitialized \<Rightarrow> (False, set_err PyExc_ValueError s)
      | kErrorDecode \<Rightarrow> (False, set_err InstructionDecodeError s)
      | kErrorUnsupportedFeatures \<Rightarrow> (False, set_err UnsupportedError s)
      | kErrorUnsupportedCFI \<Rightarrow> (False, set_err UnsupportedError s)
      | kErrorUnsupportedStack \<Rightarrow> (False, set_err UnsupportedError s)
      | kErrorExecute \<Rightarrow> (False, set_err MicroxError s)
      | kErrorFault \<Rightarrow> (False, set_err AddressFaultError s)
      | kErrorFloatingPointException \<Rightarrow> (False, set_err PyExc_FloatingPointError s)
      | _ \<Rightarrow>
         (let s = (if st = kErrorReadInstMem \<and> err_indicator s = None \<and> error s = None
                   then set_err InstructionFetchError s else s)
          in (False,
              if err_indicator s \<noteq> None then s
              else case error s of
                     Some e \<Rightarrow> (set_err e s)\<lparr>error := None\<rparr>
                   | None \<Rightarrow> set_err PyExc_RuntimeError s)))"

text \<open>\<open>Executor_Execute\<close>; \<open>num_execs\<close> is \<open>None\<close> where \<open>PyArg_ParseTuple\<close> fails, the executor
  is \<open>None\<close> while the object has not been initialised, and the outcome is \<open>None\<close> where the
  program reads or writes through a null pointer.\<close>

definition Executor_Execute ::
  "xed \<Rightarrow> host \<Rightarrow> 'p pystate executor option \<Rightarrow> nat option \<Rightarrow> 'p pystate world \<Rightarrow>
   (bool \<times> 'p pystate world) option" where
  "Executor_Execute X H ex num_execs w =
     (case num_execs of
        None \<Rightarrow> Some (False, fst w, set_err PyExc_TypeError (snd w))
      | Some n \<Rightarrow>
          (case ex of
             None \<Rightarrow> None
           | Some E \<Rightarrow>
               (case Execute X H E n (fst w, (snd w)\<lparr>has_error := False, error := None\<rparr>) of
                  None \<Rightarrow> None
                | Some (st, g, s) \<Rightarrow> (case raise_status st s of (ok, s) \<Rightarrow> Some (ok, g, s)))))"

section \<open>The module\<close>

text \<open>The exceptions of the module with their base classes, in the order of
  \<open>CreateExceptions\<close>; \<open>mk\<close> is \<open>PyErr_NewException\<close> (whether the class could be created).\<close>

definition module_exceptions :: "(py_exn \<times> string \<times> py_exn option) list" where
  "module_exceptions =
     [(MicroxError, ''MicroxError'', None),
      (InstructionDecodeError, ''InstructionDecodeError'', Some MicroxError),
      (InstructionFetchError, ''InstructionFetchError'', Some MicroxError),
      (AddressFaultError, ''AddressFaultError'', Some MicroxError),
      (UnsupportedError, ''UnsupportedError'', Some MicroxError)]"

type_synonym pymodule = "(string \<times> py_exn) list"

definition CreateExceptions ::
  "(string \<Rightarrow> py_exn option \<Rightarrow> bool) \<Rightarrow> pymodule \<Rightarrow> bool \<times> pymodule" where
  "CreateExceptions mk =
     each (\<lambda>(e, name, base) m.
       if mk (''microx_core.'' @ name) base then (True, m @ [(name, e)]) else (False, m))
     module_exceptions"

text \<open>\<open>PyInit_microx_core\<close>: the module's exceptions and the globals; \<open>Inl\<close> is the null
  pointer with the exception set, if any. \<open>created\<close> is whether \<open>PyModule_Create\<close> succeeds,
  \<open>ready\<close> the exception of \<open>PyType_Ready\<close>, if it fails. The type \<open>Executor\<close> the module
  ends up with is the pair of \<open>Executor_init\<close> and \<open>Executor_Execute\<close>.\<close>

definition PyInit_microx_core ::
  "host \<Rightarrow> bool \<Rightarrow> (string \<Rightarrow> py_exn option \<Rightarrow> bool) \<Rightarrow> py_exn option \<Rightarrow> gstate \<Rightarrow>
   (py_exn option + pymodule) \<times> gstate" where
  "PyInit_microx_core H created mk ready g =
     (case Init H g of (ok, g) \<Rightarrow>
        if \<not> ok then (Inl None, g)
        else if \<not> created then (Inl (Some PyExc_MemoryError), g)
        else (case CreateExceptions mk [] of (ok, m) \<Rightarrow>
               if \<not> ok then (Inl (Some PyExc_MemoryError), g)
               else (case ready of
                       Some e \<Rightarrow> (Inl (Some e), g)
                     | None \<Rightarrow> (Inr m, g))))"

end
