(* ===== verification/Process.thy ===== *)
theory Process
  imports PyBind
begin

text \<open>
  The Python package \<open>microx\<close> (\<open>__init__.py\<close>): \<open>ArrayMemoryMap\<close>, \<open>Memory\<close>, \<open>EmptyThread\<close>
  and \<open>Process\<close>, which implements the methods that \<open>PythonExecutor\<close> calls. Python's
  unbounded integers are \<open>int\<close>. The maps of a memory are objects that several pages share:
  a page refers to a map by its number in a heap of maps. \<open>Operations\<close> converts between
  byte strings, tuples and integers; here a byte string is a list of bytes throughout.
\<close>

section \<open>Python lists\<close>

text \<open>\<open>xs[i : j]\<close>, where a negative bound counts from the end and bounds are clipped, and the
  position of \<open>xs[i] = b\<close>, if there is one.\<close>

definition py_clip :: "nat \<Rightarrow> int \<Rightarrow> nat" where
  "py_clip n i = (if i < 0 then nat (i + int n) else min (nat i) n)"

definition py_slice :: "'a list \<Rightarrow> int \<Rightarrow> int \<Rightarrow> 'a list" where
  "py_slice xs i j =
     take (py_clip (length xs) j - py_clip (length xs) i) (drop (py_clip (length xs) i) xs)"

definition py_index :: "nat \<Rightarrow> int \<Rightarrow> nat option" where
  "py_index n i =
     (if 0 \<le> i \<and> i < int n then Some (nat i)
      else if i < 0 \<and> - int n \<le> i then Some (nat (i + int n)) else None)"

text \<open>\<open>for b in data: self._data[offset] = b; offset += 1\<close>, with the exception, if any: what
  was stored before it stays.\<close>

fun py_store :: "int \<Rightarrow> 'a list \<Rightarrow> 'a list \<Rightarrow> py_exn option \<times> 'a list" where
  "py_store offset [] d = (None, d)"
| "py_store offset (b # bs) d =
     (case py_index (length d) offset of
        None \<Rightarrow> (Some (UserException ''IndexError''), d)
      | Some k \<Rightarrow> py_store (offset + 1) bs (d[k := b]))"

section \<open>Memory maps\<close>

record ArrayMemoryMap =
  map_base :: int
  map_limit :: int
  map_read :: bool
  map_write :: bool
  map_exec :: bool
  map_data :: "u8 list"

definition ArrayMemoryMap_new :: "int \<Rightarrow> int \<Rightarrow> bool \<Rightarrow> bool \<Rightarrow> bool \<Rightarrow> py_exn + ArrayMemoryMap" where
  "ArrayMemoryMap_new base limit r w x =
     (if \<not> base < limit then Inl (UserException ''AssertionError'')
      else Inr \<lparr>map_base = base, map_limit = limit, map_read = r, map_write = w, map_exec = x,
                map_data = replicate (nat (limit - base)) 0\<rparr>)"

definition in_map :: "ArrayMemoryMap \<Rightarrow> int \<Rightarrow> bool" where
  "in_map m byte_addr \<longleftrightarrow> map_base m \<le> byte_addr \<and> byte_addr < map_limit m"

text \<open>\<open>load_byte\<close>, \<open>load_word\<close>, \<open>load_dword\<close> and \<open>load_qword\<close> are \<open>load_bytes\<close> of 1, 2, 4
  and 8 bytes, and the four stores are \<open>store_bytes\<close> of at most so many.\<close>

definition load_bytes :: "ArrayMemoryMap \<Rightarrow> int \<Rightarrow> nat \<Rightarrow> u8 list" where
  "load_bytes m addr num_bytes =
     (let offset = addr - map_base m in py_slice (map_data m) offset (offset + int num_bytes))"

definition store_bytes :: "ArrayMemoryMap \<Rightarrow> int \<Rightarrow> u8 list \<Rightarrow> py_exn option \<times> ArrayMemoryMap" where
  "store_bytes m addr data =
     (case py_store (addr - map_base m) data (map_data m) of (e, d) \<Rightarrow> (e, m\<lparr>map_data := d\<rparr>))"

section \<open>Memory\<close>

record pymemory =
  mem_bits :: nat
  page_shift :: nat
  memory_maps :: "int \<rightharpoonup> nat"
  arrays :: "nat \<Rightarrow> ArrayMemoryMap"

text \<open>A page without a map has the \<open>MemoryMap\<close> that the \<open>defaultdict\<close> makes for it, one per
  page: it permits nothing and raises on every access.\<close>

datatype map_object = ArrayMap nat | DefaultMap int

definition Memory_new :: "nat \<Rightarrow> nat \<Rightarrow> (nat \<Rightarrow> ArrayMemoryMap) \<Rightarrow> py_exn + pymemory" where
  "Memory_new address_size shift heap =
     (if address_size \<notin> {32, 64} \<or> \<not> (0 < shift \<and> shift < 32) then Inl (UserException ''AssertionError'')
      else Inr \<lparr>mem_bits = address_size, page_shift = shift, memory_maps = (\<lambda>_. None), arrays = heap\<rparr>)"

definition page_of :: "pymemory \<Rightarrow> int \<Rightarrow> int" where
  "page_of M byte_addr = drop_bit (page_shift M) (byte_addr AND mask (mem_bits M))"

definition find_map :: "pymemory \<Rightarrow> int \<Rightarrow> map_object" where
  "find_map M byte_addr =
     (case memory_maps M (page_of M byte_addr) of
        Some k \<Rightarrow> ArrayMap k | None \<Rightarrow> DefaultMap (page_of M byte_addr))"

definition crosses_pages :: "pymemory \<Rightarrow> int \<Rightarrow> nat \<Rightarrow> bool" where
  "crosses_pages M addr num_bytes \<longleftrightarrow>
     list_ex (\<lambda>i. find_map M (addr + int i) \<noteq> find_map M addr) [1..<num_bytes]"

text \<open>The loop of \<open>add_map\<close>.\<close>

function add_pages :: "nat \<Rightarrow> int \<Rightarrow> int \<Rightarrow> pymemory \<Rightarrow> pymemory" where
  "add_pages k base limit M =
     (if base < limit
      then add_pages k (base + 2 ^ page_shift M) limit
             (M\<lparr>memory_maps := (memory_maps M)(page_of M base \<mapsto> k)\<rparr>)
      else M)"
  by auto

termination by (relation "measure (\<lambda>(k, base, limit, M). nat (limit - base))") auto

declare add_pages.simps [simp del]

definition add_map :: "nat \<Rightarrow> pymemory \<Rightarrow> py_exn + pymemory" where
  "add_map k M =
     (let base = map_base (arrays M k) in
      if push_bit (page_shift M) (drop_bit (page_shift M) base) \<noteq> base
      then Inl (UserException ''AssertionError'')
      else Inr (add_pages k base (map_limit (arrays M k)) M))"

definition can_read :: "pymemory \<Rightarrow> int \<Rightarrow> bool" where
  "can_read M a = (case find_map M a of ArrayMap k \<Rightarrow> map_read (arrays M k) \<and> in_map (arrays M k) a | DefaultMap _ \<Rightarrow> False)"

definition can_write :: "pymemory \<Rightarrow> int \<Rightarrow> bool" where
  "can_write M a = (case find_map M a of ArrayMap k \<Rightarrow> map_write (arrays M k) \<and> in_map (arrays M k) a | DefaultMap _ \<Rightarrow> False)"

definition can_execute :: "pymemory \<Rightarrow> int \<Rightarrow> bool" where
  "can_execute M a = (case find_map M a of ArrayMap k \<Rightarrow> map_exec (arrays M k) \<and> in_map (arrays M k) a | DefaultMap _ \<Rightarrow> False)"

abbreviation "MemoryAccessException \<equiv> UserException ''MemoryAccessException''"

text \<open>One round of the loop in \<open>load\<close>, and the loop.\<close>

definition load_one :: "pymemory \<Rightarrow> int \<Rightarrow> py_exn + u8" where
  "load_one M a =
     (case find_map M a of
        DefaultMap _ \<Rightarrow> Inl MemoryAccessException
      | ArrayMap k \<Rightarrow> (case load_bytes (arrays M k) a 1 of [] \<Rightarrow> Inl (UserException ''IndexError'') | b # _ \<Rightarrow> Inr b))"

fun load_each :: "pymemory \<Rightarrow> int \<Rightarrow> nat \<Rightarrow> py_exn + u8 list" where
  "load_each M a 0 = Inr []"
| "load_each M a (Suc n) =
     (case load_one M a of
        Inl e \<Rightarrow> Inl e
      | Inr b \<Rightarrow> (case load_each M (a + 1) n of Inl e \<Rightarrow> Inl e | Inr bs \<Rightarrow> Inr (b # bs)))"

definition Memory_load :: "pymemory \<Rightarrow> int \<Rightarrow> nat \<Rightarrow> py_exn + u8 list" where
  "Memory_load M addr num_bytes =
     (if num_bytes \<in> {1, 2, 4, 8} \<and> \<not> crosses_pages M addr num_bytes
      then (case find_map M addr of
              DefaultMap _ \<Rightarrow> Inl MemoryAccessException
            | ArrayMap k \<Rightarrow> Inr (load_bytes (arrays M k) addr num_bytes))
      else load_each M addr num_bytes)"

definition store_in :: "map_object \<Rightarrow> int \<Rightarrow> u8 list \<Rightarrow> pymemory \<Rightarrow> py_exn option \<times> pymemory" where
  "store_in mo a data M =
     (case mo of
        DefaultMap _ \<Rightarrow> (Some MemoryAccessException, M)
      | ArrayMap k \<Rightarrow> (case store_bytes (arrays M k) a data of (e, m) \<Rightarrow> (e, M\<lparr>arrays := (arrays M)(k := m)\<rparr>)))"

fun store_each :: "int \<Rightarrow> u8 list \<Rightarrow> pymemory \<Rightarrow> py_exn option \<times> pymemory" where
  "store_each a [] M = (None, M)"
| "store_each a (b # bs) M =
     (case store_in (find_map M a) a [b] M of
        (Some e, M') \<Rightarrow> (Some e, M') | (None, M') \<Rightarrow> store_each (a + 1) bs M')"

definition Memory_store :: "int \<Rightarrow> u8 list \<Rightarrow> pymemory \<Rightarrow> py_exn option \<times> pymemory" where
  "Memory_store addr data M =
     (let num_bytes = length data in
      if num_bytes \<in> {1, 2, 4, 8} \<and> \<not> crosses_pages M addr num_bytes
      then store_in (find_map M addr) addr (take num_bytes data) M
      else store_each addr data M)"

text \<open>\<open>find_hole\<close>, given the pages in the dictionary in ascending order; \<open>addr\<close> is unbound
  after the loop where there are none.\<close>

fun hole_between :: "nat \<Rightarrow> int \<Rightarrow> int \<Rightarrow> int list \<Rightarrow> int option" where
  "hole_between shift paged_hole lowest [] = None"
| "hole_between shift paged_hole lowest (addr # mm) =
     (if lowest < addr \<and> paged_hole < lowest - addr then Some (push_bit shift lowest)
      else hole_between shift paged_hole addr mm)"

definition find_hole :: "nat \<Rightarrow> int \<Rightarrow> int list \<Rightarrow> py_exn + int option" where
  "find_hole shift hole_size mm =
     (let paged = drop_bit shift hole_size;
          paged_hole = (if 0 = paged then 1 else paged);
          MIN_ADDR = drop_bit shift 0x10000;
          MAX_ADDR = drop_bit shift 0xFFFF0000
      in case hole_between shift paged_hole MIN_ADDR mm of
           Some r \<Rightarrow> Inr (Some r)
         | None \<Rightarrow>
             if mm = [] then Inl (UserException ''UnboundLocalError'')
             else (let addr = last mm in
                   Inr (if addr < MAX_ADDR \<and> paged_hole < MAX_ADDR - addr
                        then Some (push_bit shift addr) else None)))"

section \<open>Process\<close>

text \<open>The state behind a \<open>Process\<close> that executes an \<open>EmptyThread\<close>.\<close>

record process =
  proc_memory :: pymemory
  regs :: "string \<Rightarrow> int"
  fpu_data :: "u8 list"

text \<open>\<open>int.from_bytes(val, byteorder="little")\<close>.\<close>

fun int_of_bytes :: "u8 list \<Rightarrow> int" where
  "int_of_bytes [] = 0"
| "int_of_bytes (b # bs) = uint b + 256 * int_of_bytes bs"

abbreviation (input) returned :: "'p \<Rightarrow> (py_exn + pyval) \<times> 'p" where
  "returned s \<equiv> (Inr (PyOther ''NoneType''), s)"

definition Process_read_register :: "string \<Rightarrow> RegRequestHint \<Rightarrow> process py_call" where
  "Process_read_register reg_name hint s = (Inr (PyLong (regs s reg_name)), s)"

definition Process_write_register :: "string \<Rightarrow> u8 list \<Rightarrow> process py_call" where
  "Process_write_register reg_name val s = returned (s\<lparr>regs := (regs s)(reg_name := int_of_bytes val)\<rparr>)"

definition segment_base :: "string \<Rightarrow> MemRequestHint \<Rightarrow> process \<Rightarrow> int" where
  "segment_base seg_name hint s =
     (if hint \<noteq> kAddressGeneration
      then regs s (seg_name @ ''_BASE'') AND mask (mem_bits (proc_memory s)) else 0)"

definition Process_compute_address ::
  "string \<Rightarrow> u64 \<Rightarrow> u64 \<Rightarrow> u64 \<Rightarrow> u64 \<Rightarrow> nat \<Rightarrow> MemRequestHint \<Rightarrow> process py_call" where
  "Process_compute_address seg_name base_addr index scale disp sz hint s =
     (Inr (PyLong (segment_base seg_name hint s + uint base_addr + uint index * uint scale + uint disp)), s)"

text \<open>The check of the permissions in \<open>read_memory\<close>: the exception, if any.\<close>

definition MEM_READ_HINTS :: "MemRequestHint list" where
  "MEM_READ_HINTS = [kReadOnly, kReadExecutable, kReadWrite]"

definition MEM_WRITE_HINTS :: "MemRequestHint list" where
  "MEM_WRITE_HINTS = [kWriteOnly, kReadWrite]"

definition MEM_EXEC_HINTS :: "MemRequestHint list" where
  "MEM_EXEC_HINTS = [kReadExecutable]"

definition permitted :: "MemRequestHint \<Rightarrow> pymemory \<Rightarrow> int \<Rightarrow> bool" where
  "permitted hint M byte_addr \<longleftrightarrow>
     (hint \<in> set MEM_READ_HINTS \<longrightarrow> can_read M byte_addr) \<and>
     (hint \<in> set MEM_WRITE_HINTS \<longrightarrow> can_write M byte_addr) \<and>
     (hint \<in> set MEM_EXEC_HINTS \<longrightarrow> can_execute M byte_addr)"

definition Process_read_memory :: "u64 \<Rightarrow> nat \<Rightarrow> MemRequestHint \<Rightarrow> process py_call" where
  "Process_read_memory addr num_bytes hint s =
     (if \<not> list_all (\<lambda>i. permitted hint (proc_memory s) (uint addr + int i)) [0..<num_bytes]
      then (Inl MemoryAccessException, s)
      else (case Memory_load (proc_memory s) (uint addr) num_bytes of
              Inl e \<Rightarrow> (Inl e, s) | Inr bs \<Rightarrow> (Inr (PyBytes bs), s)))"

definition Process_write_memory :: "u64 \<Rightarrow> u8 list \<Rightarrow> process py_call" where
  "Process_write_memory addr data s =
     (case Memory_store (uint addr) data (proc_memory s) of
        (Some e, M) \<Rightarrow> (Inl e, s\<lparr>proc_memory := M\<rparr>) | (None, M) \<Rightarrow> returned (s\<lparr>proc_memory := M\<rparr>))"

definition Process_read_fpu :: "process py_call" where
  "Process_read_fpu s = (Inr (PyBytes (fpu_data s)), s)"

definition Process_write_fpu :: "u8 list \<Rightarrow> process py_call" where
  "Process_write_fpu fpu s = returned (s\<lparr>fpu_data := fpu\<rparr>)"

definition Process_methods :: "(u64 \<Rightarrow> u32) \<Rightarrow> process pyobject" where
  "Process_methods fd = \<lparr>compute_address = Process_compute_address,
     read_register = Process_read_register, write_register = Process_write_register,
     read_memory = Process_read_memory, write_memory = Process_write_memory,
     read_fpu = Process_read_fpu, write_fpu = Process_write_fpu, float_of_double = fd\<rparr>"

text \<open>\<open>Process.execute\<close>: the inherited method, then one cycle of the time stamp counter for
  every instruction. No exception is pending when the method is called; a null pointer
  without one is a \<open>SystemError\<close>.\<close>

definition tick :: "nat \<Rightarrow> process \<Rightarrow> process" where
  "tick n s = s\<lparr>regs := (regs s)(''TSC'' := regs s ''TSC'' + int n)\<rparr>"

definition Process_executor :: "(u64 \<Rightarrow> u32) \<Rightarrow> process \<Rightarrow> process pystate executor" where
  "Process_executor fd s = PythonExecutor (Process_methods fd) (mem_bits (proc_memory s))"

definition Process_execute ::
  "xed \<Rightarrow> host \<Rightarrow> (u64 \<Rightarrow> u32) \<Rightarrow> nat \<Rightarrow> process world \<Rightarrow> ((py_exn + unit) \<times> process world) option" where
  "Process_execute X H fd n w =
     (if \<not> 0 < n then Some (Inl (UserException ''AssertionError''), w)
      else (case Executor_Execute X H (Some (Process_executor fd (snd w))) (Some n)
               (fst w, \<lparr>has_error = False, error = None, err_indicator = None, user = snd w\<rparr>) of
              None \<Rightarrow> None
            | Some (ok, g, s) \<Rightarrow>
                if ok then Some (Inr (), g, tick n (user s))
                else Some (Inl (case err_indicator s of Some e \<Rightarrow> e | None \<Rightarrow> UserException ''SystemError''),
                           g, user s)))"

end
