(* ===== verification/FlatMemory.thy ===== *)
theory FlatMemory
  imports Process
begin

text \<open>
  The memory of a \<open>Process\<close> as what its clients take it for: bytes at addresses. \<open>load\<close> and
  \<open>store\<close> go through pages and maps, byte by byte or in one access; the locale
  \<open>byte_memory\<close> states what they amount to, and is interpreted on them.
\<close>

section \<open>A memory of bytes\<close>

locale byte_memory =
  fixes valid :: "'m \<Rightarrow> bool" and mapped :: "'m \<Rightarrow> int \<Rightarrow> bool" and byte :: "'m \<Rightarrow> int \<Rightarrow> u8"
    and load :: "'m \<Rightarrow> int \<Rightarrow> nat \<Rightarrow> py_exn + u8 list"
    and store :: "int \<Rightarrow> u8 list \<Rightarrow> 'm \<Rightarrow> py_exn option \<times> 'm"
  assumes load_mapped: "valid M \<Longrightarrow> \<forall>i < n. mapped M (a + int i) \<Longrightarrow>
      load M a n = Inr (map (\<lambda>i. byte M (a + int i)) [0..<n])"
    and store_mapped: "valid M \<Longrightarrow> 0 \<le> a \<Longrightarrow> \<forall>i < length bs. mapped M (a + int i) \<Longrightarrow> fst (store a bs M) = None"
    and store_stored: "valid M \<Longrightarrow> 0 \<le> a \<Longrightarrow> store a bs M = (None, M') \<Longrightarrow> i < length bs \<Longrightarrow> mapped M (a + int i)"
    and store_valid: "valid M \<Longrightarrow> valid (snd (store a bs M))"
    and store_keeps: "mapped (snd (store a bs M)) b = mapped M b"
    and store_bytes: "valid M \<Longrightarrow> 0 \<le> a \<Longrightarrow> store a bs M = (None, M') \<Longrightarrow>
      byte M' b = (if a \<le> b \<and> b < a + int (length bs) then bs ! nat (b - a) else byte M b)"
begin

text \<open>A store is accepted exactly where everything is mapped.\<close>

lemma store_accepts:
  assumes "valid M" and "0 \<le> a"
  shows "fst (store a bs M) = None \<longleftrightarrow> (\<forall>i < length bs. mapped M (a + int i))"
  using assms store_mapped store_stored by (metis prod.collapse)

text \<open>What has been stored is loaded again, and a load elsewhere is not affected.\<close>

lemma load_store:
  assumes "valid M" and "0 \<le> a" and "store a bs M = (None, M')"
  shows "load M' a (length bs) = Inr bs"
proof -
  have M': "M' = snd (store a bs M)" using assms(3) by simp
  have "\<forall>i < length bs. mapped M' (a + int i)"
    using store_stored [OF assms] unfolding M' store_keeps by blast
  then have "load M' a (length bs) = Inr (map (\<lambda>i. byte M' (a + int i)) [0..<length bs])"
    using store_valid [OF assms(1), of a bs] unfolding M' by (intro load_mapped)
  moreover have "map (\<lambda>i. byte M' (a + int i)) [0..<length bs] = bs"
    by (rule nth_equalityI) (simp_all add: store_bytes [OF assms])
  ultimately show ?thesis by simp
qed

lemma load_store_other:
  assumes "valid M" and "0 \<le> a" and "store a bs M = (None, M')"
    and "\<forall>i < n. mapped M (c + int i)" and "c + int n \<le> a \<or> a + int (length bs) \<le> c"
  shows "load M' c n = load M c n"
proof -
  have M': "M' = snd (store a bs M)" using assms(3) by simp
  have "\<forall>i < n. mapped M' (c + int i)" using assms(4) unfolding M' store_keeps .
  then have "load M' c n = Inr (map (\<lambda>i. byte M' (c + int i)) [0..<n])"
    using store_valid [OF assms(1), of a bs] unfolding M' by (intro load_mapped)
  moreover have "byte M' (c + int i) = byte M (c + int i)" if "i < n" for i
    using assms(5) that by (auto simp: store_bytes [OF assms(1-3)])
  ultimately show ?thesis using load_mapped [OF assms(1,4)] by simp
qed

end

section \<open>Lists\<close>

lemma py_slice_inside:
  assumes "0 \<le> off" and "off + int n \<le> int (length d)"
  shows "py_slice d off (off + int n) = map (\<lambda>i. d ! nat (off + int i)) [0..<n]"
proof -
  have "py_clip (length d) off = nat off" "py_clip (length d) (off + int n) = nat off + n"
    using assms by (simp_all add: py_clip_def nat_add_distrib min_absorb1)
  then have "py_slice d off (off + int n) = take n (drop (nat off) d)" by (simp add: py_slice_def)
  also have "\<dots> = map (\<lambda>i. d ! nat (off + int i)) [0..<n]"
    using assms by (intro nth_equalityI) (simp_all add: nat_add_distrib nat_le_eq_zle)
  finally show ?thesis .
qed

lemma length_py_store [simp]: "length (snd (py_store off bs d)) = length d"
  by (induction bs arbitrary: off d) (simp_all split: option.split)

lemma py_store_accepts:
  assumes "0 \<le> off"
  shows "fst (py_store off bs d) = None \<longleftrightarrow> bs = [] \<or> off + int (length bs) \<le> int (length d)"
  using assms
proof (induction bs arbitrary: off d)
  case (Cons b bs)
  show ?case
  proof (cases "off < int (length d)")
    case True
    with Cons.prems have "py_index (length d) off = Some (nat off)" by (simp add: py_index_def)
    with Cons.IH [of "off + 1" "d[nat off := b]"] Cons.prems True show ?thesis by auto
  next
    case False
    with Cons.prems have "py_index (length d) off = None" by (simp add: py_index_def)
    with False show ?thesis by simp
  qed
qed simp

lemma py_store_nth:
  assumes "0 \<le> off" and "py_store off bs d = (None, d')" and "j < length d"
  shows "d' ! j = (if off \<le> int j \<and> int j < off + int (length bs) then bs ! nat (int j - off) else d ! j)"
  using assms
proof (induction bs arbitrary: off d)
  case (Cons b bs)
  have lt: "off < int (length d)"
    using py_store_accepts [OF Cons.prems(1), of "b # bs" d] Cons.prems(2) by simp
  with Cons.prems(1) have k: "py_index (length d) off = Some (nat off)" by (simp add: py_index_def)
  then have "py_store (off + 1) bs (d[nat off := b]) = (None, d')" using Cons.prems(2) by simp
  from Cons.IH [OF _ this] Cons.prems(1,3)
  have d': "d' ! j = (if off + 1 \<le> int j \<and> int j < off + 1 + int (length bs) then bs ! nat (int j - (off + 1))
      else d[nat off := b] ! j)" by simp
  show ?case
  proof (cases "int j = off")
    case True
    then have "nat off = j" by linarith
    with True d' Cons.prems(3) show ?thesis by (simp add: nth_list_update)
  next
    case False
    moreover have "nat (int j - off) = Suc (nat (int j - (off + 1)))" if "off + 1 \<le> int j" using that by simp
    ultimately show ?thesis using d' Cons.prems(1,3) by (auto simp: nth_list_update)
  qed
qed auto

section \<open>What a store leaves as it is\<close>

definition same_map :: "ArrayMemoryMap \<Rightarrow> ArrayMemoryMap \<Rightarrow> bool" where
  "same_map m m' \<longleftrightarrow> map_base m' = map_base m \<and> map_limit m' = map_limit m \<and> map_read m' = map_read m \<and>
     map_write m' = map_write m \<and> map_exec m' = map_exec m \<and> length (map_data m') = length (map_data m)"

definition same_layout :: "pymemory \<Rightarrow> pymemory \<Rightarrow> bool" where
  "same_layout M M' \<longleftrightarrow> mem_bits M' = mem_bits M \<and> page_shift M' = page_shift M \<and>
     memory_maps M' = memory_maps M \<and> (\<forall>k. same_map (arrays M k) (arrays M' k))"

interpretation layout: step_relation same_layout
  by unfold_locales (auto simp: same_layout_def same_map_def)

lemma same_layout_find [simp]: "same_layout M M' \<Longrightarrow> find_map M' = find_map M"
proof (rule ext)
  fix a assume l: "same_layout M M'"
  then have "page_of M' a = page_of M a" by (simp add: page_of_def same_layout_def)
  with l show "find_map M' a = find_map M a" by (simp add: find_map_def same_layout_def cong: option.case_cong)
qed

lemma same_layout_in_map: "same_layout M M' \<Longrightarrow> in_map (arrays M' k) = in_map (arrays M k)"
  by (rule ext) (simp add: same_layout_def same_map_def in_map_def)

lemma same_layout_can:
  assumes "same_layout M M'"
  shows "can_read M' = can_read M" and "can_write M' = can_write M" and "can_execute M' = can_execute M"
proof -
  have f: "map_read (arrays M' k) = map_read (arrays M k)" "map_write (arrays M' k) = map_write (arrays M k)"
    "map_exec (arrays M' k) = map_exec (arrays M k)" for k
    using assms by (simp_all add: same_layout_def same_map_def)
  note l = same_layout_find [OF assms] same_layout_in_map [OF assms] f
  show "can_read M' = can_read M" by (rule ext) (simp add: can_read_def l split: map_object.split)
  show "can_write M' = can_write M" by (rule ext) (simp add: can_write_def l split: map_object.split)
  show "can_execute M' = can_execute M" by (rule ext) (simp add: can_execute_def l split: map_object.split)
qed

lemma store_in_layout: "same_layout M (snd (store_in mo a bs M))"
proof (cases mo)
  case (ArrayMap k)
  obtain e d where "py_store (a - map_base (arrays M k)) bs (map_data (arrays M k)) = (e, d)" by (metis surj_pair)
  moreover from this have "length d = length (map_data (arrays M k))" by (metis length_py_store snd_conv)
  ultimately show ?thesis using ArrayMap by (simp add: store_in_def store_bytes_def same_layout_def same_map_def)
qed (simp add: store_in_def layout.R_refl)

lemma store_each_layout: "same_layout M (snd (store_each a bs M))"
proof (induction bs arbitrary: a M)
  case (Cons b bs)
  obtain e M1 where s: "store_in (find_map M a) a [b] M = (e, M1)" by (metis surj_pair)
  then have "same_layout M M1" using store_in_layout by (metis snd_conv)
  with Cons.IH [where M = M1] s layout.R_trans show ?case by (auto split: option.split)
qed (simp add: layout.R_refl)

lemma Memory_store_layout: "same_layout M (snd (Memory_store a bs M))"
  by (simp add: Memory_store_def store_in_layout store_each_layout Let_def)

section \<open>Bytes at addresses\<close>

text \<open>Every page lies in the map it refers to, below the end of the address space, and every
  map has its bytes.\<close>

definition valid_memory :: "pymemory \<Rightarrow> bool" where
  "valid_memory M \<longleftrightarrow> (\<forall>p k. memory_maps M p = Some k \<longrightarrow>
     0 \<le> map_base (arrays M k) \<and> map_base (arrays M k) \<le> p * 2 ^ page_shift M \<and>
     map_limit (arrays M k) \<le> 2 ^ mem_bits M \<and>
     int (length (map_data (arrays M k))) = map_limit (arrays M k) - map_base (arrays M k))"

definition mapped :: "pymemory \<Rightarrow> int \<Rightarrow> bool" where
  "mapped M a = (case find_map M a of ArrayMap k \<Rightarrow> in_map (arrays M k) a | DefaultMap _ \<Rightarrow> False)"

definition byte_at :: "pymemory \<Rightarrow> int \<Rightarrow> u8" where
  "byte_at M a = (case find_map M a of
     ArrayMap k \<Rightarrow> if in_map (arrays M k) a then map_data (arrays M k) ! nat (a - map_base (arrays M k)) else 0
   | DefaultMap _ \<Rightarrow> 0)"

lemma same_layout_mapped: "same_layout M M' \<Longrightarrow> mapped M' b = mapped M b"
  by (simp add: mapped_def same_layout_in_map split: map_object.split)

lemma same_layout_valid: "same_layout M M' \<Longrightarrow> valid_memory M' = valid_memory M"
  by (simp add: valid_memory_def same_layout_def same_map_def)

lemma find_map_valid:
  assumes "valid_memory M" and "find_map M a = ArrayMap k"
  shows "int (length (map_data (arrays M k))) = map_limit (arrays M k) - map_base (arrays M k)"
    and "0 \<le> a \<Longrightarrow> map_base (arrays M k) \<le> a"
proof -
  have p: "memory_maps M (page_of M a) = Some k" using assms(2) by (simp add: find_map_def split: option.splits)
  with assms(1) show "int (length (map_data (arrays M k))) = map_limit (arrays M k) - map_base (arrays M k)"
    unfolding valid_memory_def by blast
  assume "0 \<le> a"
  then have "take_bit (mem_bits M) a \<le> a" by (simp add: take_bit_int_less_eq_self_iff)
  moreover have "page_of M a * 2 ^ page_shift M \<le> take_bit (mem_bits M) a"
    by (simp add: page_of_def take_bit_eq_mask [symmetric] drop_bit_eq_div del: drop_bit_and)
      (simp add: minus_mod_eq_div_mult [symmetric])
  ultimately show "map_base (arrays M k) \<le> a" using p assms(1) unfolding valid_memory_def by (meson order_trans)
qed

lemma mapped_in: "mapped M a \<Longrightarrow> find_map M a = ArrayMap k \<Longrightarrow> in_map (arrays M k) a"
  by (simp add: mapped_def)

lemma mappedE:
  assumes "mapped M a"
  obtains k where "find_map M a = ArrayMap k" and "in_map (arrays M k) a"
    and "byte_at M a = map_data (arrays M k) ! nat (a - map_base (arrays M k))"
  using assms that by (auto simp: mapped_def byte_at_def split: map_object.splits)

lemma load_bytes_flat:
  assumes "int (length (map_data m)) = map_limit m - map_base m" and "map_base m \<le> a" and "a + int n \<le> map_limit m"
  shows "load_bytes m a n = map (\<lambda>i. map_data m ! nat (a + int i - map_base m)) [0..<n]"
  using py_slice_inside [of "a - map_base m" n "map_data m"] assms
  by (simp add: load_bytes_def Let_def algebra_simps)

lemma load_each_flat:
  assumes "valid_memory M" and "\<forall>i < n. mapped M (a + int i)"
  shows "load_each M a n = Inr (map (\<lambda>i. byte_at M (a + int i)) [0..<n])"
  using assms(2)
proof (induction n arbitrary: a)
  case (Suc n)
  then have "mapped M a" by force
  then obtain k where k: "find_map M a = ArrayMap k" "in_map (arrays M k) a"
    "byte_at M a = map_data (arrays M k) ! nat (a - map_base (arrays M k))" by (rule mappedE)
  have "load_bytes (arrays M k) a 1 = [byte_at M a]"
    using load_bytes_flat [OF find_map_valid(1) [OF assms(1) k(1)], of a 1] k(2,3) by (simp add: in_map_def)
  then have o: "load_one M a = Inr (byte_at M a)" using k(1) by (simp add: load_one_def)
  have "mapped M (a + 1 + int i)" if "i < n" for i
    using Suc.prems [rule_format, of "Suc i"] that by (simp add: algebra_simps)
  with Suc.IH [of "a + 1"] have "load_each M (a + 1) n = Inr (map (\<lambda>i. byte_at M (a + 1 + int i)) [0..<n])" by simp
  moreover have "map (\<lambda>i. byte_at M (a + int i)) [0..<Suc n] = byte_at M a # map (\<lambda>i. byte_at M (a + 1 + int i)) [0..<n]"
    by (simp add: upt_conv_Cons map_Suc_upt [symmetric] algebra_simps comp_def del: upt_Suc)
  ultimately show ?case by (simp add: o)
qed simp

lemma not_crossing: "\<not> crosses_pages M a n \<Longrightarrow> i < n \<Longrightarrow> find_map M (a + int i) = find_map M a"
  by (cases "i = 0") (auto simp: crosses_pages_def list_ex_iff)

lemma in_map_all:
  assumes "\<forall>i < n. mapped M (a + int i)" and "\<not> crosses_pages M a n" and "find_map M a = ArrayMap k" and "0 < n"
  shows "map_base (arrays M k) \<le> a" and "a + int n \<le> map_limit (arrays M k)"
proof -
  have "in_map (arrays M k) (a + int i)" if "i < n" for i
    using assms(1,3) not_crossing [OF assms(2) that] that by (intro mapped_in) simp_all
  from this [of 0] this [of "n - 1"] assms(4)
  show "map_base (arrays M k) \<le> a" "a + int n \<le> map_limit (arrays M k)" by (simp_all add: in_map_def of_nat_diff)
qed

lemma Memory_load_flat:
  assumes "valid_memory M" and "\<forall>i < n. mapped M (a + int i)"
  shows "Memory_load M a n = Inr (map (\<lambda>i. byte_at M (a + int i)) [0..<n])"
proof (cases "n \<in> {1, 2, 4, 8} \<and> \<not> crosses_pages M a n")
  case True
  then have n: "0 < n" and c: "\<not> crosses_pages M a n" by auto
  have "mapped M a" using assms(2) n by force
  then obtain k where k: "find_map M a = ArrayMap k" by (rule mappedE)
  note b = in_map_all [OF assms(2) c k n]
  have "byte_at M (a + int i) = map_data (arrays M k) ! nat (a + int i - map_base (arrays M k))" if "i < n" for i
    using not_crossing [OF c that] k b that by (simp add: byte_at_def in_map_def)
  with load_bytes_flat [OF find_map_valid(1) [OF assms(1) k] b] True k show ?thesis by (auto simp: Memory_load_def)
next
  case False
  then show ?thesis by (simp only: Memory_load_def if_not_P if_False load_each_flat [OF assms])
qed

text \<open>A store into one map.\<close>

lemma store_in_accepts:
  assumes "valid_memory M" and "find_map M a = ArrayMap k" and "map_base (arrays M k) \<le> a" and "bs \<noteq> []"
  shows "fst (store_in (find_map M a) a bs M) = None \<longleftrightarrow> a + int (length bs) \<le> map_limit (arrays M k)"
  using py_store_accepts [of "a - map_base (arrays M k)" bs "map_data (arrays M k)"] assms(2-4)
    find_map_valid(1) [OF assms(1,2)]
  by (auto simp: store_in_def store_bytes_def split: prod.split)

lemma store_in_bytes:
  assumes "valid_memory M" and "find_map M a = ArrayMap k" and "map_base (arrays M k) \<le> a"
    and "store_in (find_map M a) a bs M = (None, M')"
  shows "byte_at M' b = (if find_map M b = ArrayMap k \<and> in_map (arrays M k) b \<and> a \<le> b \<and> b < a + int (length bs)
    then bs ! nat (b - a) else byte_at M b)"
proof -
  let ?m = "arrays M k"
  obtain d where d: "py_store (a - map_base ?m) bs (map_data ?m) = (None, d)"
    and M': "M' = M\<lparr>arrays := (arrays M)(k := ?m\<lparr>map_data := d\<rparr>)\<rparr>"
    using assms(2,4) by (auto simp: store_in_def store_bytes_def split: prod.splits)
  have l: "same_layout M M'" using store_in_layout [of M "find_map M a" a bs] assms(4) by simp
  show ?thesis
  proof (cases "find_map M b = ArrayMap k \<and> in_map ?m b")
    case True
    then have b: "map_base ?m \<le> b" "nat (b - map_base ?m) < length (map_data ?m)"
      using find_map_valid(1) [OF assms(1,2)] by (auto simp: in_map_def)
    have "byte_at M' b = d ! nat (b - map_base ?m)"
      using True l same_layout_in_map [OF l, of k] by (simp add: byte_at_def M')
    also have "\<dots> = (if a \<le> b \<and> b < a + int (length bs) then bs ! nat (b - a) else map_data ?m ! nat (b - map_base ?m))"
      using py_store_nth [OF _ d b(2)] assms(3) b(1) by simp
    finally show ?thesis using True by (simp add: byte_at_def)
  next
    case False
    then have "byte_at M' b = byte_at M b"
      using l same_layout_in_map [OF l] by (auto simp: byte_at_def M' split: map_object.split)
    with False show ?thesis by auto
  qed
qed

lemma store_in_layoutD: "store_in mo a bs M = (e, M') \<Longrightarrow> same_layout M M'"
  using store_in_layout by (metis snd_conv)

text \<open>A store of one byte.\<close>

lemma store_one_accepts:
  assumes "valid_memory M" and "mapped M a"
  shows "fst (store_in (find_map M a) a [b] M) = None"
proof -
  from assms(2) obtain k where k: "find_map M a = ArrayMap k" "in_map (arrays M k) a" by (rule mappedE)
  then show ?thesis using store_in_accepts [OF assms(1) k(1), of "[b]"] by (simp add: in_map_def)
qed

lemma store_one_stored:
  assumes "valid_memory M" and "0 \<le> a" and "store_in (find_map M a) a [b] M = (None, M')"
  shows "mapped M a" and "byte_at M' c = (if c = a then b else byte_at M c)"
proof -
  obtain k where k: "find_map M a = ArrayMap k"
    using assms(3) by (cases "find_map M a") (auto simp: store_in_def)
  have base: "map_base (arrays M k) \<le> a" by (rule find_map_valid(2) [OF assms(1) k assms(2)])
  from store_in_accepts [OF assms(1) k base, of "[b]"] assms(3) have i: "in_map (arrays M k) a"
    using base by (simp add: in_map_def)
  with k show "mapped M a" by (simp add: mapped_def)
  show "byte_at M' c = (if c = a then b else byte_at M c)"
    using store_in_bytes [OF assms(1) k base assms(3), of c] k i by auto
qed

lemma store_each_spec:
  assumes "valid_memory M" and "0 \<le> a"
  shows "(\<forall>i < length bs. mapped M (a + int i)) \<Longrightarrow> fst (store_each a bs M) = None"
    and "store_each a bs M = (None, M') \<Longrightarrow> (\<forall>i < length bs. mapped M (a + int i)) \<and>
      byte_at M' c = (if a \<le> c \<and> c < a + int (length bs) then bs ! nat (c - a) else byte_at M c)"
proof -
  show "fst (store_each a bs M) = None" if "\<forall>i < length bs. mapped M (a + int i)"
    using assms that
  proof (induction bs arbitrary: a M)
    case (Cons b bs)
    have "mapped M a" using Cons.prems(3) by force
    with store_one_accepts [OF Cons.prems(1)] obtain M1 where s: "store_in (find_map M a) a [b] M = (None, M1)"
      by (metis prod.collapse)
    note l = store_in_layoutD [OF s]
    have "mapped M1 (a + 1 + int i)" if "i < length bs" for i
      using Cons.prems(3) [rule_format, of "Suc i"] that by (simp add: same_layout_mapped [OF l] algebra_simps)
    with Cons.IH [of M1 "a + 1"] Cons.prems(1,2) s show ?case by (simp add: same_layout_valid [OF l])
  qed simp
  show "(\<forall>i < length bs. mapped M (a + int i)) \<and>
      byte_at M' c = (if a \<le> c \<and> c < a + int (length bs) then bs ! nat (c - a) else byte_at M c)"
    if "store_each a bs M = (None, M')"
    using assms that
  proof (induction bs arbitrary: a M)
    case (Cons b bs)
    obtain M1 where s: "store_in (find_map M a) a [b] M = (None, M1)" and r: "store_each (a + 1) bs M1 = (None, M')"
      using Cons.prems(3) by (auto split: prod.splits option.splits)
    note l = store_in_layoutD [OF s] and o = store_one_stored [OF Cons.prems(1,2) s]
    from Cons.IH [OF _ _ r] Cons.prems(1,2)
    have ih: "\<forall>i < length bs. mapped M (a + 1 + int i)"
      "byte_at M' c = (if a + 1 \<le> c \<and> c < a + 1 + int (length bs) then bs ! nat (c - (a + 1)) else byte_at M1 c)"
      by (simp_all add: same_layout_valid [OF l] same_layout_mapped [OF l])
    have "mapped M (a + int i)" if "i < length (b # bs)" for i
      using ih(1) o(1) that by (cases i) (auto simp: algebra_simps)
    moreover have "nat (c - a) = Suc (nat (c - (a + 1)))" if "a + 1 \<le> c" using that by simp
    ultimately show ?case using ih(2) o(2) [of c] by auto
  qed auto
qed

lemma Memory_store_accepts:
  assumes "valid_memory M" and "\<forall>i < length bs. mapped M (a + int i)" and "0 \<le> a"
  shows "fst (Memory_store a bs M) = None"
proof (cases "length bs \<in> {1, 2, 4, 8} \<and> \<not> crosses_pages M a (length bs)")
  case True
  then have n: "0 < length bs" and c: "\<not> crosses_pages M a (length bs)" by auto
  then have "mapped M a" using assms(2) by force
  then obtain k where k: "find_map M a = ArrayMap k" by (rule mappedE)
  note b = in_map_all [OF assms(2) c k n]
  from store_in_accepts [OF assms(1) k b(1), of bs] n b(2) True show ?thesis by (auto simp: Memory_store_def)
next
  case False
  then show ?thesis
    by (simp only: Memory_store_def Let_def if_not_P if_False store_each_spec(1) [OF assms(1,3,2)])
qed

lemma Memory_store_stored:
  assumes "valid_memory M" and "0 \<le> a" and s: "Memory_store a bs M = (None, M')"
  shows "(\<forall>i < length bs. mapped M (a + int i)) \<and>
    byte_at M' c = (if a \<le> c \<and> c < a + int (length bs) then bs ! nat (c - a) else byte_at M c)"
proof (cases "length bs \<in> {1, 2, 4, 8} \<and> \<not> crosses_pages M a (length bs)")
  case True
  then have n: "bs \<noteq> []" and c: "\<not> crosses_pages M a (length bs)" by auto
  from True s have i: "store_in (find_map M a) a bs M = (None, M')" by (auto simp: Memory_store_def)
  then obtain k where k: "find_map M a = ArrayMap k" by (cases "find_map M a") (auto simp: store_in_def)
  have base: "map_base (arrays M k) \<le> a" by (rule find_map_valid(2) [OF assms(1) k assms(2)])
  from store_in_accepts [OF assms(1) k base n] i have lim: "a + int (length bs) \<le> map_limit (arrays M k)" by simp
  have m: "find_map M (a + int i) = ArrayMap k \<and> in_map (arrays M k) (a + int i)" if "i < length bs" for i
    using not_crossing [OF c that] k base lim that by (simp add: in_map_def)
  moreover have "find_map M c = ArrayMap k \<and> in_map (arrays M k) c" if "a \<le> c \<and> c < a + int (length bs)"
    using m [of "nat (c - a)"] that by (simp add: nat_less_iff)
  ultimately show ?thesis using store_in_bytes [OF assms(1) k base i, of c] by (auto simp: mapped_def)
next
  case False
  then have "store_each a bs M = (None, M')" using s by (simp only: Memory_store_def Let_def if_not_P if_False)
  then show ?thesis by (rule store_each_spec(2) [OF assms(1,2)])
qed

text \<open>The memory of the package is a memory of bytes.\<close>

interpretation flat: byte_memory valid_memory mapped byte_at Memory_load Memory_store
proof unfold_locales
  fix M M' :: pymemory and a b :: int and n i :: nat and bs :: "u8 list"
  show "Memory_load M a n = Inr (map (\<lambda>i. byte_at M (a + int i)) [0..<n])"
    if "valid_memory M" and "\<forall>i < n. mapped M (a + int i)" using that by (rule Memory_load_flat)
  show "mapped M (a + int i)" if "valid_memory M" and "0 \<le> a" and "Memory_store a bs M = (None, M')" and "i < length bs"
    using Memory_store_stored [OF that(1-3)] that(4) by blast
  show "byte_at M' b = (if a \<le> b \<and> b < a + int (length bs) then bs ! nat (b - a) else byte_at M b)"
    if "valid_memory M" and "0 \<le> a" and "Memory_store a bs M = (None, M')"
    using Memory_store_stored [OF that] by blast
qed (simp_all add: same_layout_valid [OF Memory_store_layout] same_layout_mapped [OF Memory_store_layout] Memory_store_accepts)

section \<open>Adding maps\<close>

lemma add_pages_keeps:
  "mem_bits (add_pages k base limit M) = mem_bits M \<and> page_shift (add_pages k base limit M) = page_shift M \<and>
   arrays (add_pages k base limit M) = arrays M"
proof (induction k base limit M rule: add_pages.induct)
  case (1 k base limit M)
  then show ?case by (cases "base < limit") (simp_all add: add_pages.simps [of k base limit M])
qed

lemma page_of_start:
  assumes "0 \<le> base" and "base < 2 ^ mem_bits M"
  shows "page_of M base = base div 2 ^ page_shift M"
proof -
  have "take_bit (mem_bits M) base = base" using assms by (simp add: take_bit_int_eq_self)
  then show ?thesis by (simp add: page_of_def take_bit_eq_mask [symmetric] drop_bit_eq_div del: drop_bit_and)
qed

text \<open>The pages that start in the map refer to it, the others to what they did.\<close>

lemma add_pages_maps:
  assumes "2 ^ page_shift M dvd base" and "0 \<le> base" and "limit \<le> 2 ^ mem_bits M"
  shows "memory_maps (add_pages k base limit M) p =
    (if base \<le> p * 2 ^ page_shift M \<and> p * 2 ^ page_shift M < limit then Some k else memory_maps M p)"
  using assms
proof (induction k base limit M rule: add_pages.induct)
  case (1 k base limit M)
  let ?s = "2 ^ page_shift M :: int"
  show ?case
  proof (cases "base < limit")
    case True
    obtain q where q: "base = q * ?s" using "1.prems"(1) by (metis dvd_div_mult_self)
    have pg: "page_of M base = q" using page_of_start [of base M] "1.prems"(2,3) True q by simp
    have "memory_maps (add_pages k (base + ?s) limit (M\<lparr>memory_maps := (memory_maps M)(page_of M base \<mapsto> k)\<rparr>)) p =
        (if base + ?s \<le> p * ?s \<and> p * ?s < limit then Some k else ((memory_maps M)(q \<mapsto> k)) p)"
      using "1.IH" [OF True] "1.prems" pg by simp
    moreover have "base + ?s \<le> p * ?s \<longleftrightarrow> q + 1 \<le> p" "base \<le> p * ?s \<longleftrightarrow> q \<le> p"
      using mult_le_cancel_right_pos [of ?s "q + 1" p] mult_le_cancel_right_pos [of ?s q p] by (simp_all add: q algebra_simps)
    moreover have "add_pages k base limit M =
        add_pages k (base + ?s) limit (M\<lparr>memory_maps := (memory_maps M)(page_of M base \<mapsto> k)\<rparr>)"
      using True by (simp add: add_pages.simps [of k base limit M])
    moreover have "q * ?s < limit" using True q by simp
    ultimately show ?thesis by auto
  next
    case False
    then show ?thesis by (auto simp: add_pages.simps [of k base limit M])
  qed
qed

definition sound_map :: "nat \<Rightarrow> ArrayMemoryMap \<Rightarrow> bool" where
  "sound_map bits m \<longleftrightarrow> 0 \<le> map_base m \<and> map_base m < map_limit m \<and> map_limit m \<le> 2 ^ bits \<and>
     int (length (map_data m)) = map_limit m - map_base m"

lemma ArrayMemoryMap_new_sound:
  "ArrayMemoryMap_new base limit r w x = Inr m \<Longrightarrow> 0 \<le> base \<Longrightarrow> limit \<le> 2 ^ bits \<Longrightarrow> sound_map bits m"
  by (auto simp: ArrayMemoryMap_new_def sound_map_def split: if_splits)

lemma Memory_new_valid: "Memory_new bits shift heap = Inr M \<Longrightarrow> valid_memory M"
  by (auto simp: Memory_new_def valid_memory_def split: if_splits)

text \<open>
  C30: adding a map to a memory keeps it valid, puts the map where it says it is and leaves
  every address of the other pages with the map it had; a map that does not start at a page
  is refused.
\<close>

theorem add_map_maps:
  assumes "valid_memory M" and "sound_map (mem_bits M) (arrays M k)"
  shows "case add_map k M of
      Inl _ \<Rightarrow> \<not> 2 ^ page_shift M dvd map_base (arrays M k)
    | Inr M' \<Rightarrow> 2 ^ page_shift M dvd map_base (arrays M k) \<and> valid_memory M' \<and>
        (\<forall>a. in_map (arrays M k) a \<longrightarrow> find_map M' a = ArrayMap k) \<and>
        (\<forall>a. page_of M a \<notin> page_of M ` {map_base (arrays M k)..<map_limit (arrays M k)} \<longrightarrow> find_map M' a = find_map M a)"
proof -
  let ?m = "arrays M k" and ?s = "2 ^ page_shift M :: int"
  let ?M = "add_pages k (map_base ?m) (map_limit ?m) M"
  note m = assms(2) [unfolded sound_map_def]
  have aligned: "push_bit (page_shift M) (drop_bit (page_shift M) (map_base ?m)) = map_base ?m \<longleftrightarrow> ?s dvd map_base ?m"
    by (auto simp: push_bit_eq_mult drop_bit_eq_div dvd_div_mult_self) (metis dvd_triv_right)
  show ?thesis
  proof (cases "?s dvd map_base ?m")
    case False
    then show ?thesis by (simp add: add_map_def aligned Let_def)
  next
    case True
    have am: "add_map k M = Inr ?M" using True aligned by (simp add: add_map_def Let_def)
    note keeps = add_pages_keeps [of k "map_base ?m" "map_limit ?m" M]
    have maps: "memory_maps ?M p = (if map_base ?m \<le> p * ?s \<and> p * ?s < map_limit ?m then Some k else memory_maps M p)" for p
      by (rule add_pages_maps [OF True]) (use m in auto)
    have page: "page_of ?M a = page_of M a" for a by (simp add: page_of_def keeps)
    have low: "page_of M a = a div ?s" if "0 \<le> a" "a < 2 ^ mem_bits M" for a using page_of_start that by simp
    have "valid_memory ?M"
      using assms(1) m unfolding valid_memory_def by (auto simp: maps keeps split: if_splits)
    moreover have "find_map ?M a = ArrayMap k" if "in_map ?m a" for a
    proof -
      have a: "map_base ?m \<le> a" "a < map_limit ?m" "0 \<le> a" "a < 2 ^ mem_bits M"
        using that m by (auto simp: in_map_def)
      have le: "a div ?s * ?s \<le> a" by (simp add: minus_mod_eq_div_mult [symmetric])
      obtain q where q: "map_base ?m = q * ?s" using True by (metis dvd_div_mult_self)
      have "map_base ?m div ?s \<le> a div ?s" by (rule zdiv_mono1 [OF a(1)]) simp
      then have "q \<le> a div ?s" by (simp add: q)
      then have "map_base ?m \<le> a div ?s * ?s" by (simp add: q)
      then show ?thesis using a(2) le by (simp add: find_map_def page maps low [OF a(3,4)])
    qed
    moreover have "find_map ?M a = find_map M a" if "page_of M a \<notin> page_of M ` {map_base ?m..<map_limit ?m}" for a
    proof -
      have "\<not> (map_base ?m \<le> page_of M a * ?s \<and> page_of M a * ?s < map_limit ?m)"
      proof
        assume r: "map_base ?m \<le> page_of M a * ?s \<and> page_of M a * ?s < map_limit ?m"
        then have "page_of M (page_of M a * ?s) = page_of M a" using low [of "page_of M a * ?s"] m by simp
        with that r show False by (metis atLeastLessThan_iff image_eqI)
      qed
      then have "memory_maps ?M (page_of M a) = memory_maps M (page_of M a)" by (simp only: maps if_False)
      then show ?thesis by (simp add: find_map_def page cong: option.case_cong)
    qed
    ultimately show ?thesis using True am by simp
  qed
qed

text \<open>A memory with one map of two pages.\<close>

definition two_pages :: pymemory where
  "two_pages = \<lparr>mem_bits = 32, page_shift = 12, memory_maps = (\<lambda>_. None),
     arrays = (\<lambda>_. \<lparr>map_base = 0x80000, map_limit = 0x82000, map_read = True, map_write = True,
        map_exec = False, map_data = replicate 0x2000 0\<rparr>)\<rparr>"

theorem add_map_maps_witness:
  "\<exists>M'. add_map 0 two_pages = Inr M' \<and> valid_memory M' \<and> find_map M' 0x81FFF = ArrayMap 0 \<and>
     find_map M' 0x82000 = find_map two_pages 0x82000"
proof -
  have h: "valid_memory two_pages" "sound_map (mem_bits two_pages) (arrays two_pages 0)"
    by (simp_all add: two_pages_def valid_memory_def sound_map_def)
  have al: "(2 :: int) ^ page_shift two_pages dvd map_base (arrays two_pages 0)" by (simp add: two_pages_def)
  have i: "in_map (arrays two_pages 0) 0x81FFF" by (simp add: two_pages_def in_map_def)
  have p: "page_of two_pages b = b div 0x1000" if "0 \<le> b" and "b < 0x100000000" for b
    using page_of_start [of b two_pages] that by (simp add: two_pages_def)
  have "page_of two_pages 0x82000 \<notin> page_of two_pages ` {map_base (arrays two_pages 0)..<map_limit (arrays two_pages 0)}"
  proof
    assume "page_of two_pages 0x82000 \<in> page_of two_pages ` {map_base (arrays two_pages 0)..<map_limit (arrays two_pages 0)}"
    then obtain a where "0x80000 \<le> a" "a < 0x82000" "page_of two_pages 0x82000 = page_of two_pages a"
      by (auto simp: two_pages_def)
    then show False by (simp add: p)
  qed
  with add_map_maps [OF h] al i show ?thesis by (cases "add_map 0 two_pages") auto
qed

section \<open>Loads and stores\<close>

text \<open>
  C29: what has been stored in a memory is loaded again from the same address, whether the
  access is one access to a map or goes byte by byte over several maps, and every load of
  other addresses gives what it gave before.
\<close>

theorem store_then_load:
  assumes "valid_memory M" and "0 \<le> a" and "Memory_store a bs M = (None, M')"
  shows "Memory_load M' a (length bs) = Inr bs \<and>
    (\<forall>c n. (\<forall>i < n. mapped M (c + int i)) \<longrightarrow> c + int n \<le> a \<or> a + int (length bs) \<le> c \<longrightarrow>
       Memory_load M' c n = Memory_load M c n)"
  using flat.load_store [OF assms] flat.load_store_other [OF assms] by blast

definition stack_page :: pymemory where
  "stack_page = two_pages\<lparr>memory_maps := (\<lambda>p. if p = 0x80 \<or> p = 0x81 then Some 0 else None)\<rparr>"

lemma stack_page_valid: "valid_memory stack_page"
  by (auto simp: valid_memory_def stack_page_def two_pages_def)

lemma stack_page_mapped:
  assumes "0x80000 \<le> a" and "a < 0x82000"
  shows "mapped stack_page a"
proof -
  have "page_of stack_page a = a div 0x1000"
    using page_of_start [of a stack_page] assms by (simp add: stack_page_def two_pages_def)
  moreover have "a div 0x1000 = 0x80 \<or> a div 0x1000 = 0x81" using assms by auto
  ultimately have "find_map stack_page a = ArrayMap 0"
    by (auto simp: find_map_def) (simp_all add: stack_page_def)
  with assms show ?thesis by (simp add: mapped_def in_map_def) (simp add: stack_page_def two_pages_def)
qed

theorem store_then_load_witness:
  "\<exists>M'. Memory_store 0x80FFE [1, 2, 3] stack_page = (None, M') \<and> Memory_load M' 0x80FFE 3 = Inr [1, 2, 3]"
proof -
  have "fst (Memory_store 0x80FFE [1, 2, 3] stack_page) = None"
    by (rule Memory_store_accepts [OF stack_page_valid]) (auto intro: stack_page_mapped)
  then obtain M' where M': "Memory_store 0x80FFE [1, 2, 3] stack_page = (None, M')" by (metis prod.collapse)
  from store_then_load [OF stack_page_valid _ this] M' show ?thesis by (simp add: numeral_3_eq_3)
qed

section \<open>Holes\<close>

lemma hole_between_none: "0 < paged_hole \<Longrightarrow> hole_between shift paged_hole lowest mm = None"
  by (induction mm arbitrary: lowest) auto

text \<open>
  \<open>find_hole\<close> never finds a hole between two maps, because its test subtracts the wrong
  way around: what it returns, if anything, is the address of the last page in use. On a
  memory without maps it fails.
\<close>

theorem find_hole_last:
  "find_hole shift (int hole_size) mm =
     (if mm = [] then Inl (UserException ''UnboundLocalError'')
      else Inr (if max 1 (drop_bit shift (int hole_size)) < drop_bit shift 0xFFFF0000 - last mm
                then Some (push_bit shift (last mm)) else None))"
proof -
  let ?p = "drop_bit shift (int hole_size)"
  have "(if 0 = q then 1 else q) = max 1 q" if "0 \<le> q" for q :: int using that by (auto simp: max_def)
  then have p: "(if 0 = ?p then 1 else ?p) = max 1 ?p" by simp
  have "hole_between shift (max 1 ?p) (drop_bit shift 0x10000) mm = None" by (rule hole_between_none) simp
  then show ?thesis unfolding find_hole_def Let_def p by auto
qed

end
