(* ===== verification/PyProps.thy ===== *)
theory PyProps
  imports Monitor PyBind
begin

text \<open>
  Properties of the binding for Python: the calling convention of the interpreter (a null
  result exactly when an exception is pending), the conversion of values in both
  directions, what becomes of exceptions raised by the user's methods, and the
  initialisation of the module.
\<close>

section \<open>The calling convention\<close>

lemma CallMethod_state:
  assumes "PyObject_CallMethod m s = (r, s')"
  shows "has_error s' = has_error s" "error s' = error s"
    "r \<noteq> None \<Longrightarrow> err_indicator s' = err_indicator s" "r = None \<Longrightarrow> err_indicator s' \<noteq> None"
  using assms by (auto simp: PyObject_CallMethod_def split: prod.splits sum.splits)

lemma ReadValue_state:
  assumes "PyReadValue py v n d s = (ok, d', s')"
  shows "ok \<Longrightarrow> s' = s \<and> \<not> has_error s"
    "err_indicator s' = err_indicator s \<or> has_error s'" "has_error s \<Longrightarrow> has_error s'"
    "user s' = user s"
  using assms by (auto simp: PyReadValue_def Let_def split: if_splits pyval.splits)

text \<open>An exception is pending only when the executor refuses further calls.\<close>

definition no_stray_exception :: "'p pystate \<Rightarrow> bool" where
  "no_stray_exception s \<longleftrightarrow> (err_indicator s \<noteq> None \<longrightarrow> has_error s)"

lemma PyComputeAddress_stray:
  "no_stray_exception s \<Longrightarrow> no_stray_exception (snd (PyComputeAddress py n nm b i sc d sz h s))"
proof -
  assume s: "no_stray_exception s"
  obtain r s1 where c: "PyObject_CallMethod (compute_address py nm b i sc d (sz div 8) h) s = (r, s1)"
    by (metis surj_pair)
  show ?thesis
  proof (cases r)
    case None
    with c s show ?thesis by (simp add: PyComputeAddress_def no_stray_exception_def Let_def)
  next
    case (Some v)
    obtain ok val s2 where v: "PyReadValue py v n 0 s1 = (ok, val, s2)" by (metis prod_cases3)
    have "no_stray_exception s1"
      using s CallMethod_state [OF c] Some by (simp add: no_stray_exception_def)
    then have "no_stray_exception s2"
      using ReadValue_state [OF v] by (auto simp: no_stray_exception_def)
    then show ?thesis using c v Some s by (simp add: PyComputeAddress_def Let_def)
  qed
qed

lemma CallMethod_stray:
  "PyObject_CallMethod m s = (Some r, s') \<Longrightarrow> no_stray_exception s \<Longrightarrow>
   no_stray_exception s' \<and> has_error s' = has_error s"
  by (auto simp: PyObject_CallMethod_def no_stray_exception_def split: prod.splits sum.splits)

lemma ReadValue_stray:
  "PyReadValue py v n d s = (True, d', s') \<Longrightarrow> no_stray_exception s \<Longrightarrow> no_stray_exception s'"
  using ReadValue_state(1) by blast

text \<open>The methods for reading, and those for writing.\<close>

lemma PyRead_stray:
  "PyReadReg py nm k rh v s = (True, v', s') \<Longrightarrow> no_stray_exception s \<Longrightarrow> no_stray_exception s'"
  "PyReadMem py a k h v s = (True, v', s') \<Longrightarrow> no_stray_exception s \<Longrightarrow> no_stray_exception s'"
  "PyReadFPU py f s = (True, f', s') \<Longrightarrow> no_stray_exception s \<Longrightarrow> no_stray_exception s'"
  by (auto simp: PyReadReg_def PyReadMem_def PyReadFPU_def
      split: if_splits prod.splits option.splits pyval.splits
      dest: CallMethod_stray ReadValue_stray)

lemma PyWrite_stray:
  "PyWriteReg py nm k v s = (True, s') \<Longrightarrow> no_stray_exception s \<Longrightarrow>
    no_stray_exception s' \<and> \<not> has_error s'"
  "PyWriteMem py a k v s = (True, s') \<Longrightarrow> no_stray_exception s \<Longrightarrow> no_stray_exception s'"
  "PyWriteFPU py f s = (True, s') \<Longrightarrow> no_stray_exception s \<Longrightarrow> no_stray_exception s'"
  by (auto simp: PyWriteReg_def PyWriteMem_def PyWriteFPU_def
      split: if_splits prod.splits dest: CallMethod_stray)

interpretation python: monitor "PythonExecutor py n" no_stray_exception "\<lambda>s. \<not> has_error s" for py n
  by unfold_locales
    (simp_all add: PythonExecutor_def PyComputeAddress_stray PyRead_stray PyWrite_stray,
     simp add: no_stray_exception_def)

lemma raise_status_null: "st \<noteq> kGood \<Longrightarrow> \<not> fst (raise_status st s) \<and> err_indicator (snd (raise_status st s)) \<noteq> None"
  by (cases st) (auto simp: raise_status_def set_err_def Let_def split: option.splits)

lemma addr_ok_python: "addr_ok (PythonExecutor py n) \<longleftrightarrow> n = 32 \<or> n = 64"
  by (simp add: addr_ok_def PythonExecutor_def)

text \<open>
  C13: \<open>execute\<close> follows the calling convention of the interpreter: whatever the user's
  methods return or raise, and wherever an instruction fails, it returns the null pointer
  exactly when an exception is pending, and \<open>True\<close> with none.
\<close>

theorem Executor_Execute_convention:
  assumes "xed_ok X" and "pc_plain X" and "Executor_init py0 (Inr n) = Inr E0"
    and "err_indicator (snd w) = None"
    and "Executor_Execute X H (Some (PythonExecutor py n)) arg w = Some (ok, w')"
  shows "ok \<longleftrightarrow> err_indicator (snd w') = None"
proof (cases arg)
  case None
  with assms(5) show ?thesis by (auto simp: Executor_Execute_def set_err_def)
next
  case (Some k)
  let ?s = "(snd w)\<lparr>has_error := False, error := None\<rparr>"
  obtain st g s where e: "Execute X H (PythonExecutor py n) k (fst w, ?s) = Some (st, g, s)"
    and r: "raise_status st s = (ok, snd w')"
    using assms(5) Some by (auto simp: Executor_Execute_def split: option.splits prod.splits)
  show ?thesis
  proof (cases "st = kGood")
    case False
    with raise_status_null [of st s] r show ?thesis by simp
  next
    case True
    have n: "addr_ok (PythonExecutor py n)"
      using assms(3) by (auto simp: addr_ok_python Executor_init_def split: if_splits)
    have "no_stray_exception ?s" using assms(4) by (simp add: no_stray_exception_def)
    then have "no_stray_exception s \<and> (0 < k \<longrightarrow> \<not> has_error s)"
      using python.Execute_monitor [OF assms(1) n assms(2)] e True by fastforce
    moreover have "s = ?s" if "k = 0" using e that by (simp add: Execute_def)
    ultimately have "err_indicator s = None"
      using assms(4) by (cases "k = 0") (auto simp: no_stray_exception_def)
    then show ?thesis using r True by (auto simp: raise_status_def)
  qed
qed

text \<open>A Python program that stands at 0x401000 in a memory of NOPs.\<close>

definition sample_py :: "string list pyobject" where
  "sample_py = \<lparr>compute_address = (\<lambda>_ b _ _ _ _ _ u. (Inr (PyLong (uint b)), u)),
     read_register = (\<lambda>nm _ u. (Inr (PyLong 0x401000), u @ [nm])),
     write_register = (\<lambda>nm _ u. (Inr (PyOther ''NoneType''), u @ [nm])),
     read_memory = (\<lambda>_ _ _ u. (Inr (PyLong 0x90), u)),
     write_memory = (\<lambda>_ _ u. (Inr (PyOther ''NoneType''), u)),
     read_fpu = (\<lambda>u. (Inr (PyBytes (replicate 512 0)), u)),
     write_fpu = (\<lambda>_ u. (Inr (PyOther ''NoneType''), u)),
     float_of_double = (\<lambda>_. 0)\<rparr>"

definition sample_pystate :: "string list pystate" where
  "sample_pystate = \<lparr>has_error = False, error = None, err_indicator = None, user = []\<rparr>"

theorem Executor_Execute_convention_witness:
  "xed_ok nop_xed \<and> pc_plain nop_xed \<and> Executor_init sample_py (Inr 64) = Inr (PythonExecutor sample_py 64) \<and>
   (\<exists>w'. Executor_Execute nop_xed sample_host (Some (PythonExecutor sample_py 64)) (Some 1)
          (sample_gstate, sample_pystate) = Some (True, w') \<and>
      err_indicator (snd w') = None)"
proof -
  have h: "xed_ok nop_xed" "pc_plain nop_xed"
    using sample_xed_ok
    by (simp_all add: nop_xed_def xed_ok_def gpr_pair_def pc_plain_def is_stack_pseudo_def sample_xed_simps)
  have i: "Executor_init sample_py (Inr 64) = Inr (PythonExecutor sample_py 64)"
    by (simp add: Executor_init_def)
  let ?r = "Executor_Execute nop_xed sample_host (Some (PythonExecutor sample_py 64)) (Some 1) (sample_gstate, sample_pystate)"
  have "map_option fst ?r = Some True" by code_simp
  then obtain w' where r: "?r = Some (True, w')" by auto
  have "err_indicator (snd (sample_gstate, sample_pystate)) = None" by (simp add: sample_pystate_def)
  from Executor_Execute_convention [OF h i this r] r h i show ?thesis by simp
qed

section \<open>Values\<close>

lemma le_bytes_take: "8 * length bs \<le> n \<Longrightarrow> take_bit n (le_bytes bs :: 'a::len word) = le_bytes bs"
  by (rule bit_word_eqI) (auto simp: bit_simps bit_le_bytes)

lemma keep_put_bytes:
  "8 * n \<le> 512 \<Longrightarrow> keep_bytes n (put_bits 0 (8 * n) v d) = (take_bit (8 * n) v :: Data)"
  by (rule bit_word_eqI) (auto simp: keep_bytes_def bit_simps)

text \<open>
  C31: a value is accepted only in three forms: bytes of exactly the length asked for,
  which become the value; a float, which becomes at most that many bytes; and an integer,
  which becomes the value whatever its size (up to 512 bits), without regard to the width
  that was asked for.
\<close>

theorem PyReadValue_accepts:
  assumes "PyReadValue py v num_bits val s = (True, d, s')"
  shows "s' = s \<and> (case v of
      PyBytes bs \<Rightarrow> length bs = min 64 ((num_bits + 7) div 8) \<and> d = le_bytes bs
    | PyLong i \<Rightarrow> i = uint d
    | PyFloat f \<Rightarrow> take_bit (8 * min 64 ((num_bits + 7) div 8)) d = d
    | PyOther tp \<Rightarrow> False)"
proof (cases v)
  case (PyBytes bs)
  define k where "k = min 64 ((num_bits + 7) div 8)"
  have "length bs = k" "s' = s" "d = keep_bytes k (put_bits 0 (8 * k) (le_bytes bs :: Data) val)"
    using assms PyBytes by (auto simp: PyReadValue_def k_def Let_def split: if_splits)
  moreover have "8 * k \<le> 512" by (simp add: k_def)
  ultimately show ?thesis
    using PyBytes keep_put_bytes [of k] le_bytes_take [of bs "8 * k"] by (simp add: k_def)
next
  case (PyLong i)
  then have "0 \<le> i" "i < 2 ^ 512" "d = word_of_int i" "s' = s"
    using assms by (auto simp: PyReadValue_def Let_def split: if_splits)
  then have "uint d = i" by (simp add: uint_word_of_int)
  with PyLong \<open>s' = s\<close> show ?thesis by simp
next
  case (PyFloat f)
  then obtain d0 where "d = keep_bytes (min 64 ((num_bits + 7) div 8)) d0" "s' = s"
    using assms by (auto simp: PyReadValue_def Let_def split: if_splits)
  with PyFloat show ?thesis by (simp add: keep_bytes_def)
next
  case (PyOther tp)
  with assms show ?thesis by (auto simp: PyReadValue_def Let_def split: if_splits)
qed

theorem PyReadValue_accepts_witness:
  "PyReadValue sample_py (PyLong 0x1FF) 8 0 sample_pystate = (True, 0x1FF, sample_pystate) \<and>
   (0x1FF :: int) = uint (0x1FF :: Data)"
proof -
  have r: "PyReadValue sample_py (PyLong 0x1FF) 8 0 sample_pystate = (True, 0x1FF, sample_pystate)"
    by (simp add: PyReadValue_def sample_pystate_def)
  from PyReadValue_accepts [OF r] r show ?thesis by simp
qed

text \<open>
  C28: if the user's \<open>write_register\<close> keeps the bytes it is given and \<open>read_register\<close> hands
  them back, then a register that was reported is read back as it was, cut to the bytes of
  its width.
\<close>

theorem python_register_roundtrip:
  assumes "PyWriteReg py nm sz d s = (True, s1)" and "sz \<le> 512"
    and "\<And>u. fst (read_register py nm h (snd (write_register py nm (word_bytes ((sz + 7) div 8) d) u)))
        = Inr (PyBytes (word_bytes ((sz + 7) div 8) d))"
  shows "\<exists>s2. PyReadReg py nm sz h val s1 = (True, take_bit (8 * ((sz + 7) div 8)) d, s2)"
proof -
  define k where "k = (sz + 7) div 8"
  have k: "k \<le> 64" using assms(2) by (simp add: k_def)
  obtain r where w: "\<not> has_error s" "PyObject_CallMethod (write_register py nm (word_bytes k d)) s = (Some r, s1)"
    using assms(1) by (auto simp: PyWriteReg_def k_def split: if_splits prod.splits)
  then have s1: "\<not> has_error s1" "user s1 = snd (write_register py nm (word_bytes k d) (user s))"
    by (auto simp: PyObject_CallMethod_def split: prod.splits sum.splits)
  have r: "fst (read_register py nm h (user s1)) = Inr (PyBytes (word_bytes k d))"
    using assms(3) [of "user s"] by (simp add: s1 k_def)
  obtain u where "read_register py nm h (user s1) = (Inr (PyBytes (word_bytes k d)), u)"
    using r by (metis prod.collapse)
  then have "PyObject_CallMethod (read_register py nm h) s1 = (Some (PyBytes (word_bytes k d)), s1\<lparr>user := u\<rparr>)"
    by (simp add: PyObject_CallMethod_def)
  moreover have "keep_bytes k (put_bits 0 (8 * k) (le_bytes (word_bytes k d) :: Data) val) = take_bit (8 * k) d"
    using k by (simp add: keep_put_bytes le_bytes_word_bytes)
  ultimately show ?thesis
    using s1(1) k by (simp add: PyReadReg_def PyReadValue_def k_def [symmetric] min_def)
qed

text \<open>A Python program that keeps the last bytes written to any register.\<close>

definition store_py :: "u8 list pyobject" where
  "store_py = \<lparr>compute_address = (\<lambda>_ b _ _ _ _ _ u. (Inr (PyLong (uint b)), u)),
     read_register = (\<lambda>_ _ u. (Inr (PyBytes u), u)),
     write_register = (\<lambda>_ bs _. (Inr (PyOther ''NoneType''), bs)),
     read_memory = (\<lambda>_ _ _ u. (Inr (PyLong 0), u)), write_memory = (\<lambda>_ _ u. (Inr (PyOther ''NoneType''), u)),
     read_fpu = (\<lambda>u. (Inr (PyLong 0), u)), write_fpu = (\<lambda>_ u. (Inr (PyOther ''NoneType''), u)),
     float_of_double = (\<lambda>_. 0)\<rparr>"

theorem python_register_roundtrip_witness:
  "let s = \<lparr>has_error = False, error = None, err_indicator = None, user = []\<rparr>;
       (ok, s1) = PyWriteReg store_py ''EAX'' 32 0x123456789 s
   in ok \<and> (\<exists>s2. PyReadReg store_py ''EAX'' 32 kGeneral 0 s1 = (True, 0x23456789, s2))"
proof -
  define s :: "u8 list pystate" where "s = \<lparr>has_error = False, error = None, err_indicator = None, user = []\<rparr>"
  obtain s1 where w: "PyWriteReg store_py ''EAX'' 32 0x123456789 s = (True, s1)"
    by (simp add: PyWriteReg_def s_def store_py_def PyObject_CallMethod_def)
  have "\<And>u. fst (read_register store_py ''EAX'' kGeneral (snd (write_register store_py ''EAX'' (word_bytes ((32 + 7) div 8) (0x123456789 :: Data)) u)))
        = Inr (PyBytes (word_bytes ((32 + 7) div 8) (0x123456789 :: Data)))"
    by (simp add: store_py_def)
  from python_register_roundtrip [OF w _ this, of 0] show ?thesis
    unfolding s_def [symmetric] by (simp add: w take_bit_eq_mod)
qed

section \<open>Exceptions of the user's methods\<close>

lemma fetch_refused:
  "has_error (snd w) \<Longrightarrow>
   fetch (PythonExecutor py n) pc k w =
     (0, fst w, (if k = 0 then snd w else (snd w)\<lparr>err_indicator := None\<rparr>))"
proof (induction k arbitrary: w)
  case 0
  then show ?case by simp
next
  case (Suc k)
  let ?w = "(fst w, (snd w)\<lparr>err_indicator := None\<rparr>)"
  have "fetch (PythonExecutor py n) pc (Suc k) w = fetch (PythonExecutor py n) pc k ?w"
    using Suc.prems by (simp add: PythonExecutor_def PyReadMem_def)
  also have "\<dots> = (0, ?w)" using Suc.IH [of ?w] Suc.prems by simp
  finally show ?case by simp
qed

lemma ReadPC_answered:
  assumes "xed_ok X" and "addr_ok E" and "pc_plain X"
    and "\<And>d0. \<exists>d s1. ReadReg E (reg_enum_t2str X (pc_reg_of X E)) (addr_size E) kProgramCounter d0 s = (True, d, s1)"
  obtains w1 where "ReadPC X E (reset_instruction X g, s) = (True, w1)"
proof -
  note f = pc_reg_facts [OF assms(1,2)]
  define r where "r = pc_reg_of X E"
  note p = pc_plainD [OF assms(1-3) r_def]
  define g0 where "g0 = (reset_instruction X g)\<lparr>gModifiedRegs := {r}\<rparr>"
  have "ReadPC X E (reset_instruction X g, s) = ReadRegister X E r kProgramCounter (g0, s)"
    by (simp add: ReadPC_def r_def pc_reg_of_def g0_def Let_def) (simp add: reset_instruction_def)
  also have "\<dots> = request_register X E r kProgramCounter (g0, s)"
    using p by (simp add: ReadRegister_def Let_def)
  finally have R: "ReadPC X E (reset_instruction X g, s) = request_register X E r kProgramCounter (g0, s)" .
  obtain d s1 where "ReadReg E (reg_enum_t2str X r) (addr_size E) kProgramCounter
      (put_bits 0 (8 * (addr_size E div 8)) (0 :: u64) (gRegs g0 (reg X XED_REG_RIP))) s = (True, d, s1)"
    using assms(4) unfolding r_def by blast
  moreover have "gUsedRegs g0 = {}" by (simp add: g0_def reset_instruction_def)
  ultimately have "fst (request_register X E r kProgramCounter (g0, s))"
    using f(2-4) by (simp add: request_register_def r_def [symmetric] Let_def)
  then show thesis using that unfolding R by (metis prod.collapse)
qed

text \<open>The first two calls of an execution on a 64-bit Python executor.\<close>

lemma first_calls:
  assumes "xed_ok X" and "pc_plain X" and "\<not> has_error s"
    and "read_register py (reg_enum_t2str X (reg X XED_REG_RIP)) kProgramCounter (user s) = (Inr (PyLong i), u1)"
    and "0 \<le> i" and "i < 2 ^ 512"
    and "compute_address py ''CS'' (word_of_int i) 0 0 0 1 kReadExecutable u1 = (Inl e, u2)"
  obtains g1 where "ReadPC X (PythonExecutor py 64) (reset_instruction X g, s) = (True, g1, s\<lparr>user := u1\<rparr>)"
    and "FetchInstruction X (PythonExecutor py 64) (g1, s\<lparr>user := u1\<rparr>) =
      (0, g1, s\<lparr>user := u2, err_indicator := None, has_error := True\<rparr>)"
proof -
  let ?E = "PythonExecutor py 64" and ?RIP = "reg_enum_t2str X (reg X XED_REG_RIP)"
  have E: "addr_size ?E = 64" "addr_ok ?E" "ReadReg ?E = PyReadReg py" "ComputeAddress ?E = PyComputeAddress py 64"
    by (simp_all add: PythonExecutor_def addr_ok_def)
  have pc: "pc_reg_of X ?E = reg X XED_REG_RIP"
    using E(1) by (simp add: pc_reg_of_def WidestRegister_pair [OF xed_ok_pairs(1) [OF assms(1)]])
  have r: "ReadReg ?E ?RIP 64 kProgramCounter d0 s = (True, word_of_int i, s\<lparr>user := u1\<rparr>)" for d0
    using assms(3-6) by (simp add: E PyReadReg_def PyObject_CallMethod_def PyReadValue_def Let_def)
  then obtain w1 where w1: "ReadPC X ?E (reset_instruction X g, s) = (True, w1)"
    using ReadPC_answered [OF assms(1) E(2) assms(2), of s g] unfolding pc E(1) by blast
  obtain d0 d s1 g1 where rr: "ReadReg ?E (reg_enum_t2str X (pc_reg_of X ?E)) (addr_size ?E) kProgramCounter d0 s = (True, d, s1)"
    and g1: "w1 = (g1, s1)" "gRegs g1 (reg X XED_REG_RIP) = d"
    by (rule ReadPC_reset [OF assms(1) E(2) assms(2) w1])
  have d: "d = word_of_int i" "s1 = s\<lparr>user := u1\<rparr>" using rr unfolding pc E(1) r by simp_all
  have "get_bits 0 64 (word_of_int i :: Data) = (word_of_int i :: u64)"
    by (rule bit_word_eqI) (auto simp: bit_simps)
  then have "GetPC X ?E g1 = word_of_int i"
    using GetPC_slot [OF assms(1) E(2), of g1 "word_of_int i"] g1(2) d(1) E(1) by (simp add: mask_pc_def)
  then have "ComputeAddress ?E ''CS'' (GetPC X ?E g1) 0 0 0 8 kReadExecutable s1 =
      (word_of_int i, s\<lparr>user := u2, err_indicator := Some e, has_error := True\<rparr>)"
    using assms(3,7) d(2)
    by (simp add: E PyComputeAddress_def PyObject_CallMethod_def Executor_ComputeAddress_def Let_def)
  then have "FetchInstruction X ?E (g1, s1) = (0, g1, s\<lparr>user := u2, err_indicator := None, has_error := True\<rparr>)"
    using fetch_refused [of "(g1, s\<lparr>user := u2, err_indicator := Some e, has_error := True\<rparr>)"]
    by (simp add: FetchInstruction_def max_inst_length_def)
  with w1 g1(1) d(2) show thesis by (intro that [of g1]) simp_all
qed

text \<open>
  C32: an exception that the user's \<open>compute_address\<close> raises while instruction bytes are
  fetched is lost. When an initialised 64-bit executor answers with its program counter and
  then raises any exception from \<open>compute_address\<close>, \<open>execute\<close> calls no further method, returns
  null, and the exception the caller sees is an \<open>InstructionFetchError\<close>, whatever was raised.
\<close>

theorem fetch_exception_lost:
  assumes "xed_ok X" and "pc_plain X" and "gIsInitialized g" and "0 < n"
    and "read_register py (reg_enum_t2str X (reg X XED_REG_RIP)) kProgramCounter (user s) = (Inr (PyLong i), u1)"
    and "0 \<le> i" and "i < 2 ^ 512"
    and "compute_address py ''CS'' (word_of_int i) 0 0 0 1 kReadExecutable u1 = (Inl e, u2)"
  shows "\<exists>g' s'. Executor_Execute X H (Some (PythonExecutor py 64)) (Some n) (g, s) = Some (False, g', s') \<and>
    err_indicator s' = Some InstructionFetchError \<and> user s' = u2"
proof -
  let ?E = "PythonExecutor py 64" and ?s = "s\<lparr>has_error := False, error := None\<rparr>"
  have s: "\<not> has_error ?s" "user ?s = user s" by simp_all
  obtain g1 where g1: "ReadPC X ?E (reset_instruction X g, ?s) = (True, g1, ?s\<lparr>user := u1\<rparr>)"
    "FetchInstruction X ?E (g1, ?s\<lparr>user := u1\<rparr>) = (0, g1, ?s\<lparr>user := u2, err_indicator := None, has_error := True\<rparr>)"
    by (rule first_calls [OF assms(1,2) s(1) _ assms(6,7,8)]) (use assms(5) s(2) in auto)
  then have "ExecuteOne X H ?E (g, ?s) = Some (kErrorReadInstMem, g1, ?s\<lparr>user := u2, err_indicator := None, has_error := True\<rparr>)"
    by (simp add: ExecuteOne_def or_return_def)
  then have "Execute X H ?E n (g, ?s) = Some (kErrorReadInstMem, g1, ?s\<lparr>user := u2, err_indicator := None, has_error := True\<rparr>)"
    using assms(3,4) by (cases n) (simp_all add: Execute_def)
  then show ?thesis by (simp add: Executor_Execute_def raise_status_def set_err_def Let_def)
qed

theorem fetch_exception_lost_witness:
  "let py = sample_py\<lparr>compute_address := (\<lambda>_ _ _ _ _ _ _ u. (Inl (UserException ''KeyError''), u))\<rparr> in
   \<exists>g' s'. Executor_Execute nop_xed sample_host (Some (PythonExecutor py 64)) (Some 1) (sample_gstate, sample_pystate) =
       Some (False, g', s') \<and> err_indicator s' = Some InstructionFetchError \<and> user s' = [''RIP'']"
proof -
  define py where "py = sample_py\<lparr>compute_address := (\<lambda>_ _ _ _ _ _ _ u. (Inl (UserException ''KeyError''), u))\<rparr>"
  have x: "xed_ok nop_xed" "pc_plain nop_xed"
    using sample_xed_ok
    by (simp_all add: nop_xed_def xed_ok_def gpr_pair_def pc_plain_def is_stack_pseudo_def sample_xed_simps)
  have "reg_enum_t2str nop_xed (reg nop_xed XED_REG_RIP) = ''RIP''" by code_simp
  then have h: "gIsInitialized sample_gstate" "(0 :: nat) < 1"
    "read_register py (reg_enum_t2str nop_xed (reg nop_xed XED_REG_RIP)) kProgramCounter (user sample_pystate) =
      (Inr (PyLong 0x401000), [''RIP''])"
    "(0 :: int) \<le> 0x401000" "(0x401000 :: int) < 2 ^ 512"
    "compute_address py ''CS'' (word_of_int 0x401000) 0 0 0 1 kReadExecutable [''RIP''] =
      (Inl (UserException ''KeyError''), [''RIP''])"
    by (simp_all add: py_def sample_py_def sample_pystate_def sample_gstate_def)
  from fetch_exception_lost [OF x h] show ?thesis unfolding py_def [symmetric] Let_def .
qed

text \<open>
  If \<open>compute_address\<close> returns a value that is neither bytes, an integer nor a float,
  no exception is raised: the default address is used, and the \<open>TypeError\<close> that was
  noted does not stop the instruction.
\<close>

theorem compute_address_type_ignored:
  assumes "compute_address py nm b i sc d (sz div 8) h (user s) = (Inr (PyOther tp), u)"
    and "\<not> has_error s"
  shows "PyComputeAddress py n nm b i sc d sz h s =
    (Executor_ComputeAddress b i sc d, s\<lparr>user := u, error := Some PyExc_TypeError\<rparr>)"
  using assms by (simp add: PyComputeAddress_def PyObject_CallMethod_def PyReadValue_def Let_def)

theorem compute_address_type_ignored_witness:
  "let py = sample_py\<lparr>compute_address := (\<lambda>_ _ _ _ _ _ _ u. (Inr (PyOther ''str''), u))\<rparr>
   in PyComputeAddress py 64 ''DS'' 0x1000 2 8 4 64 kReadOnly sample_pystate =
     (0x1014, sample_pystate\<lparr>error := Some PyExc_TypeError\<rparr>)"
proof -
  let ?py = "sample_py\<lparr>compute_address := (\<lambda>_ _ _ _ _ _ _ u. (Inr (PyOther ''str''), u))\<rparr>"
  have h: "compute_address ?py ''DS'' 0x1000 2 8 4 (64 div 8) kReadOnly (user sample_pystate) =
      (Inr (PyOther ''str''), user sample_pystate)" "\<not> has_error sample_pystate"
    by (simp_all add: sample_pystate_def)
  from compute_address_type_ignored [OF h, of 64] show ?thesis
    by (simp add: Executor_ComputeAddress_def sample_pystate_def)
qed

section \<open>The module\<close>

lemma CreateExceptions_names:
  "CreateExceptions mk m = (True, m') \<Longrightarrow> m' = m @ map (\<lambda>(e, name, base). (name, e)) module_exceptions"
  by (auto simp: CreateExceptions_def module_exceptions_def split: if_splits)

text \<open>
  A module object is returned only with the globals initialised and with the five
  exceptions; every null pointer comes with an exception set, except when the executable
  page could not be mapped.
\<close>

theorem PyInit_result:
  "case PyInit_microx_core H created mk ready g of
     (Inr m, g') \<Rightarrow> gIsInitialized g' \<and>
       map fst m = [''MicroxError'', ''InstructionDecodeError'', ''InstructionFetchError'',
                    ''AddressFaultError'', ''UnsupportedError'']
   | (Inl e, g') \<Rightarrow> (e = None) = (\<not> gIsInitialized g \<and> \<not> mmap_exec_area H (exec_area_address H))"
proof -
  obtain ok g' where i: "Init H g = (ok, g')" by (metis surj_pair)
  have ok: "ok = (gIsInitialized g \<or> mmap_exec_area H (exec_area_address H))" "ok = gIsInitialized g'"
    using i by (auto simp: Init_def split: if_splits)
  obtain mok m where c: "CreateExceptions mk [] = (mok, m)" by (metis surj_pair)
  have "map fst m = [''MicroxError'', ''InstructionDecodeError'', ''InstructionFetchError'',
      ''AddressFaultError'', ''UnsupportedError'']" if mok
    using CreateExceptions_names [of mk "[]" m] c that by (simp add: module_exceptions_def)
  then show ?thesis
    using ok c by (auto simp: PyInit_microx_core_def i split: option.splits)
qed

end
