(* ===== verification/ReadOnly.thy ===== *)
theory ReadOnly
  imports Guarded FlatMemory PyProps
begin

text \<open>
  The permissions of the memory maps of the Python package, through all layers:
  \<open>Process.write_memory\<close> checks none, and read-only maps are safe all the same, because
  \<open>Execute\<close> asks before it writes and \<open>Process.read_memory\<close> refuses to announce a write to
  a map that does not allow it.
\<close>

section \<open>Stores and permissions\<close>

text \<open>The layout is as it was and so are the maps that cannot be written.\<close>

definition kept_read_only :: "pymemory \<Rightarrow> pymemory \<Rightarrow> bool" where
  "kept_read_only M M' \<longleftrightarrow> same_layout M M' \<and>
     (\<forall>k. \<not> map_write (arrays M k) \<longrightarrow> map_data (arrays M' k) = map_data (arrays M k))"

interpretation read_only: step_relation kept_read_only
  by unfold_locales (auto simp: kept_read_only_def layout.R_refl same_layout_def same_map_def)

lemma store_in_read_only:
  assumes "can_write M a"
  shows "kept_read_only M (snd (store_in (find_map M a) a bs M))"
proof -
  obtain k where k: "find_map M a = ArrayMap k" "map_write (arrays M k)"
    using assms by (auto simp: can_write_def split: map_object.splits)
  then have "\<not> map_write (arrays M j) \<Longrightarrow> arrays (snd (store_in (find_map M a) a bs M)) j = arrays M j" for j
    by (auto simp: store_in_def split: prod.split)
  with store_in_layout show ?thesis by (simp add: kept_read_only_def)
qed

lemma store_each_read_only:
  "\<forall>i < length bs. can_write M (a + int i) \<Longrightarrow> kept_read_only M (snd (store_each a bs M))"
proof (induction bs arbitrary: a M)
  case (Cons b bs)
  have "can_write M a" using Cons.prems by force
  obtain e M1 where s: "store_in (find_map M a) a [b] M = (e, M1)" by (metis surj_pair)
  then have 1: "kept_read_only M M1" using store_in_read_only [OF \<open>can_write M a\<close>, of "[b]"] by simp
  have "\<forall>i < length bs. can_write M1 (a + 1 + int i)"
    using Cons.prems 1 same_layout_can(2) [of M M1] by (auto simp: kept_read_only_def algebra_simps)
  from read_only.R_trans [OF 1 Cons.IH [OF this]] s 1 show ?case by (auto split: option.split)
qed (simp add: read_only.R_refl)

lemma Memory_store_read_only:
  assumes "\<forall>i < length bs. can_write M (a + int i)"
  shows "kept_read_only M (snd (Memory_store a bs M))"
proof (cases "length bs \<in> {1, 2, 4, 8} \<and> \<not> crosses_pages M a (length bs)")
  case True
  then have "0 < length bs" by auto
  then have "can_write M a" using assms by force
  from store_in_read_only [OF this] True show ?thesis by (auto simp: Memory_store_def)
next
  case False
  then show ?thesis using store_each_read_only [OF assms] by (simp only: Memory_store_def Let_def if_not_P if_False)
qed

lemma kept_read_only_byte:
  assumes "kept_read_only M M'" and "\<not> can_write M b"
  shows "byte_at M' b = byte_at M b"
proof -
  have l: "same_layout M M'" and w: "\<And>k. \<not> map_write (arrays M k) \<Longrightarrow> map_data (arrays M' k) = map_data (arrays M k)"
    using assms(1) by (auto simp: kept_read_only_def)
  have base: "map_base (arrays M' k) = map_base (arrays M k)" for k using l by (simp add: same_layout_def same_map_def)
  show ?thesis
  proof (cases "find_map M b")
    case (ArrayMap k)
    show ?thesis
    proof (cases "in_map (arrays M k) b")
      case True
      with ArrayMap assms(2) have "\<not> map_write (arrays M k)" by (simp add: can_write_def)
      from w [OF this] ArrayMap show ?thesis by (simp add: byte_at_def same_layout_find [OF l] same_layout_in_map [OF l] base)
    qed (simp add: byte_at_def same_layout_find [OF l] same_layout_in_map [OF l] ArrayMap)
  qed (simp add: byte_at_def same_layout_find [OF l])
qed

section \<open>The executor of a process\<close>

definition process_memory :: "process pystate \<Rightarrow> pymemory" where
  "process_memory s = proc_memory (user s)"

definition write_granted :: "pymemory \<Rightarrow> u64 \<Rightarrow> nat \<Rightarrow> bool" where
  "write_granted M a n \<longleftrightarrow> (\<forall>i < n div 8. can_write M (uint a + int i))"

lemma user_CallMethod: "user (snd (PyObject_CallMethod m s)) = snd (m (user s))"
  by (simp add: PyObject_CallMethod_def split: prod.split sum.split)

lemma user_ReadValue: "user (snd (snd (PyReadValue py v n d s))) = user s"
  by (simp add: PyReadValue_def Let_def split: pyval.split)

lemma Process_executor_fields:
  "ComputeAddress (Process_executor fd p) = PyComputeAddress (Process_methods fd) (mem_bits (proc_memory p))"
  "ReadReg (Process_executor fd p) = PyReadReg (Process_methods fd)"
  "WriteReg (Process_executor fd p) = PyWriteReg (Process_methods fd)"
  "ReadMem (Process_executor fd p) = PyReadMem (Process_methods fd)"
  "WriteMem (Process_executor fd p) = PyWriteMem (Process_methods fd)"
  "ReadFPU (Process_executor fd p) = PyReadFPU (Process_methods fd)"
  "WriteFPU (Process_executor fd p) = PyWriteFPU (Process_methods fd)"
  "ClearFetchError (Process_executor fd p) = (\<lambda>s. s\<lparr>err_indicator := None\<rparr>)"
  "addr_size (Process_executor fd p) = mem_bits (proc_memory p)"
  "has_avx (Process_executor fd p) = False" "has_avx512 (Process_executor fd p) = False"
  by (simp_all add: Process_executor_def PythonExecutor_def)

lemma user_id [simp]: "s\<lparr>user := user s\<rparr> = s"
  by (cases s) simp

text \<open>The calls of the methods.\<close>

lemma Process_calls:
  "PyObject_CallMethod (compute_address (Process_methods fd) nm b i sc d n h) s =
     (Some (PyLong (segment_base nm h (user s) + uint b + uint i * uint sc + uint d)), s)"
  "PyObject_CallMethod (read_register (Process_methods fd) nm rh) s = (Some (PyLong (regs (user s) nm)), s)"
  "PyObject_CallMethod (write_register (Process_methods fd) nm bs) s =
     (Some (PyOther ''NoneType''), s\<lparr>user := (user s)\<lparr>regs := (regs (user s))(nm := int_of_bytes bs)\<rparr>\<rparr>)"
  "PyObject_CallMethod (read_fpu (Process_methods fd)) s = (Some (PyBytes (fpu_data (user s))), s)"
  "PyObject_CallMethod (write_fpu (Process_methods fd) bs) s =
     (Some (PyOther ''NoneType''), s\<lparr>user := (user s)\<lparr>fpu_data := bs\<rparr>\<rparr>)"
  by (simp_all add: PyObject_CallMethod_def Process_methods_def Process_compute_address_def Process_read_register_def
      Process_write_register_def Process_read_fpu_def Process_write_fpu_def)

lemma Process_call_read_memory:
  "PyObject_CallMethod (read_memory (Process_methods fd) a n h) s =
     (if \<not> list_all (\<lambda>i. permitted h (process_memory s) (uint a + int i)) [0..<n]
      then (None, s\<lparr>err_indicator := Some MemoryAccessException\<rparr>)
      else case Memory_load (process_memory s) (uint a) n of
        Inl e \<Rightarrow> (None, s\<lparr>err_indicator := Some e\<rparr>) | Inr bs \<Rightarrow> (Some (PyBytes bs), s))"
  by (cases s) (simp add: PyObject_CallMethod_def Process_methods_def Process_read_memory_def process_memory_def
      split: sum.split)

lemma Process_call_write_memory:
  "PyObject_CallMethod (write_memory (Process_methods fd) a bs) s =
     (case Memory_store (uint a) bs (process_memory s) of (e, M) \<Rightarrow>
        (case e of None \<Rightarrow> (Some (PyOther ''NoneType''), s\<lparr>user := (user s)\<lparr>proc_memory := M\<rparr>\<rparr>)
         | Some e \<Rightarrow> (None, s\<lparr>user := (user s)\<lparr>proc_memory := M\<rparr>, err_indicator := Some e\<rparr>)))"
  by (cases s) (simp add: PyObject_CallMethod_def Process_methods_def Process_write_memory_def process_memory_def
      split: prod.split option.split)

lemma process_memory_fields [simp]:
  "process_memory (s\<lparr>has_error := b\<rparr>) = process_memory s" "process_memory (s\<lparr>error := e\<rparr>) = process_memory s"
  "process_memory (s\<lparr>err_indicator := i\<rparr>) = process_memory s" "process_memory (s\<lparr>user := u\<rparr>) = proc_memory u"
  by (simp_all add: process_memory_def)

lemma Process_calls_keep:
  "process_memory (snd (PyComputeAddress (Process_methods fd) k nm b i sc d n h s)) = process_memory s"
  "process_memory (snd (snd (PyReadReg (Process_methods fd) nm n rh v s))) = process_memory s"
  "process_memory (snd (snd (PyReadMem (Process_methods fd) a n h v s))) = process_memory s"
  "process_memory (snd (snd (PyReadFPU (Process_methods fd) f s))) = process_memory s"
  "process_memory (snd (PyWriteReg (Process_methods fd) nm n v s)) = process_memory s"
  "process_memory (snd (PyWriteFPU (Process_methods fd) f s)) = process_memory s"
proof -
  have v: "process_memory (snd (snd (PyReadValue py r n d s))) = process_memory s" for py r n d s
    by (simp add: process_memory_def user_ReadValue)
  show "process_memory (snd (PyComputeAddress (Process_methods fd) k nm b i sc d n h s)) = process_memory s"
    by (simp add: PyComputeAddress_def Process_calls split: prod.split) (metis v snd_conv)
  show "process_memory (snd (snd (PyReadReg (Process_methods fd) nm n rh v s))) = process_memory s"
    by (simp add: PyReadReg_def Process_calls v)
  show "process_memory (snd (snd (PyReadMem (Process_methods fd) a n h v s))) = process_memory s"
    by (simp add: PyReadMem_def Process_call_read_memory v split: sum.split)
  show "process_memory (snd (snd (PyReadFPU (Process_methods fd) f s))) = process_memory s"
    by (simp add: PyReadFPU_def Process_calls)
  show "process_memory (snd (PyWriteReg (Process_methods fd) nm n v s)) = process_memory s"
    by (simp add: PyWriteReg_def Process_calls process_memory_def)
  show "process_memory (snd (PyWriteFPU (Process_methods fd) f s)) = process_memory s"
    by (simp add: PyWriteFPU_def Process_calls process_memory_def)
qed

text \<open>What has been announced as written can be written, and a write only changes that.\<close>

lemma Process_asked:
  assumes "h = kWriteOnly \<or> h = kReadWrite" and "PyReadMem (Process_methods fd) a n h v s = (True, v', s')"
  shows "write_granted (process_memory s) a n"
proof -
  have "list_all (\<lambda>i. permitted h (process_memory s) (uint a + int i)) [0..<n div 8]"
    using assms(2) by (auto simp: PyReadMem_def Process_call_read_memory split: if_splits)
  then show ?thesis
    using assms(1) by (auto simp: write_granted_def list_all_iff permitted_def MEM_WRITE_HINTS_def)
qed

lemma Process_granted:
  assumes "write_granted (process_memory s) a n"
  shows "kept_read_only (process_memory s) (process_memory (snd (PyWriteMem (Process_methods fd) a n v s)))"
proof -
  have "\<forall>i < length (word_bytes (n div 8) v). can_write (process_memory s) (uint a + int i)"
    using assms by (simp add: write_granted_def)
  from Memory_store_read_only [OF this] show ?thesis
    by (auto simp: PyWriteMem_def Process_call_write_memory read_only.R_refl split: prod.split option.split)
qed

lemma write_granted_stays: "kept_read_only M M' \<Longrightarrow> write_granted M' = write_granted M"
  using same_layout_can(2) [of M M'] by (intro ext) (simp add: write_granted_def kept_read_only_def)

interpretation process: grantor "Process_executor fd p" process_memory write_granted kept_read_only for fd p
  by unfold_locales
    (simp_all add: Process_executor_fields Process_calls_keep Process_asked Process_granted read_only.R_refl write_granted_stays,
     rule read_only.R_trans)

section \<open>Whole executions\<close>

lemma user_raise_status: "user (snd (raise_status st s)) = user s"
  by (simp add: raise_status_def set_err_def Let_def split: ExecutorStatus.split option.split)

lemma Executor_Execute_user:
  assumes "Executor_Execute X H (Some E) (Some n) w = Some (ok, g', s')"
  obtains st s1 where "Execute X H E n (fst w, (snd w)\<lparr>has_error := False, error := None\<rparr>) = Some (st, g', s1)"
    and "raise_status st s1 = (ok, s')" and "user s' = user s1"
proof -
  obtain st g1 s1 where e: "Execute X H E n (fst w, (snd w)\<lparr>has_error := False, error := None\<rparr>) = Some (st, g1, s1)"
    using assms by (auto simp: Executor_Execute_def split: option.splits)
  with assms have "raise_status st s1 = (ok, s')" "g1 = g'"
    by (auto simp: Executor_Execute_def split: prod.splits)
  with e that [of st s1] user_raise_status [of st s1] show thesis by simp
qed

text \<open>The steps of \<open>Process.execute\<close>.\<close>

definition start :: "process \<Rightarrow> process pystate" where
  "start p = \<lparr>has_error = False, error = None, err_indicator = None, user = p\<rparr>"

lemma Process_execute_cases:
  assumes "Process_execute X H fd n (g, p) = Some (r, g', p')"
  obtains (refused) "n = 0" and "g' = g" and "p' = p" and "r = Inl (UserException ''AssertionError'')"
  | (ran) st s1 where "0 < n" and "Execute X H (Process_executor fd p) n (g, start p) = Some (st, g', s1)"
    and "p' = (if r = Inr () then tick n (user s1) else user s1)" and "r = Inr () \<longleftrightarrow> st = kGood"
proof (cases "n = 0")
  case True
  with assms refused show thesis by (simp add: Process_execute_def)
next
  case False
  then obtain ok s2 where e: "Executor_Execute X H (Some (Process_executor fd p)) (Some n) (g, start p) = Some (ok, g', s2)"
    and r: "p' = (if ok then tick n (user s2) else user s2)" "r = Inr () \<longleftrightarrow> ok"
    using assms by (auto simp: Process_execute_def start_def split: option.splits if_splits)
  obtain st s1 where x: "Execute X H (Process_executor fd p) n (g, start p) = Some (st, g', s1)"
    and st: "raise_status st s1 = (ok, s2)" "user s2 = user s1"
    by (rule Executor_Execute_user [OF e]) (simp add: start_def)
  have "ok \<longleftrightarrow> st = kGood"
    using st(1) raise_status_null [of st s1] by (auto simp: raise_status_def)
  with ran [OF _ x] False r st(2) show thesis by simp
qed

lemma proc_memory_tick [simp]: "proc_memory (tick n p) = proc_memory p"
  by (simp add: tick_def)

text \<open>
  C7: whatever a process executes and however it ends, the maps of its memory stay as they
  are but for their bytes, and a byte of a map that cannot be written keeps its value, on
  the assumption that XED never reports an operand of address generation as written. This
  rests on the order of the calls in the executor alone: \<open>write_memory\<close> checks nothing.
\<close>

theorem read_only_bytes:
  assumes "agen_never_written X" and "Process_execute X H fd n (g, p) = Some (r, g', p')"
  shows "same_layout (proc_memory p) (proc_memory p') \<and>
    (\<forall>a. \<not> can_write (proc_memory p) a \<longrightarrow> byte_at (proc_memory p') a = byte_at (proc_memory p) a)"
proof -
  have "kept_read_only (proc_memory p) (proc_memory p')"
    using assms(2)
  proof (cases rule: Process_execute_cases)
    case refused
    then show ?thesis by (simp add: read_only.R_refl)
  next
    case (ran st s1)
    from process.Execute_within [OF assms(1) ran(2)] ran(3) show ?thesis
      by (simp add: process_memory_def start_def)
  qed
  with kept_read_only_byte show ?thesis unfolding kept_read_only_def by blast
qed

text \<open>A process with two bytes of code.\<close>

definition code_process :: process where
  "code_process = \<lparr>proc_memory = \<lparr>mem_bits = 64, page_shift = 12, memory_maps = [1 \<mapsto> 0],
     arrays = (\<lambda>_. \<lparr>map_base = 0x1000, map_limit = 0x1002, map_read = True, map_write = False,
        map_exec = True, map_data = [0x90, 0x90]\<rparr>)\<rparr>,
     regs = (\<lambda>nm. if nm = ''RIP'' then 0x1000 else 0), fpu_data = replicate 512 0\<rparr>"

lemma nop_process_runs:
  "map_option (\<lambda>(r, g, p). (r, regs p ''RIP'', regs p ''TSC'')) (Process_execute nop_xed sample_host (\<lambda>_. 0) 1 (sample_gstate, code_process))
     = Some (Inr (), 0x1001, 1)"
  by code_simp

theorem read_only_bytes_witness:
  "\<exists>g' p'. Process_execute nop_xed sample_host (\<lambda>_. 0) 1 (sample_gstate, code_process) = Some (Inr (), g', p') \<and>
     regs p' ''RIP'' = 0x1001 \<and> byte_at (proc_memory p') 0x1000 = 0x90"
proof -
  obtain g' p' where r: "Process_execute nop_xed sample_host (\<lambda>_. 0) 1 (sample_gstate, code_process) = Some (Inr (), g', p')"
    and rip: "regs p' ''RIP'' = 0x1001" using nop_process_runs by auto
  have "agen_never_written nop_xed"
    by (simp add: agen_never_written_def agen_read_only_def nop_xed_def nop_inst_def sample_inst_def)
  from read_only_bytes [OF this r] have "\<not> can_write (proc_memory code_process) 0x1000 \<longrightarrow>
      byte_at (proc_memory p') 0x1000 = byte_at (proc_memory code_process) 0x1000" by blast
  moreover have "\<not> can_write (proc_memory code_process) 0x1000" by code_simp
  moreover have "byte_at (proc_memory code_process) 0x1000 = 0x90" by code_simp
  ultimately show ?thesis using r rip by simp
qed

end
