(* ===== verification/Simulation.thy ===== *)
theory Simulation
  imports EndToEnd
begin

text \<open>
  Simulation of the good runs of an executor: where its methods succeed, another executor's
  methods do the same on an abstraction of the machine state, so successful executions of
  the one are successful executions of the other. Unlike the data refinement of
  \<open>Abstraction\<close>, the two may fail differently, and the state has an invariant.
\<close>

section \<open>Steps that follow each other\<close>

definition follows :: "('v \<Rightarrow> bool) \<Rightarrow> ('v \<Rightarrow> 'w) \<Rightarrow> ('v \<Rightarrow> bool \<times> 'v) \<Rightarrow> ('w \<Rightarrow> bool \<times> 'w) \<Rightarrow> bool" where
  "follows P h a b \<longleftrightarrow> (\<forall>w w'. P w \<longrightarrow> a w = (True, w') \<longrightarrow> b (h w) = (True, h w') \<and> P w')"

definition leads ::
  "('v \<Rightarrow> bool) \<Rightarrow> ('v \<Rightarrow> 'w) \<Rightarrow> ('v \<Rightarrow> (ExecutorStatus \<times> 'v) option) \<Rightarrow> ('w \<Rightarrow> (ExecutorStatus \<times> 'w) option) \<Rightarrow> bool" where
  "leads P h k l \<longleftrightarrow> (\<forall>w w'. P w \<longrightarrow> k w = Some (kGood, w') \<longrightarrow> l (h w) = Some (kGood, h w') \<and> P w')"

lemma followsI: "(\<And>w w'. P w \<Longrightarrow> a w = (True, w') \<Longrightarrow> b (h w) = (True, h w') \<and> P w') \<Longrightarrow> follows P h a b"
  by (simp add: follows_def)

lemma followsD: "follows P h a b \<Longrightarrow> P w \<Longrightarrow> a w = (True, w') \<Longrightarrow> b (h w) = (True, h w') \<and> P w'"
  by (simp add: follows_def)

lemma leadsI: "(\<And>w w'. P w \<Longrightarrow> k w = Some (kGood, w') \<Longrightarrow> l (h w) = Some (kGood, h w') \<and> P w') \<Longrightarrow> leads P h k l"
  by (simp add: leads_def)

lemma leadsD: "leads P h k l \<Longrightarrow> P w \<Longrightarrow> k w = Some (kGood, w') \<Longrightarrow> l (h w) = Some (kGood, h w') \<and> P w'"
  by (simp add: leads_def)

lemma follows_each:
  assumes "\<And>x. follows P h (f x) (f' x)"
  shows "follows P h (each f xs) (each f' xs)"
proof (induction xs)
  case Nil
  show ?case by (simp add: follows_def)
next
  case (Cons x xs)
  show ?case
  proof (rule followsI)
    fix w w' assume w: "P w" "each f (x # xs) w = (True, w')"
    then obtain u where u: "f x w = (True, u)" "each f xs u = (True, w')" by (auto split: prod.splits if_splits)
    with followsD [OF assms w(1)] have "f' x (h w) = (True, h u)" "P u" by blast+
    with followsD [OF Cons.IH _ u(2)] show "each f' (x # xs) (h w) = (True, h w') \<and> P w'" by simp
  qed
qed

lemma follows_and_also:
  assumes "follows P h a a'" and "follows P h b b'"
  shows "follows P h (and_also a b) (and_also a' b')"
proof (rule followsI)
  fix w w' assume w: "P w" "and_also a b w = (True, w')"
  then obtain u where u: "a w = (True, u)" "b u = (True, w')" by (auto simp: and_also_def split: prod.splits if_splits)
  with followsD [OF assms(1) w(1)] have "a' (h w) = (True, h u)" "P u" by blast+
  with followsD [OF assms(2) _ u(2)] show "and_also a' b' (h w) = (True, h w') \<and> P w'" by (simp add: and_also_def)
qed

lemma leads_or_return:
  assumes "follows P h a a'" and "leads P h k k'" and "err \<noteq> kGood"
  shows "leads P h (or_return a err k) (or_return a' err k')"
proof (rule leadsI)
  fix w w' assume w: "P w" "or_return a err k w = Some (kGood, w')"
  then obtain u where u: "a w = (True, u)" "k u = Some (kGood, w')" using or_return_good [OF w(2) assms(3)] by blast
  with followsD [OF assms(1) w(1)] have "a' (h w) = (True, h u)" "P u" by blast+
  with leadsD [OF assms(2) _ u(2)] show "or_return a' err k' (h w) = Some (kGood, h w') \<and> P w'"
    by (simp add: or_return_def)
qed

lemma through_eq: "through h p = (fst p, h (snd p))"
  by (cases p) simp

section \<open>The methods\<close>

locale simulation = same_features E1 E2 for E1 :: "'s executor" and E2 :: "'t executor" +
  fixes I :: "'s \<Rightarrow> bool" and alpha :: "'s \<Rightarrow> 't"
  assumes address: "I s \<Longrightarrow> ComputeAddress E1 nm b i sc d n mh s = (a, s') \<Longrightarrow>
      ComputeAddress E2 nm b i sc d n mh (alpha s) = (a, alpha s') \<and> I s'"
    and readreg: "I s \<Longrightarrow> ReadReg E1 nm n rh v s = (True, v', s') \<Longrightarrow>
      ReadReg E2 nm n rh v (alpha s) = (True, v', alpha s') \<and> I s'"
    and readmem: "I s \<Longrightarrow> mh \<noteq> kAddressGeneration \<Longrightarrow> ReadMem E1 a n mh v s = (True, v', s') \<Longrightarrow>
      ReadMem E2 a n mh v (alpha s) = (True, v', alpha s') \<and> I s'"
    and readfpu: "I s \<Longrightarrow> ReadFPU E1 f s = (True, f', s') \<Longrightarrow>
      ReadFPU E2 f (alpha s) = (True, f', alpha s') \<and> I s'"
    and refetch: "I s \<Longrightarrow> k \<le> max_inst_length \<Longrightarrow> ReadMem E1 a (k * 8) kReadExecutable v s = (False, v', s') \<Longrightarrow>
      I (ClearFetchError E1 s') \<and> (\<exists>t. ReadMem E2 a (k * 8) kReadExecutable v (alpha s) = (False, v', t) \<and> ClearFetchError E2 t = alpha (ClearFetchError E1 s'))"
    and writereg: "I s \<Longrightarrow> WriteReg E1 nm n v s = (True, s') \<Longrightarrow> WriteReg E2 nm n v (alpha s) = (True, alpha s') \<and> I s'"
    and writemem: "I s \<Longrightarrow> WriteMem E1 a n v s = (True, s') \<Longrightarrow> WriteMem E2 a n v (alpha s) = (True, alpha s') \<and> I s'"
    and writefpu: "I s \<Longrightarrow> WriteFPU E1 f s = (True, s') \<Longrightarrow> WriteFPU E2 f (alpha s) = (True, alpha s') \<and> I s'"
begin

abbreviation inv :: "'g \<times> 's \<Rightarrow> bool" where "inv w \<equiv> I (snd w)"

lemma request_register_follows: "follows inv (through alpha) (request_register X E1 r h) (request_register X E2 r h)"
proof (rule followsI)
  fix w w' :: "'s world"
  assume w: "inv w" "request_register X E1 r h w = (True, w')"
  show "request_register X E2 r h (through alpha w) = (True, through alpha w') \<and> inv w'"
    using w readreg [OF w(1)]
    by (auto simp: request_register_def WidestRegister_abs through_eq Let_def split: prod.splits if_splits)
qed

lemma ReadRegister_follows: "follows inv (through alpha) (ReadRegister X E1 r h) (ReadRegister X E2 r h)"
proof (rule followsI)
  fix w w' :: "'s world"
  assume w: "inv w" "ReadRegister X E1 r h w = (True, w')"
  have "request_register X E2 q k (g, alpha (snd w)) = (True, through alpha w') \<and> inv w'"
    if "request_register X E1 q k (g, snd w) = (True, w')" for q k g
    using followsD [OF request_register_follows, where w = "(g, snd w)" and w' = w'] that w(1) by simp
  with w show "ReadRegister X E2 r h (through alpha w) = (True, through alpha w') \<and> inv w'"
    by (auto simp: ReadRegister_def through_eq Let_def split: if_splits)
qed

lemma ReadRegisters_follows: "follows inv (through alpha) (ReadRegisters X E1) (ReadRegisters X E2)"
proof (rule followsI)
  fix w w' :: "'s world"
  assume w: "inv w" "ReadRegisters X E1 w = (True, w')"
  have 1: "follows inv (through alpha) (ReadRegistersMemOp X E1 k) (ReadRegistersMemOp X E2 k)" for k
  proof (rule followsI)
    fix u u' :: "'s world"
    assume u: "inv u" "ReadRegistersMemOp X E1 k u = (True, u')"
    show "ReadRegistersMemOp X E2 k (through alpha u) = (True, through alpha u') \<and> inv u'"
      unfolding ReadRegistersMemOp_def fst_through
      by (rule followsD [OF follows_and_also [OF ReadRegister_follows ReadRegister_follows] u(1)])
        (rule u(2) [unfolded ReadRegistersMemOp_def])
  qed
  have 2: "follows inv (through alpha) (ReadOperandRegister X E1 b h xedo) (ReadOperandRegister X E2 b h xedo)" for b h xedo
  proof (rule followsI)
    fix u u' :: "'s world"
    assume u: "inv u" "ReadOperandRegister X E1 b h xedo u = (True, u')"
    show "ReadOperandRegister X E2 b h xedo (through alpha u) = (True, through alpha u') \<and> inv u'"
      using u followsD [OF ReadRegister_follows u(1)]
      by (auto simp: ReadOperandRegister_def Let_def split: if_splits)
  qed
  show "ReadRegisters X E2 (through alpha w) = (True, through alpha w') \<and> inv w'"
    unfolding ReadRegisters_def Let_def fst_through
    by (rule followsD [OF follows_and_also [OF follows_each [OF 1] follows_and_also [OF follows_each [OF 2] follows_each [OF 2]]] w(1)])
      (rule w(2) [unfolded ReadRegisters_def Let_def])
qed

lemma ReadPC_follows: "follows inv (through alpha) (ReadPC X E1) (ReadPC X E2)"
proof (rule followsI)
  fix w w' :: "'s world"
  let ?r = "WidestRegister X E1 (reg X XED_REG_EIP)"
  let ?w = "((fst w)\<lparr>gModifiedRegs := insert ?r (gModifiedRegs (fst w))\<rparr>, snd w)"
  assume w: "inv w" "ReadPC X E1 w = (True, w')"
  then have "inv ?w" "ReadRegister X E1 ?r kProgramCounter ?w = (True, w')" by (simp_all add: ReadPC_def Let_def)
  from followsD [OF ReadRegister_follows this]
  show "ReadPC X E2 (through alpha w) = (True, through alpha w') \<and> inv w'"
    by (simp add: ReadPC_def WidestRegister_abs Let_def)
qed

lemma ReadFlags_follows: "follows inv (through alpha) (ReadFlags X H E1) (ReadFlags X H E2)"
proof (rule followsI)
  fix w w' :: "'s world"
  assume w: "inv w" "ReadFlags X H E1 w = (True, w')"
  let ?P = "\<lambda>st :: u64 \<times> Data \<times> 's. I (snd (snd st))" and ?h = "through (through alpha) :: u64 \<times> Data \<times> 's \<Rightarrow> u64 \<times> Data \<times> 't"
  have "follows ?P ?h (READ_FLAG E1 rd fn) (READ_FLAG E2 rd fn)" for rd fn
    by (rule followsI) (auto simp: READ_FLAG_def split: prod.splits if_splits dest: readreg)
  then have f: "follows ?P ?h (each (READ_FLAG E1 rd) flag_regs) (each (READ_FLAG E2 rd) flag_regs)" for rd
    by (rule follows_each)
  show "ReadFlags X H E2 (through alpha w) = (True, through alpha w') \<and> inv w'"
  proof (cases "get_rflags_info (gXedd (fst w))")
    case None
    with w show ?thesis by (auto simp: ReadFlags_def through_eq)
  next
    case (Some rf)
    obtain ok af fv s where e: "each (READ_FLAG E1 (flags_to_read rf)) flag_regs (pushfq H (fst w), 0, snd w) = (ok, af, fv, s)"
      by (metis prod_cases4)
    with w(2) Some have ok: "ok" by (auto simp: ReadFlags_def Let_def split: if_splits)
    from followsD [OF f _ e [unfolded ok [THEN eqTrueI]]] w(1)
    have "each (READ_FLAG E2 (flags_to_read rf)) flag_regs (pushfq H (fst w), 0, alpha (snd w)) = (True, af, fv, alpha s)" "I s"
      by simp_all
    with w(2) Some e ok show ?thesis
      by (auto simp: ReadFlags_def WidestRegister_abs through_eq Let_def)
  qed
qed

lemma fetch_follows:
  "inv w \<Longrightarrow> n \<le> max_inst_length \<Longrightarrow> fetch E1 pc n w = (k, w') \<Longrightarrow> fetch E2 pc n (through alpha w) = (k, through alpha w') \<and> inv w'"
proof (induction n arbitrary: w)
  case (Suc n)
  obtain ok d s where r: "ReadMem E1 pc (Suc n * 8) kReadExecutable (idata (fst w)) (snd w) = (ok, d, s)"
    by (metis prod_cases3)
  show ?case
  proof (cases ok)
    case True
    with r have "ReadMem E1 pc (Suc n * 8) kReadExecutable (idata (fst w)) (snd w) = (True, d, s)" by simp
    from readmem [OF Suc.prems(1) _ this] True r Suc.prems(3) show ?thesis by (auto simp: through_eq)
  next
    case False
    with r have "ReadMem E1 pc (Suc n * 8) kReadExecutable (idata (fst w)) (snd w) = (False, d, s)" by simp
    from refetch [OF Suc.prems(1,2) this] obtain t where t: "I (ClearFetchError E1 s)"
      "ReadMem E2 pc (Suc n * 8) kReadExecutable (idata (fst w)) (alpha (snd w)) = (False, d, t)"
      "ClearFetchError E2 t = alpha (ClearFetchError E1 s)" by blast
    have "fetch E2 pc n (through alpha ((fst w)\<lparr>idata := d\<rparr>, ClearFetchError E1 s)) = (k, through alpha w') \<and> inv w'"
      by (rule Suc.IH) (use t(1) r False Suc.prems(2,3) in simp_all)
    with t show ?thesis by simp
  qed
qed auto

lemma FetchInstruction_follows:
  assumes "inv w" and "FetchInstruction X E1 w = (n, w')"
  shows "FetchInstruction X E2 (through alpha w) = (n, through alpha w') \<and> inv w'"
proof -
  obtain pc s where c: "ComputeAddress E1 ''CS'' (GetPC X E1 (fst w)) 0 0 0 8 kReadExecutable (snd w) = (pc, s)"
    by (metis surj_pair)
  have f: "fetch E1 pc max_inst_length (fst w, s) = (n, w')" using assms(2) c by (simp add: FetchInstruction_def)
  have g: "GetPC X E2 (fst w) = GetPC X E1 (fst w)" by (simp add: GetPC_def WidestRegister_abs features)
  from address [OF assms(1) c] have a: "ComputeAddress E2 ''CS'' (GetPC X E1 (fst w)) 0 0 0 8 kReadExecutable (alpha (snd w)) = (pc, alpha s)"
    and "inv (fst w, s)" by simp_all
  from fetch_follows [OF this(2) order_refl f] a show ?thesis by (simp add: FetchInstruction_def g)
qed

lemma fpu_follows:
  "follows inv (through alpha) (fpu_read E1) (fpu_read E2)" "follows inv (through alpha) (fpu_write E1) (fpu_write E2)"
  by (rule followsI; auto simp: fpu_read_def fpu_write_def through_eq split: prod.splits if_splits dest: readfpu writefpu)+

lemma ReadMemoryOperand_follows: "follows inv (through alpha) (ReadMemoryOperand X E1 xedo k) (ReadMemoryOperand X E2 xedo k)"
proof (rule followsI)
  fix w w' :: "'s world"
  assume w: "inv w" "ReadMemoryOperand X E1 xedo k w = (True, w')"
  let ?g = "fst w"
  let ?breg = "get_base_reg (gXedd ?g) k"
  let ?base = "if reg X XED_REG_EIP = ?breg \<or> reg X XED_REG_RIP = ?breg
    then ReadGPR X ?breg ?g + of_nat (get_length (gXedd ?g)) else ReadGPR X ?breg ?g"
  let ?seg = "reg_enum_t2str X (deduce_segment X (get_seg_reg (gXedd ?g) k) ?breg)"
  obtain disp h where d: "adjust_displacement X k ?breg (word_of_int (get_memory_displacement (gXedd ?g) k)) ?g = (disp, h)"
    by (metis surj_pair)
  obtain a s where c: "ComputeAddress E1 ?seg ?base (ReadGPR X (get_index_reg (gXedd ?g) k) ?g) (get_scale (gXedd ?g) k)
      disp (msize (gMemory ?g k)) (request_hint xedo) (snd w) = (a, s)" by (metis surj_pair)
  from address [OF w(1) c] have c2: "ComputeAddress E2 ?seg ?base (ReadGPR X (get_index_reg (gXedd ?g) k) ?g) (get_scale (gXedd ?g) k)
      disp (msize (gMemory ?g k)) (request_hint xedo) (alpha (snd w)) = (a, alpha s)" and i: "I s" by blast+
  let ?a = "mask_address (get_memop_address_width (gXedd h) k) a" and ?n = "8 * get_memory_operand_length (gXedd h) k"
  obtain ok v t where m: "ReadMem E1 ?a ?n (request_hint xedo) 0 s = (ok, v, t)" by (metis prod_cases3)
  show "ReadMemoryOperand X E2 xedo k (through alpha w) = (True, through alpha w') \<and> inv w'"
  proof (cases "XED_OPERAND_AGEN = operand_name xedo")
    case True
    with w(2) d c c2 i show ?thesis by (auto simp: ReadMemoryOperand_def through_eq Let_def)
  next
    case False
    with w(2) d c m have ok by (simp add: ReadMemoryOperand_def Let_def)
    with m have "ReadMem E1 ?a ?n (request_hint xedo) 0 s = (True, v, t)" by simp
    moreover have "request_hint xedo \<noteq> kAddressGeneration" using False by (simp add: request_hint_def)
    ultimately show ?thesis using readmem [OF i] False w(2) d c c2 by (auto simp: ReadMemoryOperand_def through_eq Let_def)
  qed
qed

lemma ReadMemory_follows: "follows inv (through alpha) (ReadMemory X E1) (ReadMemory X E2)"
proof (rule followsI)
  fix w w' :: "'s world"
  assume w: "inv w" "ReadMemory X E1 w = (True, w')"
  have "follows inv (through alpha)
      (\<lambda>w. case mem_slot (operand_name xedo) of None \<Rightarrow> (True, w) | Some k \<Rightarrow> ReadMemoryOperand X E1 xedo k w)
      (\<lambda>w. case mem_slot (operand_name xedo) of None \<Rightarrow> (True, w) | Some k \<Rightarrow> ReadMemoryOperand X E2 xedo k w)" for xedo
    by (cases "mem_slot (operand_name xedo)") (simp_all add: ReadMemoryOperand_follows, simp add: follows_def)
  from follows_each [OF this]
  have f: "follows inv (through alpha)
      (each (\<lambda>xedo w. case mem_slot (operand_name xedo) of None \<Rightarrow> (True, w) | Some k \<Rightarrow> ReadMemoryOperand X E1 xedo k w) ops)
      (each (\<lambda>xedo w. case mem_slot (operand_name xedo) of None \<Rightarrow> (True, w) | Some k \<Rightarrow> ReadMemoryOperand X E2 xedo k w) ops)" for ops .
  show "ReadMemory X E2 (through alpha w) = (True, through alpha w') \<and> inv w'"
    using followsD [OF f _ w(2) [unfolded ReadMemory_def]] w(1) by (simp add: ReadMemory_def)
qed

lemma WriteMemory_follows: "follows inv (through alpha) (WriteMemory E1) (WriteMemory E2)"
proof (rule followsI)
  fix w w' :: "'s world"
  assume w: "inv w" "WriteMemory E1 w = (True, w')"
  have "follows I alpha (WriteSlot E1 m) (WriteSlot E2 m)" for m
    by (rule followsI) (auto simp: WriteSlot_def split: if_splits dest: writemem)
  then have f: "follows I alpha (each (WriteSlot E1) ms) (each (WriteSlot E2) ms)" for ms by (rule follows_each)
  obtain s where s: "each (WriteSlot E1) [gMemory (fst w) 0, gMemory (fst w) 1] (snd w) = (True, s)" "w' = (fst w, s)"
    using w(2) by (auto simp: WriteMemory_def simp del: each.simps split: prod.splits)
  from followsD [OF f w(1) s(1)] show "WriteMemory E2 (through alpha w) = (True, through alpha w') \<and> inv w'"
    by (simp add: WriteMemory_def s(2) del: each.simps)
qed

lemma WriteFlags_follows: "follows inv (through alpha) (WriteFlags X E1) (WriteFlags X E2)"
proof (rule followsI)
  fix w w' :: "'s world"
  assume w: "inv w" "WriteFlags X E1 w = (True, w')"
  have "follows I alpha (WRITE_FLAG E1 wf af fn) (WRITE_FLAG E2 wf af fn)" for wf af fn
    by (rule followsI) (auto simp: WRITE_FLAG_def split: prod.splits if_splits dest: writereg)
  then have f: "follows I alpha (each (WRITE_FLAG E1 wf af) fns) (each (WRITE_FLAG E2 wf af) fns)" for wf af fns
    by (rule follows_each)
  show "WriteFlags X E2 (through alpha w) = (True, through alpha w') \<and> inv w'"
    using w followsD [OF f w(1)]
    by (auto simp: WriteFlags_def WidestRegister_abs through_eq Let_def split: prod.splits if_splits)
qed

lemma write_one_follows: "follows I alpha (write_one X E1 g r) (write_one X E2 g r)"
  by (rule followsI) (auto simp: write_one_def dest: writereg)

lemma write_loop_follows:
  "I s \<Longrightarrow> write_loop X E1 g is pc s = (True, pc', s') \<Longrightarrow> write_loop X E2 g is pc (alpha s) = (True, pc', alpha s') \<and> I s'"
proof (induction "is" arbitrary: pc s)
  case (Cons r "is")
  then show ?case
    using followsD [OF write_one_follows Cons.prems(1), of X g r]
    by (auto split: prod.splits if_splits)
qed auto

lemma WriteRegisters_follows: "follows inv (through alpha) (WriteRegisters X E1) (WriteRegisters X E2)"
proof (rule followsI)
  fix w w' :: "'s world"
  let ?g = "restore_stack_pointer X (fst w)"
  assume w: "inv w" "WriteRegisters X E1 w = (True, w')"
  obtain ok pc s where l: "write_loop X E1 ?g [0..<reg X XED_REG_LAST] (reg X XED_REG_INVALID) (snd w) = (ok, pc, s)"
    by (metis prod_cases3)
  with w(2) have ok: ok by (auto simp: WriteRegisters_def Let_def split: if_splits)
  with l have "write_loop X E1 ?g [0..<reg X XED_REG_LAST] (reg X XED_REG_INVALID) (snd w) = (True, pc, s)" by simp
  from write_loop_follows [OF w(1) this]
  have l2: "write_loop X E2 ?g [0..<reg X XED_REG_LAST] (reg X XED_REG_INVALID) (alpha (snd w)) = (True, pc, alpha s)" and s: "I s"
    by blast+
  show "WriteRegisters X E2 (through alpha w) = (True, through alpha w') \<and> inv w'"
    using w(2) l ok l2 s followsD [OF write_one_follows s]
    by (auto simp: WriteRegisters_def through_eq Let_def split: prod.splits if_splits)
qed

section \<open>Executions\<close>

lemma report_back_leads: "leads inv (through alpha) (report_back X E1 npc) (report_back X E2 npc)"
proof -
  have r: "leads inv (through alpha) (or_return (WriteRegisters X E1) kErrorWriteReg (\<lambda>w. Some (kGood, w)))
      (or_return (WriteRegisters X E2) kErrorWriteReg (\<lambda>w. Some (kGood, w)))"
    by (rule leads_or_return [OF WriteRegisters_follows]) (simp_all add: leads_def)
  show ?thesis
    unfolding report_back_def
  proof (rule leads_or_return [OF WriteFlags_follows])
    show "leads inv (through alpha)
        (\<lambda>w. or_return (WriteRegisters X E1) kErrorWriteReg (\<lambda>w. Some (kGood, w)) (SetNextPC X npc (fst w), snd w))
        (\<lambda>w. or_return (WriteRegisters X E2) kErrorWriteReg (\<lambda>w. Some (kGood, w)) (SetNextPC X npc (fst w), snd w))"
      using leadsD [OF r] by (intro leadsI) (fastforce simp: through_eq)
  qed simp
qed

lemma commit_leads: "leads inv (through alpha) (commit X E1 npc) (commit X E2 npc)"
  unfolding commit_def
proof (intro leads_or_return WriteMemory_follows fpu_follows(2))
  show "leads inv (through alpha)
      (\<lambda>w. report_back X E1 npc (if gUsesMMX (fst w) then CopyMMXStateFromFPU X E1 (fst w) else fst w, snd w))
      (\<lambda>w. report_back X E2 npc (if gUsesMMX (fst w) then CopyMMXStateFromFPU X E2 (fst w) else fst w, snd w))"
    using leadsD [OF report_back_leads] by (intro leadsI) (fastforce simp: through_eq pure_abs(2))
qed simp_all

lemma operate_leads: "leads inv (through alpha) (operate X H E1 npc) (operate X H E2 npc)"
proof -
  let ?k = "\<lambda>E w. case perform X H E npc (fst w) of None \<Rightarrow> None
    | Some (st, npc', g) \<Rightarrow> if st \<noteq> kGood then Some (st, g, snd w) else commit X E npc' (g, snd w)"
  have "leads inv (through alpha) (?k E1) (?k E2)"
    using leadsD [OF commit_leads]
    by (intro leadsI) (fastforce simp: through_eq pure_abs(5) split: option.splits if_splits)
  then have r: "leads inv (through alpha) (or_return (ReadMemory X E1) kErrorReadMem (?k E1)) (or_return (ReadMemory X E2) kErrorReadMem (?k E2))"
    by (rule leads_or_return [OF ReadMemory_follows]) simp
  show ?thesis
    unfolding operate_def
  proof (rule leads_or_return [OF fpu_follows(1)])
    show "leads inv (through alpha)
        (\<lambda>w. or_return (ReadMemory X E1) kErrorReadMem (?k E1) (if gUsesMMX (fst w) then CopyMMXStateToFPU X E1 (fst w) else fst w, snd w))
        (\<lambda>w. or_return (ReadMemory X E2) kErrorReadMem (?k E2) (if gUsesMMX (fst w) then CopyMMXStateToFPU X E2 (fst w) else fst w, snd w))"
      using leadsD [OF r] by (intro leadsI) (fastforce simp: through_eq pure_abs(1))
  qed simp
qed

lemma decoded_leads: "leads inv (through alpha) (decoded X H E1) (decoded X H E2)"
proof (rule leadsI)
  fix w w' :: "'s world"
  assume w: "inv w" "decoded X H E1 w = Some (kGood, w')"
  obtain w1 w2 where 1: "ReadFlags X H E1 w = (True, w1)" and 2: "ReadRegisters X E1 w1 = (True, w2)"
    and 3: "(if is_nop (fst w2) then report_back X E1 (GetNextPC X E1 (fst w2)) w2
        else operate X H E1 (GetNextPC X E1 (fst w2)) w2) = Some (kGood, w')"
    by (rule decoded_good [OF w(2)])
  from followsD [OF ReadFlags_follows w(1) 1] have f: "ReadFlags X H E2 (through alpha w) = (True, through alpha w1)" "inv w1"
    by blast+
  from followsD [OF ReadRegisters_follows f(2) 2] have r: "ReadRegisters X E2 (through alpha w1) = (True, through alpha w2)" "inv w2"
    by blast+
  have u: "\<not> UsesUnsupportedFeatures E2 (fst w)" using w(2) by (auto simp: decoded_def pure_abs(3))
  show "decoded X H E2 (through alpha w) = Some (kGood, through alpha w') \<and> inv w'"
  proof (cases "is_nop (fst w2)")
    case True
    with 3 have "report_back X E1 (GetNextPC X E1 (fst w2)) w2 = Some (kGood, w')" by simp
    from leadsD [OF report_back_leads r(2) this] True show ?thesis
      by (simp add: decoded_def or_return_def u f(1) r(1) pure_abs(4) Let_def)
  next
    case False
    with 3 have "operate X H E1 (GetNextPC X E1 (fst w2)) w2 = Some (kGood, w')" by simp
    from leadsD [OF operate_leads r(2) this] False show ?thesis
      by (simp add: decoded_def or_return_def u f(1) r(1) pure_abs(4) Let_def)
  qed
qed

lemma ExecuteOne_leads: "leads inv (through alpha) (ExecuteOne X H E1) (ExecuteOne X H E2)"
proof (rule leadsI)
  fix w w' :: "'s world"
  assume w: "inv w" "ExecuteOne X H E1 w = Some (kGood, w')"
  let ?D = "\<lambda>n. on_globals (\<lambda>g. DecodeInstruction X (word_bytes n (idata g)) (addr_size E1) g)"
  obtain w1 n w2 w3 where 1: "ReadPC X E1 (reset_instruction X (fst w), snd w) = (True, w1)"
    and 2: "FetchInstruction X E1 w1 = (n, w2)" and n: "n \<noteq> 0" and 3: "?D n w2 = (True, w3)"
    and 4: "decoded X H E1 w3 = Some (kGood, w')"
    by (rule ExecuteOne_good [OF w(2)])
  have "inv (reset_instruction X (fst w), snd w)" using w(1) by simp
  from followsD [OF ReadPC_follows this 1]
  have p: "ReadPC X E2 (reset_instruction X (fst w), alpha (snd w)) = (True, through alpha w1)" "inv w1" by simp_all
  from FetchInstruction_follows [OF p(2) 2] have f: "FetchInstruction X E2 (through alpha w1) = (n, through alpha w2)" "inv w2" by blast+
  have d: "?D n (through alpha w2) = (True, through alpha w3)" "inv w3"
    using 3 f(2) by (auto simp: on_globals_def through_eq split: prod.splits)
  from leadsD [OF decoded_leads d(2) 4] show "ExecuteOne X H E2 (through alpha w) = Some (kGood, through alpha w') \<and> inv w'"
    by (simp add: ExecuteOne_def or_return_def p(1) f(1) n d(1) features)
qed

lemma execute_loop_leads: "leads inv (through alpha) (execute_loop X H E1 n) (execute_loop X H E2 n)"
proof (induction n)
  case (Suc n)
  show ?case
  proof (rule leadsI)
    fix w w' :: "'s world"
    assume w: "inv w" "execute_loop X H E1 (Suc n) w = Some (kGood, w')"
    then obtain u where u: "ExecuteOne X H E1 w = Some (kGood, u)" "execute_loop X H E1 n u = Some (kGood, w')"
      by (auto split: option.splits if_splits)
    from leadsD [OF ExecuteOne_leads w(1) u(1)] have e: "ExecuteOne X H E2 (through alpha w) = Some (kGood, through alpha u)" "inv u"
      by blast+
    from leadsD [OF Suc.IH e(2) u(2)] e(1)
    show "execute_loop X H E2 (Suc n) (through alpha w) = Some (kGood, through alpha w') \<and> inv w'" by simp
  qed
qed (simp add: leads_def)

lemma Execute_leads: "leads inv (through alpha) (Execute X H E1 n) (Execute X H E2 n)"
proof (rule leadsI)
  fix w w' :: "'s world"
  assume w: "inv w" "Execute X H E1 n w = Some (kGood, w')"
  show "Execute X H E2 n (through alpha w) = Some (kGood, through alpha w') \<and> inv w'"
  proof (cases "n = 0")
    case False
    with w(2) have i: "gIsInitialized (fst w)" and e: "execute_loop X H E1 n w = Some (kGood, w')"
      by (auto simp: Execute_def split: if_splits)
    from leadsD [OF execute_loop_leads w(1) e] i False show ?thesis by (simp add: Execute_def)
  qed (use w in \<open>simp add: Execute_def\<close>)
qed

end

end
