(* ===== verification/Snapshot.thy ===== *)
theory Snapshot
  imports EndToEnd
begin

text \<open>
  An instruction as a transaction: what it reads is the machine as it was when the
  instruction began, and what it writes is the list of its reports, applied in order.
\<close>

section \<open>Machines\<close>

text \<open>The state of a machine changes only by accepted writes, \<open>ap\<close> being the effect of one.\<close>

definition machine :: "'s executor \<Rightarrow> (written \<Rightarrow> 's \<Rightarrow> 's) \<Rightarrow> bool" where
  "machine E ap \<longleftrightarrow>
     (\<forall>nm b i sc d n h s. snd (ComputeAddress E nm b i sc d n h s) = s) \<and>
     (\<forall>nm n h v s. snd (snd (ReadReg E nm n h v s)) = s) \<and>
     (\<forall>a n h v s. snd (snd (ReadMem E a n h v s)) = s) \<and>
     (\<forall>f s. snd (snd (ReadFPU E f s)) = s) \<and> (\<forall>s. ClearFetchError E s = s) \<and>
     (\<forall>nm n v s. WriteReg E nm n v s = (True, ap (WroteReg nm n v) s)) \<and>
     (\<forall>a n v s. WriteMem E a n v s = (True, ap (WroteMem a n v) s)) \<and>
     (\<forall>f s. WriteFPU E f s = (True, ap (WroteFPU f) s))"

text \<open>The machine stopped in the state \<open>m\<close>: it answers as \<open>E\<close> does there, and accepts every
  write without effect.\<close>

definition stopped :: "'s executor \<Rightarrow> 's \<Rightarrow> unit executor" where
  "stopped E m = \<lparr>addr_size = addr_size E, has_avx = has_avx E, has_avx512 = has_avx512 E,
     ComputeAddress = (\<lambda>nm b i sc d n h u. (fst (ComputeAddress E nm b i sc d n h m), ())),
     ReadReg = (\<lambda>nm n h v u. (fst (ReadReg E nm n h v m), fst (snd (ReadReg E nm n h v m)), ())),
     WriteReg = (\<lambda>nm n v u. (True, ())),
     ReadMem = (\<lambda>a n h v u. (fst (ReadMem E a n h v m), fst (snd (ReadMem E a n h v m)), ())),
     WriteMem = (\<lambda>a n v u. (True, ())),
     ReadFPU = (\<lambda>f u. (fst (ReadFPU E f m), fst (snd (ReadFPU E f m)), ())),
     WriteFPU = (\<lambda>f u. (True, ())), ClearFetchError = (\<lambda>u. u)\<rparr>"

text \<open>The state that a log of writes leads to from \<open>m\<close>.\<close>

definition replay :: "(written \<Rightarrow> 's \<Rightarrow> 's) \<Rightarrow> 's \<Rightarrow> unit \<times> written list \<Rightarrow> 's" where
  "replay ap m v = fold ap (snd v) m"

lemma stopped_features [simp]:
  "addr_size (stopped E m) = addr_size E" "has_avx (stopped E m) = has_avx E" "has_avx512 (stopped E m) = has_avx512 E"
  by (simp_all add: stopped_def)

lemma recording_features:
  "addr_size (logged (stopped E m)) = addr_size E" "has_avx (logged (stopped E m)) = has_avx E"
  by (simp_all add: logged_def)

lemma reads_of_machine:
  assumes "machine E ap"
  shows "reading_abstraction (stopped E m) E (\<lambda>_. m)"
  using assms
  by unfold_locales (simp_all add: machine_def stopped_def prod_eq_iff)

lemma reads_of_log: "reading_abstraction U (logged U) (\<lambda>_. ((), []))" for U :: "unit executor"
  by unfold_locales (simp_all add: logged_def prod_eq_iff case_prod_beta)

lemma writes_of_machine:
  assumes "machine E ap"
  shows "writing_abstraction (logged (stopped E m)) E (replay ap m)"
  using assms
  by unfold_locales (auto simp: machine_def stopped_def logged_def replay_def prod_eq_iff split: prod.split)

section \<open>Reading before writing\<close>

text \<open>A call that only reads: on the machine in the state \<open>m\<close>, and on the stopped machine with
  an empty log, it gives the same answer and changes neither.\<close>

definition reads_alike :: "'s \<Rightarrow> ('g \<times> 's \<Rightarrow> 'x \<times> 'g \<times> 's) \<Rightarrow>
    ('g \<times> unit \<times> written list \<Rightarrow> 'x \<times> 'g \<times> unit \<times> written list) \<Rightarrow> bool" where
  "reads_alike m a b \<longleftrightarrow> (\<forall>g. \<exists>x g'. a (g, m) = (x, g', m) \<and> b (g, (), []) = (x, g', (), []))"

lemma reads_alikeI:
  fixes r :: "'g \<times> unit \<Rightarrow> 'x \<times> 'g \<times> unit"
  assumes "\<And>g. a (g, m) = through (through (\<lambda>_. m)) (r (g, ()))"
    and "\<And>g. b (g, (), []) = through (through (\<lambda>_. ((), []))) (r (g, ()))"
  shows "reads_alike m a b"
  unfolding reads_alike_def
proof
  fix g
  obtain x g' where "r (g, ()) = (x, g', ())" by (metis old.unit.exhaust prod_cases3)
  then show "\<exists>x g'. a (g, m) = (x, g', m) \<and> b (g, (), []) = (x, g', (), [])" by (simp add: assms)
qed

lemma reads_alikeE:
  assumes "reads_alike m a b"
  obtains x g' where "a (g, m) = (x, g', m)" and "b (g, (), []) = (x, g', (), [])"
  using assms unfolding reads_alike_def by blast

lemma replay_nil [simp]: "replay ap m ((), []) = m"
  by (simp add: replay_def)

text \<open>The stopped machine with its log, and a world of it seen as one of the machine.\<close>

abbreviation recording :: "'s executor \<Rightarrow> 's \<Rightarrow> (unit \<times> written list) executor" where
  "recording E m \<equiv> logged (stopped E m)"

abbreviation replayed ::
  "(written \<Rightarrow> 's \<Rightarrow> 's) \<Rightarrow> 's \<Rightarrow> (unit \<times> written list) outcome \<Rightarrow> 's outcome" where
  "replayed ap m \<equiv> map_option (through (through (replay ap m)))"

lemma or_return_read:
  assumes "reads_alike m a b"
    and "\<And>g'. k (g', m) = replayed ap m (k' (g', (), []))"
  shows "or_return a err k (g, m) = replayed ap m (or_return b err k' (g, (), []))"
proof -
  obtain x g' where "a (g, m) = (x, g', m)" "b (g, (), []) = (x, g', (), [])"
    by (rule reads_alikeE [OF assms(1)])
  then show ?thesis by (simp add: or_return_def assms(2))
qed

lemma reading_alike:
  assumes "machine E ap"
  shows "reads_alike m (ReadPC X E) (ReadPC X (recording E m))"
    "reads_alike m (ReadFlags X H E) (ReadFlags X H (recording E m))"
    "reads_alike m (ReadRegisters X E) (ReadRegisters X (recording E m))"
    "reads_alike m (ReadMemory X E) (ReadMemory X (recording E m))"
    "reads_alike m (fpu_read E) (fpu_read (recording E m))"
    "reads_alike m (FetchInstruction X E) (FetchInstruction X (recording E m))"
proof -
  note M = reads_of_machine [OF assms, of m] and L = reads_of_log [of "stopped E m"]
  show "reads_alike m (ReadPC X E) (ReadPC X (recording E m))"
    by (rule reads_alikeI [where r = "ReadPC X (stopped E m)"])
      (simp_all flip: reading_abstraction.ReadPC_abs [OF M] reading_abstraction.ReadPC_abs [OF L])
  show "reads_alike m (ReadFlags X H E) (ReadFlags X H (recording E m))"
    by (rule reads_alikeI [where r = "ReadFlags X H (stopped E m)"])
      (simp_all flip: reading_abstraction.ReadFlags_abs [OF M] reading_abstraction.ReadFlags_abs [OF L])
  show "reads_alike m (ReadRegisters X E) (ReadRegisters X (recording E m))"
    by (rule reads_alikeI [where r = "ReadRegisters X (stopped E m)"])
      (simp_all flip: reading_abstraction.ReadRegisters_abs [OF M] reading_abstraction.ReadRegisters_abs [OF L])
  show "reads_alike m (ReadMemory X E) (ReadMemory X (recording E m))"
    by (rule reads_alikeI [where r = "ReadMemory X (stopped E m)"])
      (simp_all flip: reading_abstraction.ReadMemory_abs [OF M] reading_abstraction.ReadMemory_abs [OF L])
  show "reads_alike m (fpu_read E) (fpu_read (recording E m))"
    by (rule reads_alikeI [where r = "fpu_read (stopped E m)"])
      (simp_all flip: reading_abstraction.fpu_read_abs [OF M] reading_abstraction.fpu_read_abs [OF L])
  show "reads_alike m (FetchInstruction X E) (FetchInstruction X (recording E m))"
    by (rule reads_alikeI [where r = "FetchInstruction X (stopped E m)"])
      (simp_all flip: reading_abstraction.FetchInstruction_abs [OF M] reading_abstraction.FetchInstruction_abs [OF L])
qed

lemma globals_alike: "reads_alike m (on_globals f) (on_globals f)"
  unfolding reads_alike_def on_globals_def by (simp split: prod.split)

section \<open>The transaction\<close>

lemma operate_snapshot:
  assumes "machine E ap"
  shows "operate X H E npc (g, m) = replayed ap m (operate X H (recording E m) npc (g, (), []))"
proof -
  note W = writes_of_machine [OF assms, of m]
  have F: "same_features (recording E m) E" using W unfolding writing_abstraction_def by blast
  note pure = same_features.pure_abs [OF F]
  have c: "commit X E npc (g, m) = replayed ap m (commit X (recording E m) npc (g, (), []))" for npc g
    using writing_abstraction.commit_abs [OF W, of X npc "(g, (), [])"] by simp
  show ?thesis
    unfolding operate_def
  proof (rule or_return_read [OF reading_alike(5) [OF assms]])
    fix g'
    show "or_return (ReadMemory X E) kErrorReadMem
         (\<lambda>w. case perform X H E npc (fst w) of None \<Rightarrow> None
          | Some (st, npc', g) \<Rightarrow> if st \<noteq> kGood then Some (st, g, snd w) else commit X E npc' (g, snd w))
         (if gUsesMMX (fst (g', m)) then CopyMMXStateToFPU X E (fst (g', m)) else fst (g', m), snd (g', m)) =
       replayed ap m (or_return (ReadMemory X (recording E m)) kErrorReadMem
         (\<lambda>w. case perform X H (recording E m) npc (fst w) of None \<Rightarrow> None
          | Some (st, npc', g) \<Rightarrow> if st \<noteq> kGood then Some (st, g, snd w) else commit X (recording E m) npc' (g, snd w))
         (if gUsesMMX (fst (g', (), [])) then CopyMMXStateToFPU X (recording E m) (fst (g', (), [])) else fst (g', (), []), snd (g', (), [])))"
      unfolding fst_conv snd_conv pure(1)
      by (rule or_return_read [OF reading_alike(4) [OF assms]]) (simp add: pure(5) c split: option.split)
  qed
qed

lemma decoded_snapshot:
  assumes "machine E ap"
  shows "decoded X H E (g, m) = replayed ap m (decoded X H (recording E m) (g, (), []))"
proof -
  note W = writes_of_machine [OF assms, of m]
  have F: "same_features (recording E m) E" using W unfolding writing_abstraction_def by blast
  note pure = same_features.pure_abs [OF F]
  have rb: "report_back X E npc (g, m) = replayed ap m (report_back X (recording E m) npc (g, (), []))" for npc g
    using writing_abstraction.report_back_abs [OF W, of X npc "(g, (), [])"] by simp
  have "or_return (ReadFlags X H E) kErrorReadFlags (or_return (ReadRegisters X E) kErrorReadReg (\<lambda>w.
      let npc = GetNextPC X E (fst w) in if is_nop (fst w) then report_back X E npc w else operate X H E npc w)) (g, m) =
    replayed ap m (or_return (ReadFlags X H (recording E m)) kErrorReadFlags
      (or_return (ReadRegisters X (recording E m)) kErrorReadReg (\<lambda>w. let npc = GetNextPC X (recording E m) (fst w) in
        if is_nop (fst w) then report_back X (recording E m) npc w else operate X H (recording E m) npc w)) (g, (), []))"
    by (rule or_return_read [OF reading_alike(2) [OF assms]], rule or_return_read [OF reading_alike(3) [OF assms]])
      (simp add: pure(4) rb operate_snapshot [OF assms] Let_def)
  then show ?thesis by (simp add: decoded_def pure(3))
qed

lemma ExecuteOne_snapshot:
  assumes "machine E ap"
  shows "ExecuteOne X H E (g, m) = replayed ap m (ExecuteOne X H (recording E m) (g, (), []))"
  unfolding ExecuteOne_def fst_conv snd_conv recording_features
proof (rule or_return_read [OF reading_alike(1) [OF assms]])
  fix g
  let ?D = "\<lambda>n g. DecodeInstruction X (word_bytes n (idata g)) (addr_size E) g"
  obtain n g' where f: "FetchInstruction X E (g, m) = (n, g', m)" "FetchInstruction X (recording E m) (g, (), []) = (n, g', (), [])"
    by (rule reads_alikeE [OF reading_alike(6) [OF assms]])
  have "or_return (on_globals (?D n)) kErrorDecode (decoded X H E) (g', m) =
      replayed ap m (or_return (on_globals (?D n)) kErrorDecode (decoded X H (recording E m)) (g', (), []))"
    by (rule or_return_read [OF globals_alike], rule decoded_snapshot [OF assms])
  then show "(case FetchInstruction X E (g, m) of (n, w) \<Rightarrow> if n = 0 then Some (kErrorReadInstMem, w)
      else or_return (on_globals (?D n)) kErrorDecode (decoded X H E) w) =
    replayed ap m (case FetchInstruction X (recording E m) (g, (), []) of (n, w) \<Rightarrow> if n = 0 then Some (kErrorReadInstMem, w)
      else or_return (on_globals (?D n)) kErrorDecode (decoded X H (recording E m)) w)"
    by (simp add: f)
qed

section \<open>Executions as sequences of transactions\<close>

text \<open>Each instruction runs on the machine stopped in the state it finds, and its reports are
  applied afterwards, in the order in which they were made.\<close>

fun transactions ::
  "xed \<Rightarrow> host \<Rightarrow> 's executor \<Rightarrow> (written \<Rightarrow> 's \<Rightarrow> 's) \<Rightarrow> nat \<Rightarrow> 's world \<Rightarrow> 's outcome" where
  "transactions X H E ap 0 w = Some (kGood, w)"
| "transactions X H E ap (Suc n) w =
     (case ExecuteOne X H (recording E (snd w)) (fst w, (), []) of
        None \<Rightarrow> None
      | Some (st, g, _, log) \<Rightarrow>
          let m = fold ap log (snd w)
          in if st = kGood then transactions X H E ap n (g, m) else Some (st, g, m))"

lemma execute_loop_transactions:
  assumes "machine E ap"
  shows "execute_loop X H E n w = transactions X H E ap n w"
proof (induction n arbitrary: w)
  case (Suc n)
  have "ExecuteOne X H E w = replayed ap (snd w) (ExecuteOne X H (recording E (snd w)) (fst w, (), []))"
    using ExecuteOne_snapshot [OF assms, of X H "fst w" "snd w"] by simp
  then show ?case
    by (cases "ExecuteOne X H (recording E (snd w)) (fst w, (), [])") (auto simp: Suc.IH replay_def Let_def)
qed simp

text \<open>
  C15: on a machine, whose state only accepted writes change, an instruction is a
  transaction: what it reads is the state as it was when the instruction began, whatever it
  has already written, and its writes are applied in the order of its reports. Executing
  several instructions is executing such transactions one after the other.
\<close>

theorem Execute_transactions:
  assumes "machine E ap"
  shows "Execute X H E n (g, m) =
    (if n \<noteq> 0 \<and> \<not> gIsInitialized g then Some (kErrorNotInitialized, g, m) else transactions X H E ap n (g, m))"
  using execute_loop_transactions [OF assms] by (auto simp: Execute_def)

end
