(* ===== verification/FlatMachine.thy ===== *)
theory FlatMachine
  imports ReadOnly Simulation Snapshot
begin

text \<open>
  The abstract machine that a \<open>Process\<close> implements: registers by name, bytes by address, and
  permissions. Its executor never fails but where it refuses a request, and its writes
  always succeed; a successful execution of a process is one of this machine.
\<close>

section \<open>The machine\<close>

record flat =
  flat_regs :: "string \<Rightarrow> int"
  flat_bytes :: "int \<Rightarrow> u8"
  flat_fpu :: "u8 list"
  flat_allows :: "MemRequestHint \<Rightarrow> int \<Rightarrow> bool"

definition flat_of :: "process \<Rightarrow> flat" where
  "flat_of p = \<lparr>flat_regs = regs p, flat_bytes = byte_at (proc_memory p), flat_fpu = fpu_data p,
     flat_allows = (\<lambda>h. permitted h (proc_memory p))\<rparr>"

definition flat_segment :: "nat \<Rightarrow> string \<Rightarrow> MemRequestHint \<Rightarrow> flat \<Rightarrow> int" where
  "flat_segment bits seg h m = (if h \<noteq> kAddressGeneration then flat_regs m (seg @ ''_BASE'') AND mask bits else 0)"

text \<open>The bytes \<open>bs\<close> at \<open>a\<close>.\<close>

definition with_bytes :: "int \<Rightarrow> u8 list \<Rightarrow> (int \<Rightarrow> u8) \<Rightarrow> int \<Rightarrow> u8" where
  "with_bytes a bs f b = (if a \<le> b \<and> b < a + int (length bs) then bs ! nat (b - a) else f b)"

text \<open>The effect of a write.\<close>

fun flat_write :: "written \<Rightarrow> flat \<Rightarrow> flat" where
  "flat_write (WroteReg nm n v) m =
     m\<lparr>flat_regs := (flat_regs m)(nm := int_of_bytes (word_bytes ((n + 7) div 8) v))\<rparr>"
| "flat_write (WroteMem a n v) m =
     m\<lparr>flat_bytes := with_bytes (uint a) (word_bytes (n div 8) v) (flat_bytes m)\<rparr>"
| "flat_write (WroteFPU f) m = m\<lparr>flat_fpu := word_bytes 512 f\<rparr>"

definition flat_machine :: "nat \<Rightarrow> flat executor" where
  "flat_machine bits = \<lparr>addr_size = bits, has_avx = False, has_avx512 = False,
     ComputeAddress = (\<lambda>seg b i sc d n h m.
       (word_of_int (flat_segment bits seg h m + uint b + uint i * uint sc + uint d), m)),
     ReadReg = (\<lambda>nm n h v m. let i = flat_regs m nm in
       if 0 \<le> i \<and> i < 2 ^ 512 then (True, word_of_int i, m) else (False, v, m)),
     WriteReg = (\<lambda>nm n v m. (True, flat_write (WroteReg nm n v) m)),
     ReadMem = (\<lambda>a n h v m.
       if list_all (\<lambda>i. flat_allows m h (uint a + int i)) [0..<n div 8]
       then (True, le_bytes (map (\<lambda>i. flat_bytes m (uint a + int i)) [0..<n div 8]), m) else (False, v, m)),
     WriteMem = (\<lambda>a n v m. (True, flat_write (WroteMem a n v) m)),
     ReadFPU = (\<lambda>f m. if length (flat_fpu m) = 512 then (True, le_bytes (flat_fpu m), m) else (False, f, m)),
     WriteFPU = (\<lambda>f m. (True, flat_write (WroteFPU f) m)), ClearFetchError = (\<lambda>m. m)\<rparr>"

lemma flat_machine_machine: "machine (flat_machine bits) flat_write"
  by (simp add: machine_def flat_machine_def Let_def)

section \<open>Processes implement it\<close>

text \<open>A process in which no error is pending.\<close>

definition sound :: "nat \<Rightarrow> process pystate \<Rightarrow> bool" where
  "sound bits s \<longleftrightarrow> \<not> has_error s \<and> err_indicator s = None \<and> bits \<in> {32, 64} \<and>
     valid_memory (process_memory s) \<and> mem_bits (process_memory s) = bits"

lemma address_value:
  assumes "0 \<le> sb" and "sb < 2 ^ 64"
  shows "0 \<le> sb + uint (b :: u64) + uint (i :: u64) * uint (sc :: u64) + uint (d :: u64)"
    and "sb + uint b + uint i * uint sc + uint d < 2 ^ 512"
proof -
  have u: "0 \<le> uint x" "uint x \<le> 2 ^ 64" for x :: u64 using uint_lt2p [of x] by (simp_all add: less_imp_le)
  show "0 \<le> sb + uint b + uint i * uint sc + uint d" using assms(1) u by simp
  have "uint i * uint sc \<le> 2 ^ 64 * 2 ^ 64" using u by (intro mult_mono) auto
  with assms(2) u(2) [of b] u(2) [of d] show "sb + uint b + uint i * uint sc + uint d < 2 ^ 512" by simp
qed

lemma low_word: "(get_bits 0 64 (word_of_int i :: Data) :: u64) = word_of_int i"
  by (rule bit_word_eqI) (simp add: bit_simps bit_word_of_int_iff)

lemma segment_bounds:
  assumes "mem_bits (proc_memory p) \<in> {32, 64}"
  shows "0 \<le> segment_base nm h p \<and> segment_base nm h p < 2 ^ 64"
proof -
  have "take_bit n x < 2 ^ 64" if "n \<in> {32, 64}" for n and x :: int
    using that take_bit_int_less_exp [of 32 x] take_bit_int_less_exp [of 64 x] by auto
  with assms show ?thesis by (simp add: segment_base_def flip: take_bit_eq_mask)
qed

lemma permitted_mapped: "permitted h M a \<Longrightarrow> h \<noteq> kAddressGeneration \<Longrightarrow> mapped M a"
  by (cases h) (auto simp: permitted_def MEM_READ_HINTS_def MEM_WRITE_HINTS_def MEM_EXEC_HINTS_def can_read_def
      can_write_def mapped_def split: map_object.splits)

text \<open>What reading memory gives: the permissions decide, and the bytes are those at the
  addresses.\<close>

lemma Process_reads:
  assumes "sound bits s" and "h \<noteq> kAddressGeneration"
  shows "PyReadMem (Process_methods fd) a n h v s =
    (if \<not> list_all (\<lambda>i. permitted h (process_memory s) (uint a + int i)) [0..<n div 8]
     then (False, v, s\<lparr>err_indicator := Some MemoryAccessException\<rparr>)
     else PyReadValue (Process_methods fd)
       (PyBytes (map (\<lambda>i. byte_at (process_memory s) (uint a + int i)) [0..<n div 8])) n v s)"
proof (cases "list_all (\<lambda>i. permitted h (process_memory s) (uint a + int i)) [0..<n div 8]")
  case True
  then have "\<forall>i < n div 8. mapped (process_memory s) (uint a + int i)"
    using permitted_mapped [OF _ assms(2)] by (auto simp: list_all_iff)
  with assms(1) have "Memory_load (process_memory s) (uint a) (n div 8) =
      Inr (map (\<lambda>i. byte_at (process_memory s) (uint a + int i)) [0..<n div 8])"
    by (intro flat.load_mapped) (simp_all add: sound_def)
  with True assms(1) show ?thesis by (simp add: PyReadMem_def Process_call_read_memory sound_def)
next
  case False
  with assms(1) show ?thesis by (simp add: PyReadMem_def Process_call_read_memory sound_def)
qed

lemma PyReadValue_bytes:
  assumes "\<not> has_error s"
  shows "PyReadValue py (PyBytes bs) n v s =
    (if min 64 ((n + 7) div 8) = length bs then (True, le_bytes bs, s)
     else (False, v, s\<lparr>has_error := True, error := Some PyExc_ValueError\<rparr>))"
proof -
  have "keep_bytes (length bs) (put_bits 0 (8 * length bs) (le_bytes bs :: Data) v) = le_bytes bs" if "length bs \<le> 64"
    using that by (intro bit_word_eqI) (auto simp: keep_bytes_def bit_simps bit_le_bytes)
  then show ?thesis using assms by (auto simp: PyReadValue_def Let_def)
qed

lemma sound_fields:
  "sound bits s \<Longrightarrow> \<not> has_error s" "sound bits s \<Longrightarrow> err_indicator s = None"
  by (simp_all add: sound_def)

lemma address_simulated:
  assumes "sound (mem_bits (proc_memory p)) s"
    and "ComputeAddress (Process_executor fd p) nm b i sc d n h s = (a, s')"
  shows "ComputeAddress (flat_machine (mem_bits (proc_memory p))) nm b i sc d n h (flat_of (user s)) = (a, flat_of (user s')) \<and> s' = s"
proof -
  let ?bits = "mem_bits (proc_memory p)"
  let ?i = "segment_base nm h (user s) + uint b + uint i * uint sc + uint d"
  have m: "mem_bits (proc_memory (user s)) = ?bits" "?bits \<in> {32, 64}"
    using assms(1) by (simp_all add: sound_def process_memory_def)
  with segment_bounds [of "user s" nm h] have sb: "0 \<le> segment_base nm h (user s)" "segment_base nm h (user s) < 2 ^ 64"
    by simp_all
  obtain j where j: "?i = j" by simp
  have "0 \<le> j" "j < 2 ^ 512" unfolding j [symmetric] by (rule address_value [OF sb])+
  then have "PyReadValue (Process_methods fd) (PyLong j) ?bits 0 s = (True, word_of_int j, s)"
    using sound_fields(1) [OF assms(1)] by (simp add: PyReadValue_def Let_def)
  then have "a = word_of_int j" "s' = s"
    using assms(2) sound_fields(1) [OF assms(1)]
    by (simp_all add: Process_executor_fields PyComputeAddress_def Process_calls j low_word)
  moreover have "flat_segment ?bits nm h (flat_of (user s)) = segment_base nm h (user s)"
    by (simp add: flat_segment_def segment_base_def flat_of_def m(1))
  ultimately show ?thesis by (simp add: flat_machine_def j [symmetric])
qed

lemma read_register_simulated:
  assumes "sound bits s" and "PyReadReg (Process_methods fd) nm n rh v s = (True, v', s')"
  shows "ReadReg (flat_machine bits) nm n rh v (flat_of (user s)) = (True, v', flat_of (user s')) \<and> s' = s"
  using assms(2) sound_fields(1) [OF assms(1)] by (auto simp: PyReadReg_def Process_calls PyReadValue_def flat_machine_def flat_of_def Let_def split: if_splits)

lemma flat_allows_of: "flat_allows (flat_of (user s)) h = permitted h (process_memory s)"
  by (simp add: flat_of_def process_memory_def)

lemma flat_bytes_of: "flat_bytes (flat_of (user s)) = byte_at (process_memory s)"
  by (simp add: flat_of_def process_memory_def)

lemma read_memory_simulated:
  assumes "sound bits s" and "h \<noteq> kAddressGeneration" and "PyReadMem (Process_methods fd) a n h v s = (True, v', s')"
  shows "ReadMem (flat_machine bits) a n h v (flat_of (user s)) = (True, v', flat_of (user s')) \<and> s' = s"
  using assms(3) unfolding Process_reads [OF assms(1,2)] PyReadValue_bytes [OF sound_fields(1) [OF assms(1)]]
  by (auto simp: flat_machine_def flat_allows_of flat_bytes_of split: if_splits)

lemma refetch_simulated:
  assumes "sound bits s" and "k \<le> max_inst_length"
    and "PyReadMem (Process_methods fd) a (k * 8) kReadExecutable v s = (False, v', s')"
  shows "s'\<lparr>err_indicator := None\<rparr> = s \<and>
    ReadMem (flat_machine bits) a (k * 8) kReadExecutable v (flat_of (user s)) = (False, v', flat_of (user s))"
proof -
  have "min 64 ((k * 8 + 7) div 8) = k" using assms(2) by (simp add: max_inst_length_def)
  then have "\<not> list_all (\<lambda>i. permitted kReadExecutable (process_memory s) (uint a + int i)) [0..<k] \<and>
      v' = v \<and> s' = s\<lparr>err_indicator := Some MemoryAccessException\<rparr>"
    using assms(3) unfolding Process_reads [OF assms(1) MemRequestHint.distinct(13)]
      PyReadValue_bytes [OF sound_fields(1) [OF assms(1)]]
    by (auto split: if_splits)
  moreover have "s\<lparr>err_indicator := None\<rparr> = s" using sound_fields(2) [OF assms(1)] by (cases s) simp
  ultimately show ?thesis by (auto simp: flat_machine_def flat_allows_of)
qed

lemma write_memory_simulated:
  assumes "sound bits s" and "PyWriteMem (Process_methods fd) a n v s = (True, s')"
  shows "WriteMem (flat_machine bits) a n v (flat_of (user s)) = (True, flat_of (user s')) \<and> sound bits s'"
proof -
  let ?bs = "word_bytes (n div 8) v"
  obtain e M where em: "Memory_store (uint a) ?bs (process_memory s) = (e, M)" by (metis surj_pair)
  have w: "PyWriteMem (Process_methods fd) a n v s = (case e of
      None \<Rightarrow> (True, s\<lparr>user := (user s)\<lparr>proc_memory := M\<rparr>\<rparr>)
    | Some e \<Rightarrow> (False, s\<lparr>user := (user s)\<lparr>proc_memory := M\<rparr>, err_indicator := Some e\<rparr>))"
    using sound_fields(1) [OF assms(1)] by (simp add: PyWriteMem_def Process_call_write_memory em split: option.split)
  have "e = None" using assms(2) unfolding w by (cases e) simp_all
  with em w assms(2) have st: "Memory_store (uint a) ?bs (process_memory s) = (None, M)"
    and s': "s' = s\<lparr>user := (user s)\<lparr>proc_memory := M\<rparr>\<rparr>" by simp_all
  have v: "valid_memory (process_memory s)" using assms(1) by (simp add: sound_def)
  have l: "same_layout (process_memory s) M" using Memory_store_layout [of "process_memory s" "uint a" ?bs] st by simp
  have "byte_at M = with_bytes (uint a) ?bs (byte_at (process_memory s))"
    by (rule ext) (simp add: with_bytes_def flat.store_bytes [OF v _ st])
  moreover have "permitted h M = permitted h (process_memory s)" for h
    by (rule ext) (simp add: permitted_def same_layout_can [OF l])
  moreover have "sound bits s'"
    using assms(1) l same_layout_valid [OF l] by (simp add: sound_def s' same_layout_def)
  ultimately show ?thesis by (simp add: flat_machine_def flat_of_def s' process_memory_def)
qed

interpretation process: simulation "Process_executor fd p" "flat_machine (mem_bits (proc_memory p))"
  "sound (mem_bits (proc_memory p))" "\<lambda>s. flat_of (user s)" for fd p
proof unfold_locales
  let ?E = "Process_executor fd p" and ?F = "flat_machine (mem_bits (proc_memory p))" and ?I = "sound (mem_bits (proc_memory p))"
  show "addr_size ?F = addr_size ?E" "has_avx ?F = has_avx ?E" "has_avx512 ?F = has_avx512 ?E"
    by (simp_all add: Process_executor_fields flat_machine_def)
  fix s s' :: "process pystate" and nm seg :: string and a b i sc d :: u64 and n k :: nat and v v' :: Data
    and f f' :: FPU and rh :: RegRequestHint and mh :: MemRequestHint
  assume I: "?I s"
  show "ComputeAddress ?F nm b i sc d n mh (flat_of (user s)) = (a, flat_of (user s')) \<and> ?I s'"
    if "ComputeAddress ?E nm b i sc d n mh s = (a, s')"
    using address_simulated [OF I that] I by simp
  show "ReadReg ?F nm n rh v (flat_of (user s)) = (True, v', flat_of (user s')) \<and> ?I s'"
    if "ReadReg ?E nm n rh v s = (True, v', s')"
    using read_register_simulated [OF I that [unfolded Process_executor_fields]] I by simp
  show "ReadMem ?F a n mh v (flat_of (user s)) = (True, v', flat_of (user s')) \<and> ?I s'"
    if "mh \<noteq> kAddressGeneration" and "ReadMem ?E a n mh v s = (True, v', s')"
    using read_memory_simulated [OF I that(1) that(2) [unfolded Process_executor_fields]] I by simp
  show "ReadFPU ?F f (flat_of (user s)) = (True, f', flat_of (user s')) \<and> ?I s'"
    if "ReadFPU ?E f s = (True, f', s')"
    using that sound_fields(1) [OF I] I
    by (auto simp: Process_executor_fields PyReadFPU_def Process_calls flat_machine_def flat_of_def split: if_splits)
  show "?I (ClearFetchError ?E s') \<and> (\<exists>t. ReadMem ?F a (k * 8) kReadExecutable v (flat_of (user s)) = (False, v', t) \<and>
      ClearFetchError ?F t = flat_of (user (ClearFetchError ?E s')))"
    if "k \<le> max_inst_length" and "ReadMem ?E a (k * 8) kReadExecutable v s = (False, v', s')"
    using refetch_simulated [OF I that(1) that(2) [unfolded Process_executor_fields]] I
    by (auto simp: Process_executor_fields flat_machine_def)
  show "WriteReg ?F nm n v (flat_of (user s)) = (True, flat_of (user s')) \<and> ?I s'" if "WriteReg ?E nm n v s = (True, s')"
    using that sound_fields(1) [OF I] I
    by (auto simp: Process_executor_fields PyWriteReg_def Process_calls flat_machine_def flat_of_def sound_def process_memory_def)
  show "WriteMem ?F a n v (flat_of (user s)) = (True, flat_of (user s')) \<and> ?I s'" if "WriteMem ?E a n v s = (True, s')"
    by (rule write_memory_simulated [OF I that [unfolded Process_executor_fields]])
  show "WriteFPU ?F f (flat_of (user s)) = (True, flat_of (user s')) \<and> ?I s'" if "WriteFPU ?E f s = (True, s')"
    using that I by (auto simp: Process_executor_fields PyWriteFPU_def Process_calls flat_machine_def flat_of_def sound_def process_memory_def)
qed

section \<open>Executions of a process\<close>

lemma Process_execute_good:
  assumes "valid_memory (proc_memory p)" and "mem_bits (proc_memory p) \<in> {32, 64}"
    and "Process_execute X H fd n (g, p) = Some (Inr (), g', p')"
  obtains s1 :: "process pystate" where "Execute X H (flat_machine (mem_bits (proc_memory p))) n (g, flat_of p) = Some (kGood, g', flat_of (user s1))"
    and "p' = tick n (user s1)" and "valid_memory (proc_memory p')"
  using assms(3)
proof (cases rule: Process_execute_cases)
  case (ran st s1)
  let ?bits = "mem_bits (proc_memory p)"
  have "sound ?bits (snd (g, start p))" using assms(1,2) by (simp add: sound_def start_def process_memory_def)
  moreover have "Execute X H (Process_executor fd p) n (g, start p) = Some (kGood, g', s1)" using ran by simp
  ultimately have "Execute X H (flat_machine ?bits) n (through (\<lambda>s. flat_of (user s)) (g, start p)) =
      Some (kGood, through (\<lambda>s. flat_of (user s)) (g', s1)) \<and> sound ?bits (snd (g', s1))"
    by (intro leadsD [OF process.Execute_leads])
  then show thesis using that [of s1] ran(3,4) by (simp add: start_def sound_def process_memory_def)
qed simp

text \<open>
  C6: the Python package implements the abstract machine. When \<open>Process.execute\<close> returns, the
  same instructions executed on registers by name and bytes by address succeed as well, and
  lead to the registers and bytes that the process has afterwards, but for the time stamp
  counter, which the process advances by the number of instructions.
\<close>

theorem process_refines_flat:
  assumes "valid_memory (proc_memory p)" and "mem_bits (proc_memory p) \<in> {32, 64}"
    and "Process_execute X H fd n (g, p) = Some (Inr (), g', p')"
  shows "\<exists>m. Execute X H (flat_machine (mem_bits (proc_memory p))) n (g, flat_of p) = Some (kGood, g', m) \<and>
    flat_of p' = m\<lparr>flat_regs := (flat_regs m)(''TSC'' := flat_regs m ''TSC'' + int n)\<rparr> \<and> valid_memory (proc_memory p')"
proof -
  obtain s1 :: "process pystate" where "Execute X H (flat_machine (mem_bits (proc_memory p))) n (g, flat_of p) = Some (kGood, g', flat_of (user s1))"
    and "p' = tick n (user s1)" and "valid_memory (proc_memory p')"
    by (rule Process_execute_good [OF assms])
  then show ?thesis by (intro exI [of _ "flat_of (user s1)"]) (simp add: flat_of_def tick_def)
qed

lemma code_process_valid: "valid_memory (proc_memory code_process)" "mem_bits (proc_memory code_process) = 64"
  by (simp_all add: valid_memory_def code_process_def)

theorem process_refines_flat_witness:
  "\<exists>g' m. Execute nop_xed sample_host (flat_machine 64) 1 (sample_gstate, flat_of code_process) = Some (kGood, g', m) \<and>
     flat_regs m ''RIP'' = 0x1001 \<and> flat_regs m ''TSC'' = 0"
proof -
  obtain g' p' where r: "Process_execute nop_xed sample_host (\<lambda>_. 0) 1 (sample_gstate, code_process) = Some (Inr (), g', p')"
    and p': "regs p' ''RIP'' = 0x1001" "regs p' ''TSC'' = 1" using nop_process_runs by auto
  have b: "mem_bits (proc_memory code_process) \<in> {32, 64}" by (simp add: code_process_valid)
  from process_refines_flat [OF code_process_valid(1) b r] obtain m where
    m: "Execute nop_xed sample_host (flat_machine 64) 1 (sample_gstate, flat_of code_process) = Some (kGood, g', m)"
    "flat_of p' = m\<lparr>flat_regs := (flat_regs m)(''TSC'' := flat_regs m ''TSC'' + 1)\<rparr>"
    by (auto simp: code_process_valid)
  have "flat_regs (flat_of p') = regs p'" by (simp add: flat_of_def)
  with m(2) have "regs p' = (flat_regs m)(''TSC'' := flat_regs m ''TSC'' + 1)" by simp
  from fun_cong [OF this, of "''RIP''"] fun_cong [OF this, of "''TSC''"] p' m(1) show ?thesis by auto
qed

text \<open>The executions of the abstract machine are sequences of transactions.\<close>

theorem Execute_transactions_witness:
  "machine (flat_machine 64) flat_write \<and>
   (\<exists>g' m. transactions nop_xed sample_host (flat_machine 64) flat_write 1 (sample_gstate, flat_of code_process) =
      Some (kGood, g', m) \<and> flat_regs m ''RIP'' = 0x1001)"
proof -
  obtain g' p' where r: "Process_execute nop_xed sample_host (\<lambda>_. 0) 1 (sample_gstate, code_process) = Some (Inr (), g', p')"
    and p': "regs p' ''RIP'' = 0x1001" using nop_process_runs by auto
  have b: "mem_bits (proc_memory code_process) \<in> {32, 64}" by (simp add: code_process_valid)
  obtain s1 :: "process pystate" where e: "Execute nop_xed sample_host (flat_machine 64) 1 (sample_gstate, flat_of code_process) =
      Some (kGood, g', flat_of (user s1))" and t: "p' = tick 1 (user s1)"
    by (rule Process_execute_good [OF code_process_valid(1) b r, unfolded code_process_valid(2)])
  have "flat_regs (flat_of (user s1)) ''RIP'' = 0x1001" using p' t by (simp add: tick_def flat_of_def)
  moreover have "gIsInitialized sample_gstate" by (simp add: sample_gstate_def)
  ultimately show ?thesis
    using Execute_transactions [OF flat_machine_machine, of nop_xed sample_host 64 1 sample_gstate "flat_of code_process"] e
      flat_machine_machine [of 64] by auto
qed

section \<open>One instruction\<close>

text \<open>The instruction runs on the stopped machine, and its reports lead to the state reached.\<close>

lemma Execute_one_stopped:
  assumes "machine E ap" and "Execute X H E 1 (g, m) = Some (kGood, g', m')"
  obtains log where "Execute X H (logged (stopped E m)) 1 (g, (), []) = Some (kGood, g', (), log)"
    and "m' = fold ap log m"
proof -
  have i: "gIsInitialized g" and e: "ExecuteOne X H E (g, m) = Some (kGood, g', m')"
    using assms(2) by (auto simp: Execute_def split: if_splits option.splits)
  let ?r = "ExecuteOne X H (logged (stopped E m)) (g, (), [])"
  have r: "replayed ap m ?r = Some (kGood, g', m')" using ExecuteOne_snapshot [OF assms(1), of X H g m] e by simp
  then obtain u where u: "?r = Some u" by (cases ?r) simp_all
  obtain st h v log where "u = (st, h, v, log)" by (metis prod_cases4)
  with r u have "?r = Some (kGood, g', (), log)" "m' = fold ap log m" by (simp_all add: replay_def)
  with i that show thesis by (simp add: Execute_def)
qed

text \<open>What is fetched: the executable bytes from the program counter on, fifteen at most.\<close>

definition code_bytes :: "flat \<Rightarrow> u64 \<Rightarrow> u8 list" where
  "code_bytes m pc = map (\<lambda>i. flat_bytes m (uint pc + int i))
     (takeWhile (\<lambda>i. flat_allows m kReadExecutable (uint pc + int i)) [0..<max_inst_length])"

lemma word_bytes_le_bytes:
  assumes "8 * length bs \<le> LENGTH('a)"
  shows "word_bytes (length bs) (le_bytes bs :: 'a::len word) = bs"
proof (rule nth_equalityI)
  fix i assume "i < length (word_bytes (length bs) (le_bytes bs :: 'a word))"
  then have i: "i < length bs" by simp
  have "bit (get_bits (8 * i) 8 (le_bytes bs :: 'a word) :: u8) j = bit (bs ! i) j" for j
    using assms i bit_imp_le_length [of "bs ! i" j] by (auto simp: bit_simps bit_le_bytes)
  with i show "word_bytes (length bs) (le_bytes bs :: 'a word) ! i = bs ! i"
    by (simp add: word_bytes_def bit_eq_iff)
qed simp

lemma fetch_stopped:
  assumes "fetch (stopped (flat_machine 64) m) pc n w = (k, w')" and "k \<noteq> 0" and "n \<le> max_inst_length"
  shows "k \<le> n" and "list_all (\<lambda>i. flat_allows m kReadExecutable (uint pc + int i)) [0..<k]"
    and "\<forall>j. k < j \<longrightarrow> j \<le> n \<longrightarrow> \<not> list_all (\<lambda>i. flat_allows m kReadExecutable (uint pc + int i)) [0..<j]"
    and "idata (fst w') = le_bytes (map (\<lambda>i. flat_bytes m (uint pc + int i)) [0..<k])"
proof -
  let ?ok = "\<lambda>n. list_all (\<lambda>i. flat_allows m kReadExecutable (uint pc + int i)) [0..<n]"
  have "k \<le> n \<and> ?ok k \<and> (\<forall>j. k < j \<longrightarrow> j \<le> n \<longrightarrow> \<not> ?ok j) \<and>
      idata (fst w') = le_bytes (map (\<lambda>i. flat_bytes m (uint pc + int i)) [0..<k])"
    using assms
  proof (induction n arbitrary: w)
    case (Suc n)
    have d: "(Suc n * 8) div 8 = Suc n" by simp
    show ?case
    proof (cases "?ok (Suc n)")
      case True
      with Suc.prems(1) have "k = Suc n" "idata (fst w') = le_bytes (map (\<lambda>i. flat_bytes m (uint pc + int i)) [0..<Suc n])"
        by (auto simp: stopped_def flat_machine_def d simp del: upt_Suc mult_Suc)
      with True show ?thesis by simp
    next
      case False
      with Suc.prems(1) obtain w1 where "fetch (stopped (flat_machine 64) m) pc n w1 = (k, w')"
        by (auto simp: stopped_def flat_machine_def d simp del: upt_Suc mult_Suc)
      from Suc.IH [OF this Suc.prems(2)] Suc.prems(3) have "k \<le> n" "?ok k"
        "\<forall>j. k < j \<longrightarrow> j \<le> n \<longrightarrow> \<not> ?ok j" "idata (fst w') = le_bytes (map (\<lambda>i. flat_bytes m (uint pc + int i)) [0..<k])"
        by simp_all
      with False show ?thesis by (auto simp: le_Suc_eq simp del: upt_Suc)
    qed
  qed simp
  then show "k \<le> n" "?ok k" "\<forall>j. k < j \<longrightarrow> j \<le> n \<longrightarrow> \<not> ?ok j"
    "idata (fst w') = le_bytes (map (\<lambda>i. flat_bytes m (uint pc + int i)) [0..<k])" by blast+
qed

lemma takeWhile_upt:
  assumes "list_all P [0..<k]" and "k \<le> n" and "\<forall>j. k < j \<longrightarrow> j \<le> n \<longrightarrow> \<not> list_all P [0..<j]"
  shows "takeWhile P [0..<n] = [0..<k]"
proof (cases "k = n")
  case True
  with assms(1) show ?thesis by (simp add: takeWhile_eq_all_conv list_all_iff)
next
  case False
  with assms(2) have s: "[0..<n] = [0..<k] @ k # [Suc k..<n]"
    using upt_add_eq_append [of 0 k "n - k"] by (simp add: upt_conv_Cons)
  have "\<not> list_all P [0..<Suc k]" using assms(2,3) False by (auto simp del: upt_Suc)
  with assms(1) have "\<not> P k" by simp
  with assms(1) show ?thesis unfolding s by (subst takeWhile_append2) (simp_all add: list_all_iff)
qed

end
