(* ===== verification/Pop.thy ===== *)
theory Pop
  imports Push
begin

text \<open>
  A pop into a register from the call of \<open>Execute\<close> to the reports, for a 64-bit executor: no
  memory is written, and the register, the stack pointer and the program counter are
  reported.
\<close>

section \<open>The pop itself\<close>

definition plain_pop :: "xed \<Rightarrow> xed_decoded_inst \<Rightarrow> xed_reg \<Rightarrow> bool" where
  "plain_pop X d r \<longleftrightarrow> get_iform_enum d = Stk XED_IFORM_POP_GPRv_58 \<and> stack_inst X False d r"

text \<open>The register is a 64-bit one other than the stack pointer and the program counter.\<close>

definition pop_regs :: "xed \<Rightarrow> xed_reg \<Rightarrow> bool" where
  "pop_regs X r \<longleftrightarrow> stack_regs X r \<and> get_register_width_bits64 X r = 64 \<and>
     (let q = get_largest_enclosing_register X r in
      q \<noteq> reg X XED_REG_RSP \<and> \<not> is_pc X q \<and> q < reg X XED_REG_LAST)"

lemma perform_pop:
  assumes "xed_ok X" and "addr_size E = 64" and "get_iform_enum (gXedd g) = Stk XED_IFORM_POP_GPRv_58"
    and "pop_regs X r" and "get_reg (gXedd g) XED_OPERAND_REG0 = r"
  shows "perform X H E npc g = Some (kGood, npc,
    g\<lparr>gRegs := (gRegs g)(
      get_largest_enclosing_register X r := put_bits 0 64 (memv 0 g) (gRegs g (get_largest_enclosing_register X r)),
      reg X XED_REG_RSP := put_bits 0 64
        (ReadGPR X (reg X XED_REG_RSP) g + of_nat (effective_operand_width (gEmu g) div 8)) (gRegs g (reg X XED_REG_RSP)))\<rparr>)"
proof -
  let ?q = "get_largest_enclosing_register X r" and ?sp = "reg X XED_REG_RSP"
  have w: "WidestRegister X E (reg X XED_REG_ESP) = ?sp"
    using assms(2) by (simp add: WidestRegister_pair [OF xed_ok_pairs(2) [OF assms(1)]])
  have q: "get_register_width_bits64 X r = 64" "?q \<noteq> ?sp" using assms(4) by (simp_all add: pop_regs_def Let_def)
  let ?g = "g\<lparr>gRegs := (gRegs g)(?q := put_bits 0 64 (memv 0 g) (gRegs g ?q))\<rparr>"
  have "WriteGPR X r (memv 0 g) g = ?g" using q(1) by (simp add: WriteGPR_def WriteValue_def Let_def)
  moreover have "ReadGPR X ?sp ?g = ReadGPR X ?sp g"
    using q(2) RSP_facts(1) [OF assms(1)] by (simp add: ReadGPR_def ReadValue_def Let_def)
  ultimately show ?thesis
    using assms(2,3,5) q(2)
    by (simp add: perform_def Emulate_def emulate_stk_def handled_def add_stack_def w mask_pc_def
        WriteGPR_RSP [OF assms(1)] Let_def)
qed

text \<open>The reports of a pop, for a register cached as \<open>q\<close>, a stack pointer \<open>sp\<close>, operand
  size \<open>n\<close> and value \<open>v\<close>: the register and the stack pointer, in the order of their numbers,
  and the program counter.\<close>

definition pop_reported :: "xed \<Rightarrow> xed_reg \<Rightarrow> u64 \<Rightarrow> u64 \<Rightarrow> u64 \<Rightarrow> u64 \<Rightarrow> written list \<Rightarrow> bool" where
  "pop_reported X q sp n v npc ws \<longleftrightarrow> (\<exists>x sp' pc.
     ws \<in> {[WroteReg (reg_enum_t2str X q) 64 x, WroteReg (reg_enum_t2str X (reg X XED_REG_RSP)) 64 sp',
             WroteReg (reg_enum_t2str X (reg X XED_REG_RIP)) 64 pc],
           [WroteReg (reg_enum_t2str X (reg X XED_REG_RSP)) 64 sp', WroteReg (reg_enum_t2str X q) 64 x,
             WroteReg (reg_enum_t2str X (reg X XED_REG_RIP)) 64 pc]} \<and>
     get_bits 0 64 x = v \<and> get_bits 0 64 sp' = sp + n \<and> get_bits 0 64 pc = npc)"

lemma filter_two:
  assumes "distinct xs" and "x \<in> set xs" and "y \<in> set xs" and "x \<noteq> y"
  shows "filter (\<lambda>z. z = x \<or> z = y) xs \<in> {[x, y], [y, x]}"
  using assms
proof (induction xs)
  case (Cons z zs)
  consider "z = x" | "z = y" | "z \<noteq> x" "z \<noteq> y" by blast
  then show ?case
  proof cases
    case 1
    then have "filter (\<lambda>z. z = x \<or> z = y) zs = filter (\<lambda>z. z = y) zs" using Cons.prems(1) by (intro filter_cong) auto
    with 1 show ?thesis using Cons.prems filter_single [of zs y] by auto
  next
    case 2
    then have "filter (\<lambda>z. z = x \<or> z = y) zs = filter (\<lambda>z. z = x) zs" using Cons.prems(1) by (intro filter_cong) auto
    with 2 show ?thesis using Cons.prems filter_single [of zs x] by auto
  next
    case 3
    then show ?thesis using Cons by auto
  qed
qed simp

lemma pop_written_regs:
  assumes "xed_ok X" and "addr_size E = 64" and "plain_pop X d r" and "pop_regs X r"
  shows "written_regs X E d \<in> {[get_largest_enclosing_register X r, reg X XED_REG_RSP],
    [reg X XED_REG_RSP, get_largest_enclosing_register X r]}"
proof -
  let ?sp = "reg X XED_REG_RSP" and ?q = "get_largest_enclosing_register X r"
  have i: "stack_inst X False d r" and l: "?sp < reg X XED_REG_LAST" "?q < reg X XED_REG_LAST" and r: "stack_regs X r"
    and q: "?q \<noteq> ?sp" "\<not> is_pc X ?q" "?q \<noteq> reg X XED_REG_RFLAGS"
    using assms(3,4) by (simp_all add: plain_pop_def pop_regs_def stack_regs_def Let_def)
  have f: "flags_reg_of X E \<noteq> ?sp" "flags_reg_of X E \<noteq> ?q"
    using flags_reg_64 [OF assms(1,2)] RSP_facts(7) [OF assms(1)] q(3) by metis+
  have n: "written_names X E d = {?sp, ?q}" using stack_gathered(3) [OF assms(1) i r assms(2)] by simp
  have "(p \<in> written_names X E d \<and> p \<noteq> flags_reg_of X E \<and> \<not> is_pc X p) = (p = ?q \<or> p = ?sp)" for p
    unfolding n using f q RSP_facts(5) [OF assms(1)] by blast
  then show ?thesis using filter_two [of "[0..<reg X XED_REG_LAST]" ?q ?sp] l q(1) by (simp add: written_regs_def)
qed

section \<open>From the call to the reports\<close>

text \<open>The executor holds the value \<open>v\<close> in the cell of \<open>n\<close> bits at \<open>a\<close>.\<close>

definition holds_cell :: "'s executor \<Rightarrow> u64 \<Rightarrow> nat \<Rightarrow> u64 \<Rightarrow> bool" where
  "holds_cell E a n v \<longleftrightarrow> (\<forall>s d s'. ReadMem E a n kReadOnly 0 s = (True, d, s') \<longrightarrow> get_bits 0 64 d = v)"

lemma pop_writes:
  assumes "xed_ok X" and "pc_plain X" and "addr_size E = 64" and "default_address E" and "serves E val"
    and "code_at X E (val (reg_enum_t2str X (reg X XED_REG_RIP))) d" and "plain_pop X d r" and "pop_regs X r"
    and "holds_cell E (mask_address (get_memop_address_width d 0) (val (reg_enum_t2str X (reg X XED_REG_RSP))))
      (8 * get_memory_operand_length d 0) v"
    and "Execute X H (logged E) 1 (g, s, log) = Some (kGood, g', s', log')"
  shows "\<exists>ws. log' = log @ ws \<and> pop_reported X (get_largest_enclosing_register X r)
    (val (reg_enum_t2str X (reg X XED_REG_RSP))) (of_nat (get_operand_width d div 8)) v
    (val (reg_enum_t2str X (reg X XED_REG_RIP)) + of_nat (get_length d)) ws"
proof -
  let ?sp = "val (reg_enum_t2str X (reg X XED_REG_RSP))" and ?n = "of_nat (get_operand_width d div 8) :: u64"
  let ?npc = "val (reg_enum_t2str X (reg X XED_REG_RIP)) + of_nat (get_length d)" and ?q = "get_largest_enclosing_register X r"
  have i: "stack_inst X False d r" "get_iform_enum d = stack_form False"
    using assms(7) by (simp_all add: plain_pop_def stack_form_def)
  have r: "stack_regs X r" "?q \<noteq> reg X XED_REG_RSP" using assms(8) by (simp_all add: pop_regs_def Let_def)
  obtain g1 s1 npc g2 where rdy: "stack_ready X E val False d r g1" and slot: "cell_slot False d ?sp E (gMemory g1 0)"
    and none: "\<not> present (gMemory g1 1)" and p: "perform X H (logged E) ?npc g1 = Some (kGood, npc, g2)"
    and c: "commit X (logged E) npc (g2, s1, log) = Some (kGood, g', s', log')"
    by (rule stack_prepared [OF assms(1-6) i r(1) assms(10)])
  note g1 = rdy [unfolded stack_ready_def] and sp = RSP_facts [OF assms(1)]
  have rd: "ReadGPR X (reg X XED_REG_RSP) g1 = ?sp"
    using coherent_ReadGPR [of X val g1 "reg X XED_REG_RSP"] sp g1 by simp
  have v: "memv 0 g1 = v"
    using slot assms(9) by (auto simp: cell_slot_def cell_address_def holds_cell_def memv_def)
  let ?R = "(gRegs g1)(?q := put_bits 0 64 v (gRegs g1 ?q),
      reg X XED_REG_RSP := put_bits 0 64 (?sp + ?n) (gRegs g1 (reg X XED_REG_RSP)))"
  have form: "get_iform_enum (gXedd g1) = Stk XED_IFORM_POP_GPRv_58" "get_reg (gXedd g1) XED_OPERAND_REG0 = r"
    using g1 assms(7) i(1) by (simp_all add: plain_pop_def stack_inst_def)
  have "g2 = g1\<lparr>gMemory := gMemory g1, gRegs := ?R\<rparr>" "npc = ?npc"
    using p perform_pop [OF assms(1) _ form(1) assms(8) form(2), of "logged E" H ?npc] assms(3) rd v g1 by simp_all
  then have c: "commit X (logged E) ?npc (g1\<lparr>gMemory := gMemory g1, gRegs := ?R\<rparr>, s1, log) = Some (kGood, g', s', log')"
    using c by simp
  have l: "reg X XED_REG_RIP < reg X XED_REG_LAST" using assms(2) by (simp add: pc_plain_def)
  have m: "present (gMemory g1 0)" "write_back (gMemory g1 0) = False" using slot by (simp_all add: cell_slot_def)
  obtain pc where log': "log' = log @ map (\<lambda>r. WroteReg (reg_enum_t2str X r) 64 (?R r)) (written_regs X E d) @
      [WroteReg (reg_enum_t2str X (reg X XED_REG_RIP)) 64 pc]" and pc: "get_bits 0 64 pc = ?npc"
    using stack_committed [OF assms(1,3) l i(1) r(1) rdy m none c] by auto
  have "get_bits 0 64 (?R ?q) = v" "get_bits 0 64 (?R (reg X XED_REG_RSP)) = ?sp + ?n"
    using r(2) by (simp_all add: get_put_bits)
  then have "pop_reported X ?q ?sp ?n v ?npc (map (\<lambda>r. WroteReg (reg_enum_t2str X r) 64 (?R r)) (written_regs X E d) @
      [WroteReg (reg_enum_t2str X (reg X XED_REG_RIP)) 64 pc])"
    unfolding pop_reported_def using pop_written_regs [OF assms(1,3,7,8)] pc
    by (intro exI [of _ "?R ?q"] exI [of _ "?R (reg X XED_REG_RSP)"] exI [of _ pc] conjI) auto
  with log' show ?thesis by blast
qed

end
