(* ===== verification/ProcessPush.thy ===== *)
theory ProcessPush
  imports FlatMachine Pop
begin

text \<open>
  A push, from the call of \<open>Process.execute\<close> in Python to the registers and bytes of the
  process: the refinement to the abstract machine, the instruction as a transaction and the
  reports of a push, put together.
\<close>

section \<open>Bytes and integers\<close>

lemma bit_int_of_bytes: "bit (int_of_bytes bs) i \<longleftrightarrow> i < 8 * length bs \<and> bit (bs ! (i div 8)) (i mod 8)"
proof (induction bs arbitrary: i)
  case (Cons b bs)
  have "256 * int_of_bytes bs = push_bit 8 (int_of_bytes bs)" by (simp add: push_bit_eq_mult)
  moreover have "uint b + push_bit 8 (int_of_bytes bs) = uint b OR push_bit 8 (int_of_bytes bs)"
    by (intro disjunctive_add_eq_or) (auto simp: bit_eq_iff bit_simps dest: bit_imp_le_length)
  ultimately have s: "int_of_bytes (b # bs) = uint b OR push_bit 8 (int_of_bytes bs)" by simp
  show ?case
  proof (cases "i < 8")
    case True
    then show ?thesis unfolding s by (auto simp: bit_simps)
  next
    case False
    then obtain j where j: "i = 8 + j" using le_Suc_ex not_le by blast
    moreover have "(8 + j) div 8 = Suc (j div 8)" by simp
    moreover have "\<not> bit (uint b) (8 + j)" using bit_imp_le_length [of b "8 + j"] by (auto simp: bit_uint_iff)
    ultimately show ?thesis unfolding s by (auto simp: bit_simps Cons.IH)
  qed
qed simp

lemma int_of_word_bytes: "int_of_bytes (word_bytes 8 v) = uint (get_bits 0 64 v :: u64)" for v :: Data
  by (rule bit_eqI)
    (auto simp: bit_int_of_bytes word_bytes_def bit_simps div_less_iff_less_mult bit_uint_iff)

lemma word_bytes_low: "n \<le> 8 \<Longrightarrow> word_bytes n v = word_bytes n (get_bits 0 64 v :: u64)" for v :: Data
  by (rule nth_equalityI) (auto simp: word_bytes_def bit_eq_iff bit_simps)

section \<open>The stopped machine\<close>

definition flat_value :: "flat \<Rightarrow> string \<Rightarrow> u64" where
  "flat_value m nm = word_of_int (flat_regs m nm)"

text \<open>Flat segments: every segment begins at zero.\<close>

definition flat_segments :: "flat \<Rightarrow> bool" where
  "flat_segments m \<longleftrightarrow> (\<forall>seg. take_bit 64 (flat_regs m (seg @ ''_BASE'')) = 0)"

lemma stopped_serves: "serves (stopped (flat_machine 64) m) (flat_value m)"
  by (auto simp: serves_def stopped_def flat_machine_def flat_value_def low_word Let_def)

lemma stopped_address:
  assumes "flat_segments m"
  shows "default_address (stopped (flat_machine 64) m)"
  using assms
  by (simp add: default_address_def stopped_def flat_machine_def flat_segment_def flat_segments_def
      Executor_ComputeAddress_def flip: take_bit_eq_mask)

lemma code_at_stopped:
  assumes "xed_ok X" and "flat_segments m" and "snd (xed_decode X kXEDState64 (code_bytes m pc)) = d"
  shows "code_at X (stopped (flat_machine 64) m) pc d"
proof -
  let ?E = "stopped (flat_machine 64) m"
  have a: "addr_size ?E = 64" "addr_ok ?E" by (simp_all add: flat_machine_def addr_ok_def)
  show ?thesis
    unfolding code_at_def a
  proof (intro allI impI)
    fix g g' :: gstate and s s' :: unit and n
    assume g: "get_bits 0 64 (gRegs g (reg X XED_REG_RIP)) = pc" and f: "FetchInstruction X ?E (g, s) = (n, g', s')" and n: "n \<noteq> 0"
    have "GetPC X ?E g = pc" using GetPC_slot [OF assms(1) a(2)] g a(1) by (simp add: mask_pc_def)
    moreover have "ComputeAddress ?E ''CS'' pc 0 0 0 8 kReadExecutable s = (pc, s)"
      using stopped_address [OF assms(2)] by (simp add: default_address_def Executor_ComputeAddress_def)
    ultimately have "fetch ?E pc max_inst_length (g, s) = (n, g', s')" using f by (simp add: FetchInstruction_def)
    note r = fetch_stopped [OF this n order_refl]
    have bs: "code_bytes m pc = map (\<lambda>i. flat_bytes m (uint pc + int i)) [0..<n]"
      unfolding code_bytes_def by (subst takeWhile_upt [OF r(2,1,3)]) (rule refl)
    have "word_bytes n (idata g') = code_bytes m pc"
      using r(1,4) word_bytes_le_bytes [of "code_bytes m pc", where 'a = 512] by (simp add: bs max_inst_length_def)
    with assms(3) show "snd (xed_decode X (if 32 = (64 :: nat) then kXEDState32 else kXEDState64) (word_bytes n (idata g'))) = d"
      by simp
  qed
qed

section \<open>A push of a process\<close>

text \<open>The registers and bytes after a push: the stack pointer \<open>sp\<close>, the program counter \<open>pc\<close>
  and \<open>v\<close> in the \<open>n\<close> bytes at \<open>a\<close>.\<close>

definition pushed :: "xed \<Rightarrow> u64 \<Rightarrow> u64 \<Rightarrow> u64 \<Rightarrow> nat \<Rightarrow> u64 \<Rightarrow> process \<Rightarrow> process \<Rightarrow> bool" where
  "pushed X sp pc a n v p p' \<longleftrightarrow>
     regs p' = regs (tick 1 (p\<lparr>regs := (regs p)(reg_enum_t2str X (reg X XED_REG_RSP) := uint sp,
       reg_enum_t2str X (reg X XED_REG_RIP) := uint pc)\<rparr>)) \<and>
     byte_at (proc_memory p') = with_bytes (uint a) (word_bytes n v) (byte_at (proc_memory p)) \<and>
     fpu_data p' = fpu_data p"

lemma push_replayed:
  assumes "push_reported X d sp n v npc ws" and "get_memory_operand_length d 0 \<le> 8"
  shows "fold flat_write ws m =
    m\<lparr>flat_regs := (flat_regs m)(reg_enum_t2str X (reg X XED_REG_RSP) := uint (sp - n),
        reg_enum_t2str X (reg X XED_REG_RIP) := uint npc),
      flat_bytes := with_bytes (uint (mask_address (get_memop_address_width d 0) (sp - n)))
        (word_bytes (get_memory_operand_length d 0) v) (flat_bytes m)\<rparr>"
proof -
  obtain u sp' pc where ws: "ws = [WroteMem (mask_address (get_memop_address_width d 0) (sp - n)) (8 * get_memory_operand_length d 0) u,
       WroteReg (reg_enum_t2str X (reg X XED_REG_RSP)) 64 sp', WroteReg (reg_enum_t2str X (reg X XED_REG_RIP)) 64 pc]"
    and b: "get_bits 0 64 u = v" "get_bits 0 64 sp' = sp - n" "get_bits 0 64 pc = npc"
    using assms(1) unfolding push_reported_def by blast
  have d: "(64 + 7) div 8 = (8 :: nat)" "8 * get_memory_operand_length d 0 div 8 = get_memory_operand_length d 0" by simp_all
  show ?thesis
    unfolding ws fold_simps comp_apply id_apply flat_write.simps d int_of_word_bytes b word_bytes_low [OF assms(2), of u]
    by simp
qed

text \<open>The instruction on the abstract machine that stands at a push.\<close>

definition decodes_at :: "xed \<Rightarrow> flat \<Rightarrow> xed_decoded_inst \<Rightarrow> bool" where
  "decodes_at X m d \<longleftrightarrow> snd (xed_decode X kXEDState64 (code_bytes m (flat_value m (reg_enum_t2str X (reg X XED_REG_RIP))))) = d"

lemma flat_push:
  assumes "xed_ok X" and "pc_plain X" and "plain_push X d r" and "stack_regs X r" and "get_memory_operand_length d 0 \<le> 8"
    and "flat_segments m" and "decodes_at X m d" and "Execute X H (flat_machine 64) 1 (g, m) = Some (kGood, g', m')"
  shows "let sp = flat_value m (reg_enum_t2str X (reg X XED_REG_RSP)) - of_nat (get_operand_width d div 8);
      pc = flat_value m (reg_enum_t2str X (reg X XED_REG_RIP)) + of_nat (get_length d);
      v = take_bit (get_register_width_bits64 X r) (flat_value m (reg_enum_t2str X (get_largest_enclosing_register X r))) in
    m' = m\<lparr>flat_regs := (flat_regs m)(reg_enum_t2str X (reg X XED_REG_RSP) := uint sp,
        reg_enum_t2str X (reg X XED_REG_RIP) := uint pc),
      flat_bytes := with_bytes (uint (mask_address (get_memop_address_width d 0) sp))
        (word_bytes (get_memory_operand_length d 0) v) (flat_bytes m)\<rparr>"
proof -
  let ?E = "stopped (flat_machine 64) m"
  obtain ws where e: "Execute X H (logged ?E) 1 (g, (), []) = Some (kGood, g', (), ws)"
    and m': "m' = fold flat_write ws m"
    by (rule Execute_one_stopped [OF flat_machine_machine assms(8)])
  have code: "code_at X ?E (flat_value m (reg_enum_t2str X (reg X XED_REG_RIP))) d"
    by (rule code_at_stopped [OF assms(1,6)]) (use assms(7) in \<open>simp add: decodes_at_def\<close>)
  have a64: "addr_size ?E = 64" by (simp add: flat_machine_def)
  show ?thesis
    using push_writes [OF assms(1,2) a64 stopped_address [OF assms(6)] stopped_serves code assms(3,4) e]
      push_replayed [OF _ assms(5), of X _ _ _ _ _ m] m'
    by (auto simp: Let_def)
qed

text \<open>
  C2: from Python to Python: when a 64-bit process with flat segments stands at a push of a
  register and \<open>execute\<close> returns, then exactly this has changed: the stack pointer has moved
  down by the operand size, the register's value lies in the bytes there, the program
  counter has moved past the instruction, and the time stamp counter has advanced by one.
  The bytes from which XED decodes the instruction are the executable ones at the program
  counter.
\<close>

theorem process_push:
  assumes "xed_ok X" and "pc_plain X" and "plain_push X d r" and "stack_regs X r" and "get_memory_operand_length d 0 \<le> 8"
    and "valid_memory (proc_memory p)" and "mem_bits (proc_memory p) = 64" and "flat_segments (flat_of p)"
    and "decodes_at X (flat_of p) d" and "Process_execute X H fd 1 (g, p) = Some (Inr (), g', p')"
  shows "let sp = word_of_int (regs p (reg_enum_t2str X (reg X XED_REG_RSP))) - of_nat (get_operand_width d div 8);
      pc = word_of_int (regs p (reg_enum_t2str X (reg X XED_REG_RIP))) + of_nat (get_length d);
      v = take_bit (get_register_width_bits64 X r)
        (word_of_int (regs p (reg_enum_t2str X (get_largest_enclosing_register X r)))) in
    pushed X sp pc (mask_address (get_memop_address_width d 0) sp) (get_memory_operand_length d 0) v p p'"
proof -
  have bits: "mem_bits (proc_memory p) \<in> {32, 64}" using assms(7) by simp
  obtain s1 :: "process pystate" where x: "Execute X H (flat_machine 64) 1 (g, flat_of p) = Some (kGood, g', flat_of (user s1))"
    and p': "p' = tick 1 (user s1)"
    by (rule Process_execute_good [OF assms(6) bits assms(10), unfolded assms(7)])
  have val: "flat_value (flat_of p) nm = word_of_int (regs p nm)" for nm by (simp add: flat_value_def flat_of_def)
  from flat_push [OF assms(1-5,8,9) x] p' show ?thesis
    unfolding pushed_def Let_def val by (simp add: flat_of_def tick_def)
qed

text \<open>A process that stands at \<open>push rcx\<close>, the byte 0x51, with an empty stack below 0x6010.\<close>

definition push_process :: process where
  "push_process = \<lparr>proc_memory = \<lparr>mem_bits = 64, page_shift = 12, memory_maps = [0x401 \<mapsto> 0, 6 \<mapsto> 1],
     arrays = (\<lambda>k. if k = 0
       then \<lparr>map_base = 0x401000, map_limit = 0x401001, map_read = True, map_write = False, map_exec = True, map_data = [0x51]\<rparr>
       else \<lparr>map_base = 0x6000, map_limit = 0x6010, map_read = True, map_write = True, map_exec = False,
         map_data = [0, 0, 0, 0, 0, 0, 0, 0, 0, 0, 0, 0, 0, 0, 0, 0]\<rparr>)\<rparr>,
     regs = (\<lambda>nm. if nm = ''RIP'' then 0x401000 else if nm = ''RSP'' then 0x6010 else if nm = ''RCX'' then 5 else 0),
     fpu_data = []\<rparr>"

definition push_decoder :: xed where
  "push_decoder = sample_xed\<lparr>xed_decode := (\<lambda>st bs. (bs \<noteq> [], if bs = [0x51] then push_inst else sample_inst))\<rparr>"

lemma push_process_runs:
  "map_option (\<lambda>(r, g, p). r) (Process_execute push_decoder sample_host (\<lambda>_. 0) 1 (sample_gstate, push_process)) = Some (Inr ())"
  by code_simp

lemma push_process_valid: "valid_memory (proc_memory push_process)" "mem_bits (proc_memory push_process) = 64"
  by (auto simp: valid_memory_def push_process_def split: if_splits)

lemma no_base: "nm \<in> {''RIP'', ''RSP'', ''RCX''} \<Longrightarrow> seg @ ''_BASE'' \<noteq> nm"
proof
  assume nm: "nm \<in> {''RIP'', ''RSP'', ''RCX''}" and "seg @ ''_BASE'' = nm"
  then have "last nm = CHR ''E''" by auto
  with nm show False by auto
qed

lemma push_process_flat: "flat_segments (flat_of push_process)"
  by (simp add: flat_segments_def flat_of_def push_process_def no_base)

theorem process_push_witness:
  "\<exists>g' p'. Process_execute push_decoder sample_host (\<lambda>_. 0) 1 (sample_gstate, push_process) = Some (Inr (), g', p') \<and>
     regs p' ''RSP'' = 0x6008 \<and> regs p' ''RIP'' = 0x401001 \<and> regs p' ''TSC'' = 1 \<and> byte_at (proc_memory p') 0x6008 = 5"
proof -
  obtain g' p' where r: "Process_execute push_decoder sample_host (\<lambda>_. 0) 1 (sample_gstate, push_process) = Some (Inr (), g', p')"
    using push_process_runs by auto
  have x: "xed_ok push_decoder" "pc_plain push_decoder"
    by (simp add: push_decoder_def xed_ok_decode sample_xed_ok)
      (simp add: push_decoder_def pc_plain_def is_stack_pseudo_def sample_xed_simps)
  have p: "plain_push push_decoder push_inst 12" "stack_regs push_decoder 12" "get_memory_operand_length push_inst 0 \<le> 8"
    by code_simp+
  have n: "reg_enum_t2str push_decoder (reg push_decoder XED_REG_RSP) = ''RSP''"
    "reg_enum_t2str push_decoder (reg push_decoder XED_REG_RIP) = ''RIP''"
    "reg_enum_t2str push_decoder (get_largest_enclosing_register push_decoder 12) = ''RCX''"
    "get_register_width_bits64 push_decoder 12 = 64" "get_operand_width push_inst div 8 = 8" "get_length push_inst = 1"
    "get_memory_operand_length push_inst 0 = 8" "get_memop_address_width push_inst 0 = 64"
    by code_simp+
  have v: "regs push_process ''RSP'' = 0x6010" "regs push_process ''RIP'' = 0x401000" "regs push_process ''RCX'' = 5"
    "regs push_process ''TSC'' = 0"
    by (simp_all add: push_process_def)
  have "code_bytes (flat_of push_process) (word_of_int (regs push_process ''RIP'')) = [0x51]" by code_simp
  then have c: "decodes_at push_decoder (flat_of push_process) push_inst"
    unfolding decodes_at_def n by (simp add: flat_value_def flat_of_def push_decoder_def push_process_def)
  have "pushed push_decoder 0x6008 0x401001 0x6008 8 5 push_process p'"
    using process_push [OF x p push_process_valid push_process_flat c r]
    by (simp add: n v Let_def mask_address_def)
  then have "regs p' = regs (tick 1 (push_process\<lparr>regs := (regs push_process)(''RSP'' := 0x6008, ''RIP'' := 0x401001)\<rparr>))"
    "byte_at (proc_memory p') 0x6008 = with_bytes 0x6008 (word_bytes 8 (5 :: u64)) (byte_at (proc_memory push_process)) 0x6008"
    by (simp_all add: pushed_def n)
  moreover have "word_bytes 8 (5 :: u64) ! 0 = 5" by code_simp
  ultimately show ?thesis using r v by (simp add: tick_def with_bytes_def)
qed

end
