(* ===== verification/ProcessStack.thy ===== *)
theory ProcessStack
  imports ProcessPush
begin

text \<open>
  A pop on the abstract machine, and a push followed by a pop, executed by one call of
  \<open>Process.execute\<close>: two transactions, the second of which reads the cell that the first
  has written.
\<close>

section \<open>A pop on the abstract machine\<close>

definition flat_cell :: "flat \<Rightarrow> u64 \<Rightarrow> nat \<Rightarrow> u64" where
  "flat_cell m a n = le_bytes (map (\<lambda>i. flat_bytes m (uint a + int i)) [0..<n])"

lemma stopped_holds_cell: "holds_cell (stopped (flat_machine 64) m) a (8 * n) (flat_cell m a n)"
proof -
  have "(get_bits 0 64 (le_bytes bs :: Data) :: u64) = le_bytes bs" for bs
    by (rule bit_word_eqI) (auto simp: bit_simps bit_le_bytes)
  then show ?thesis by (auto simp: holds_cell_def stopped_def flat_machine_def flat_cell_def)
qed

lemma pop_replayed:
  assumes "pop_reported X q sp n v npc ws" and "reg_enum_t2str X q \<noteq> reg_enum_t2str X (reg X XED_REG_RSP)"
  shows "fold flat_write ws m = m\<lparr>flat_regs := (flat_regs m)(reg_enum_t2str X q := uint v,
      reg_enum_t2str X (reg X XED_REG_RSP) := uint (sp + n), reg_enum_t2str X (reg X XED_REG_RIP) := uint npc)\<rparr>"
proof -
  have d: "(64 + 7) div 8 = (8 :: nat)" by simp
  show ?thesis
    using assms unfolding pop_reported_def
    by (elim exE conjE insertE emptyE)
      (simp_all add: d int_of_word_bytes fun_upd_twist [of "reg_enum_t2str X q" "reg_enum_t2str X (reg X XED_REG_RSP)"] del: div_add)
qed

lemma flat_pop:
  assumes "xed_ok X" and "pc_plain X" and "plain_pop X d r" and "pop_regs X r"
    and "reg_enum_t2str X (get_largest_enclosing_register X r) \<noteq> reg_enum_t2str X (reg X XED_REG_RSP)"
    and "flat_segments m" and "decodes_at X m d" and "Execute X H (flat_machine 64) 1 (g, m) = Some (kGood, g', m')"
  shows "let sp = flat_value m (reg_enum_t2str X (reg X XED_REG_RSP));
      pc = flat_value m (reg_enum_t2str X (reg X XED_REG_RIP)) + of_nat (get_length d);
      v = flat_cell m (mask_address (get_memop_address_width d 0) sp) (get_memory_operand_length d 0) in
    m' = m\<lparr>flat_regs := (flat_regs m)(reg_enum_t2str X (get_largest_enclosing_register X r) := uint v,
        reg_enum_t2str X (reg X XED_REG_RSP) := uint (sp + of_nat (get_operand_width d div 8)),
        reg_enum_t2str X (reg X XED_REG_RIP) := uint pc)\<rparr>"
proof -
  let ?E = "stopped (flat_machine 64) m"
  obtain ws where e: "Execute X H (logged ?E) 1 (g, (), []) = Some (kGood, g', (), ws)"
    and m': "m' = fold flat_write ws m"
    by (rule Execute_one_stopped [OF flat_machine_machine assms(8)])
  have code: "code_at X ?E (flat_value m (reg_enum_t2str X (reg X XED_REG_RIP))) d"
    by (rule code_at_stopped [OF assms(1,6)]) (use assms(7) in \<open>simp add: decodes_at_def\<close>)
  have a64: "addr_size ?E = 64" by (simp add: flat_machine_def)
  show ?thesis
    using pop_writes [OF assms(1,2) a64 stopped_address [OF assms(6)] stopped_serves code assms(3,4) stopped_holds_cell e]
      pop_replayed [OF _ assms(5), of _ _ _ _ _ m] m'
    by (auto simp: Let_def)
qed

section \<open>Two instructions\<close>

lemma flat_two:
  assumes "Execute X H E 2 (g, m) = Some (kGood, g2, m2)"
  obtains g1 m1 where "Execute X H E 1 (g, m) = Some (kGood, g1, m1)" and "Execute X H E 1 (g1, m1) = Some (kGood, g2, m2)"
proof -
  have i: "gIsInitialized g" and l: "execute_loop X H E (1 + 1) (g, m) = Some (kGood, g2, m2)"
    using assms by (simp_all add: Execute_def numeral_2_eq_2 split: if_splits)
  from l obtain w1 where w1: "execute_loop X H E 1 (g, m) = Some (kGood, w1)" "execute_loop X H E 1 w1 = Some (kGood, g2, m2)"
    unfolding execute_loop_add by (auto split: option.splits if_splits)
  moreover have "gIsInitialized (fst w1)" using execute_loop_init [OF w1(1)] i by (simp add: same_init_def)
  ultimately show thesis using i that [of "fst w1" "snd w1"] by (simp add: Execute_def)
qed

text \<open>Reading back the bytes of a value.\<close>

lemma flat_cell_with_bytes:
  assumes "n \<le> 8"
  shows "flat_cell (m\<lparr>flat_regs := R, flat_bytes := with_bytes (uint a) (word_bytes n v) B\<rparr>) a n = take_bit (8 * n) (v :: u64)"
proof -
  have "map (\<lambda>i. with_bytes (uint a) (word_bytes n v) B (uint a + int i)) [0..<n] = word_bytes n v"
    by (rule nth_equalityI) (simp_all add: with_bytes_def)
  then show ?thesis using le_bytes_word_bytes [of n v] by (simp add: flat_cell_def)
qed

text \<open>Bytes that are not executable are no code.\<close>

lemma code_bytes_with_bytes:
  assumes "\<And>b. a \<le> b \<Longrightarrow> b < a + int (length bs) \<Longrightarrow> \<not> flat_allows m kReadExecutable b"
  shows "code_bytes (m\<lparr>flat_regs := R, flat_bytes := with_bytes a bs (flat_bytes m)\<rparr>) pc = code_bytes m pc"
  using assms by (auto simp: code_bytes_def with_bytes_def dest!: set_takeWhileD)

text \<open>
  C3: the stack of a process works: when a 64-bit process with flat segments stands at a
  push of a 64-bit register that is followed by a pop into a 64-bit register, on a stack
  that is not executable, and \<open>execute\<close> of two instructions returns, then the second
  register holds the value of the first, the stack pointer is where it was, the program
  counter has moved past both instructions, the time stamp counter has advanced by two, and
  of the memory exactly the eight bytes below the stack pointer have changed.
\<close>

theorem process_push_pop:
  assumes "xed_ok X" and "pc_plain X"
    and "plain_push X d r" and "stack_regs X r" and "get_register_width_bits64 X r = 64"
    and "plain_pop X d' r'" and "pop_regs X r'"
    and "\<forall>e \<in> {d, d'}. get_memory_operand_length e 0 = 8 \<and> get_operand_width e = 64 \<and> get_memop_address_width e 0 = 64"
    and "distinct (map (reg_enum_t2str X) [get_largest_enclosing_register X r', reg X XED_REG_RSP, reg X XED_REG_RIP])"
    and "valid_memory (proc_memory p)" and "mem_bits (proc_memory p) = 64"
    and "flat_segments (flat_of p)" and "\<not> (\<exists>seg. seg @ ''_BASE'' \<in> {reg_enum_t2str X (reg X XED_REG_RSP), reg_enum_t2str X (reg X XED_REG_RIP)})"
    and "decodes_at X (flat_of p) d"
    and "snd (xed_decode X kXEDState64 (code_bytes (flat_of p)
        (word_of_int (regs p (reg_enum_t2str X (reg X XED_REG_RIP))) + of_nat (get_length d)))) = d'"
    and "\<forall>i \<in> {0..<8}. \<not> can_execute (proc_memory p) (uint (word_of_int (regs p (reg_enum_t2str X (reg X XED_REG_RSP))) - 8 :: u64) + i)"
    and "Process_execute X H fd 2 (g, p) = Some (Inr (), g', p')"
  shows "let sp = word_of_int (regs p (reg_enum_t2str X (reg X XED_REG_RSP))) :: u64;
      v = word_of_int (regs p (reg_enum_t2str X (get_largest_enclosing_register X r))) :: u64;
      pc = word_of_int (regs p (reg_enum_t2str X (reg X XED_REG_RIP))) + of_nat (get_length d) + of_nat (get_length d') :: u64 in
    regs p' = regs (tick 2 (p\<lparr>regs := (regs p)(reg_enum_t2str X (get_largest_enclosing_register X r') := uint v,
      reg_enum_t2str X (reg X XED_REG_RSP) := uint sp, reg_enum_t2str X (reg X XED_REG_RIP) := uint pc)\<rparr>)) \<and>
    byte_at (proc_memory p') = with_bytes (uint (sp - 8)) (word_bytes 8 v) (byte_at (proc_memory p)) \<and>
    fpu_data p' = fpu_data p"
proof -
  let ?RSP = "reg_enum_t2str X (reg X XED_REG_RSP)" and ?RIP = "reg_enum_t2str X (reg X XED_REG_RIP)"
  let ?m = "flat_of p" and ?q = "get_largest_enclosing_register X r'"
  define sp pc v where d: "sp = (word_of_int (regs p ?RSP) :: u64)" "pc = (word_of_int (regs p ?RIP) + of_nat (get_length d) :: u64)"
    "v = (word_of_int (regs p (reg_enum_t2str X (get_largest_enclosing_register X r))) :: u64)"
  have val: "flat_value ?m nm = word_of_int (regs p nm)" for nm by (simp add: flat_value_def flat_of_def)
  have bits: "mem_bits (proc_memory p) \<in> {32, 64}" using assms(11) by simp
  obtain s1 :: "process pystate" where x: "Execute X H (flat_machine 64) 2 (g, ?m) = Some (kGood, g', flat_of (user s1))"
    and p': "p' = tick 2 (user s1)"
    by (rule Process_execute_good [OF assms(10) bits assms(17), unfolded assms(11)])
  obtain g1 m1 where x1: "Execute X H (flat_machine 64) 1 (g, ?m) = Some (kGood, g1, m1)"
    and x2: "Execute X H (flat_machine 64) 1 (g1, m1) = Some (kGood, g', flat_of (user s1))"
    by (rule flat_two [OF x])
  have len: "get_memory_operand_length d 0 \<le> 8" using assms(8) by simp
  let ?R = "(flat_regs ?m)(?RSP := uint (sp - 8), ?RIP := uint pc)"
  have m1: "m1 = ?m\<lparr>flat_regs := ?R, flat_bytes := with_bytes (uint (sp - 8)) (word_bytes 8 v) (flat_bytes ?m)\<rparr>"
    using flat_push [OF assms(1-4) len assms(12,14) x1] assms(5,8) by (simp add: val d mask_address_def Let_def)
  have seg: "flat_segments m1"
    using assms(12,13) by (auto simp: flat_segments_def m1)
  have "\<not> flat_allows ?m kReadExecutable b" if "uint (sp - 8) \<le> b" "b < uint (sp - 8) + int (length (word_bytes 8 v))" for b
  proof -
    have "b - uint (sp - 8) \<in> {0..<8}" using that by simp
    with assms(16) have "\<not> can_execute (proc_memory p) (uint (sp - 8) + (b - uint (sp - 8)))" unfolding d by (rule bspec)
    then show ?thesis by (simp add: flat_of_def permitted_def MEM_EXEC_HINTS_def)
  qed
  then have code: "code_bytes m1 pc = code_bytes ?m pc" unfolding m1 by (rule code_bytes_with_bytes)
  have val1: "flat_value m1 ?RSP = sp - 8" "flat_value m1 ?RIP = pc"
    using assms(9) by (simp_all add: flat_value_def m1)
  have dec: "decodes_at X m1 d'"
    using assms(15) unfolding decodes_at_def val1 code by (simp add: d)
  have ne: "reg_enum_t2str X ?q \<noteq> ?RSP" using assms(9) by simp
  have cell: "flat_cell m1 (sp - 8) 8 = v" unfolding m1 by (subst flat_cell_with_bytes) simp_all
  have "flat_of (user s1) = m1\<lparr>flat_regs := (flat_regs m1)(reg_enum_t2str X ?q := uint v, ?RSP := uint sp, ?RIP := uint (pc + of_nat (get_length d')))\<rparr>"
    using flat_pop [OF assms(1,2,6,7) ne seg dec x2] assms(8) by (simp add: val1 cell mask_address_def Let_def)
  then show ?thesis
    using p' assms(9) unfolding Let_def d [symmetric]
    by (auto simp: m1 flat_of_def tick_def fun_eq_iff)
qed

text \<open>A process that stands at \<open>push rcx; pop rax\<close>, the bytes 0x51 and 0x58.\<close>

definition pop_inst :: xed_decoded_inst where
  "pop_inst = sample_inst\<lparr>get_iform_enum := Stk XED_IFORM_POP_GPRv_58,
     get_reg := (\<lambda>_. 0)(XED_OPERAND_REG0 := 11, XED_OPERAND_REG1 := 2), get_base_reg := (\<lambda>_. 15),
     get_operands := [
       \<lparr>operand_name = XED_OPERAND_REG0, operand_visibility = XED_OPVIS_EXPLICIT, operand_read = False,
         operand_written = True, operand_conditional_write = False\<rparr>,
       \<lparr>operand_name = XED_OPERAND_REG1, operand_visibility = XED_OPVIS_SUPPRESSED, operand_read = True,
         operand_written = True, operand_conditional_write = False\<rparr>,
       \<lparr>operand_name = XED_OPERAND_MEM0, operand_visibility = XED_OPVIS_SUPPRESSED, operand_read = True,
         operand_written = False, operand_conditional_write = False\<rparr>]\<rparr>"

definition stack_process :: process where
  "stack_process = push_process\<lparr>proc_memory := \<lparr>mem_bits = 64, page_shift = 12, memory_maps = [0x401 \<mapsto> 0, 6 \<mapsto> 1],
     arrays = (\<lambda>k. if k = 0
       then \<lparr>map_base = 0x401000, map_limit = 0x401002, map_read = True, map_write = False, map_exec = True, map_data = [0x51, 0x58]\<rparr>
       else \<lparr>map_base = 0x6000, map_limit = 0x6010, map_read = True, map_write = True, map_exec = False,
         map_data = [0, 0, 0, 0, 0, 0, 0, 0, 0, 0, 0, 0, 0, 0, 0, 0]\<rparr>)\<rparr>\<rparr>"

definition stack_decoder :: xed where
  "stack_decoder = sample_xed\<lparr>xed_decode := (\<lambda>st bs. (bs \<noteq> [],
     if take 1 bs = [0x51] then push_inst else if take 1 bs = [0x58] then pop_inst else sample_inst))\<rparr>"

text \<open>The globals and the process between the two instructions.\<close>

definition pushed_gstate :: gstate where
  "pushed_gstate = sample_gstate\<lparr>gXedd := push_inst, gUsedRegs := {12, 15, 4}, gModifiedRegs := {15, 4},
     gStoreRegs := {12, 15, 4}, gRegs := (\<lambda>_. 0)(12 := 5, 15 := 0x6008, 4 := 0x401001),
     gMemory := (\<lambda>_. sample_memory)(0 := \<lparr>present = True, write_back = True, op_name = XED_OPERAND_MEM0,
       segment_reg = 8, base_reg = 15, index_reg = 0, mbase = 0x6010, mindex = 0, mscale = 1, mdisplacement = - 8,
       maddress = 0x6008, msize = 64, mem_op = None, mdata = 5\<rparr>), idata := 0x5851\<rparr>"

definition pushed_process :: process where
  "pushed_process = stack_process\<lparr>
     proc_memory := (proc_memory stack_process)\<lparr>arrays := (arrays (proc_memory stack_process))(1 :=
       (arrays (proc_memory stack_process) 1)\<lparr>map_data := [0, 0, 0, 0, 0, 0, 0, 0, 5, 0, 0, 0, 0, 0, 0, 0]\<rparr>)\<rparr>,
     regs := (regs stack_process)(''RSP'' := 0x6008, ''RIP'' := 0x401001)\<rparr>"

definition running :: "process \<Rightarrow> process pystate" where
  "running p = \<lparr>has_error = False, error = None, err_indicator = None, user = p\<rparr>"

lemma stack_process_push:
  "P (Some (kGood, pushed_gstate, running pushed_process)) \<Longrightarrow>
   P (ExecuteOne stack_decoder sample_host (Process_executor (\<lambda>_. 0) stack_process) (sample_gstate, running stack_process))"
  by (code_simp) (simp cong: if_cong)

lemma stack_process_pop:
  "map_option fst (ExecuteOne stack_decoder sample_host (Process_executor (\<lambda>_. 0) stack_process)
     (pushed_gstate, running pushed_process)) = Some kGood"
  by code_simp

lemma stack_process_runs:
  obtains g' p' where "Process_execute stack_decoder sample_host (\<lambda>_. 0) 2 (sample_gstate, stack_process) = Some (Inr (), g', p')"
proof -
  let ?one = "ExecuteOne stack_decoder sample_host (Process_executor (\<lambda>_. 0) stack_process)"
  have "?one (sample_gstate, running stack_process) = Some (kGood, pushed_gstate, running pushed_process)"
    by (rule stack_process_push) (rule refl)
  moreover obtain g s where "?one (pushed_gstate, running pushed_process) = Some (kGood, g, s)"
    using stack_process_pop by auto
  ultimately have "Execute stack_decoder sample_host (Process_executor (\<lambda>_. 0) stack_process) 2
      (sample_gstate, running stack_process) = Some (kGood, g, s)"
    by (simp add: Execute_def numeral_2_eq_2 sample_gstate_def [THEN arg_cong [where f = gIsInitialized]])
  then show thesis
    by (intro that) (simp add: Process_execute_def Executor_Execute_def raise_status_def running_def)
qed

lemma flat_of_regs: "flat_regs (flat_of p) = regs p"
  by (simp add: flat_of_def)

lemma stack_process_facts:
  "valid_memory (proc_memory stack_process)" "mem_bits (proc_memory stack_process) = 64"
  "flat_segments (flat_of stack_process)"
  "\<forall>i \<in> {0..<8}. \<not> can_execute (proc_memory stack_process) (0x6008 + i)"
proof -
  show "valid_memory (proc_memory stack_process)" "mem_bits (proc_memory stack_process) = 64"
    by (auto simp: valid_memory_def stack_process_def split: if_splits)
  show "flat_segments (flat_of stack_process)"
    by (simp add: flat_segments_def flat_of_def stack_process_def push_process_def no_base)
  have "list_all (\<lambda>i. \<not> can_execute (proc_memory stack_process) (0x6008 + i)) [0, 1, 2, 3, 4, 5, 6, 7]"
    by code_simp
  moreover have "i \<in> set [0, 1, 2, 3, 4, 5, 6, 7]" if "i \<in> {0..<8}" for i :: int
    using that by (simp, presburger)
  ultimately show "\<forall>i \<in> {0..<8}. \<not> can_execute (proc_memory stack_process) (0x6008 + i)"
    unfolding list_all_iff by blast
qed

theorem process_push_pop_witness:
  "\<exists>g' p'. Process_execute stack_decoder sample_host (\<lambda>_. 0) 2 (sample_gstate, stack_process) = Some (Inr (), g', p') \<and>
     regs p' ''RAX'' = 5 \<and> regs p' ''RSP'' = 0x6010 \<and> regs p' ''RIP'' = 0x401002 \<and> regs p' ''TSC'' = 2"
proof -
  obtain g' p' where r: "Process_execute stack_decoder sample_host (\<lambda>_. 0) 2 (sample_gstate, stack_process) = Some (Inr (), g', p')"
    by (rule stack_process_runs)
  have x: "xed_ok stack_decoder" "pc_plain stack_decoder"
    by (simp add: stack_decoder_def xed_ok_decode sample_xed_ok)
      (simp add: stack_decoder_def pc_plain_def is_stack_pseudo_def sample_xed_simps)
  have p: "plain_push stack_decoder push_inst 12" "stack_regs stack_decoder 12" "get_register_width_bits64 stack_decoder 12 = 64"
    "plain_pop stack_decoder pop_inst 11" "pop_regs stack_decoder 11"
    "\<forall>e \<in> {push_inst, pop_inst}. get_memory_operand_length e 0 = 8 \<and> get_operand_width e = 64 \<and> get_memop_address_width e 0 = 64"
    by (code_simp, code_simp, code_simp, code_simp, code_simp) (simp add: push_inst_def pop_inst_def sample_inst_def)
  have n: "reg_enum_t2str stack_decoder (reg stack_decoder XED_REG_RSP) = ''RSP''"
    "reg_enum_t2str stack_decoder (reg stack_decoder XED_REG_RIP) = ''RIP''"
    "reg_enum_t2str stack_decoder (get_largest_enclosing_register stack_decoder 12) = ''RCX''"
    "reg_enum_t2str stack_decoder (get_largest_enclosing_register stack_decoder 11) = ''RAX''"
    "get_length push_inst = 1" "get_length pop_inst = 1"
    by code_simp+
  have v: "regs stack_process ''RSP'' = 0x6010" "regs stack_process ''RIP'' = 0x401000" "regs stack_process ''RCX'' = 5"
    "regs stack_process ''TSC'' = 0"
    by (simp_all add: stack_process_def push_process_def)
  have c: "code_bytes (flat_of stack_process) 0x401000 = [0x51, 0x58]" "code_bytes (flat_of stack_process) 0x401001 = [0x58]"
    by code_simp+
  have c1: "decodes_at stack_decoder (flat_of stack_process) push_inst"
    unfolding decodes_at_def n using c(1) by (simp add: flat_value_def v flat_of_regs stack_decoder_def)
  have c2: "snd (xed_decode stack_decoder kXEDState64 (code_bytes (flat_of stack_process)
      (word_of_int (regs stack_process (reg_enum_t2str stack_decoder (reg stack_decoder XED_REG_RIP))) +
        of_nat (get_length push_inst)))) = pop_inst"
    unfolding n v using c(2) by (simp add: stack_decoder_def)
  have dist: "distinct (map (reg_enum_t2str stack_decoder) [get_largest_enclosing_register stack_decoder 11,
      reg stack_decoder XED_REG_RSP, reg stack_decoder XED_REG_RIP])"
    by (simp add: n)
  have nb: "\<not> (\<exists>seg. seg @ ''_BASE'' \<in> {reg_enum_t2str stack_decoder (reg stack_decoder XED_REG_RSP),
      reg_enum_t2str stack_decoder (reg stack_decoder XED_REG_RIP)})"
    unfolding n by (simp add: no_base)
  have ne: "\<forall>i \<in> {0..<8}. \<not> can_execute (proc_memory stack_process)
      (uint (word_of_int (regs stack_process (reg_enum_t2str stack_decoder (reg stack_decoder XED_REG_RSP))) - 8 :: u64) + i)"
    unfolding n v using stack_process_facts(4) by simp
  have "regs p' = regs (tick 2 (stack_process\<lparr>regs := (regs stack_process)(''RAX'' := 5, ''RSP'' := 0x6010, ''RIP'' := 0x401002)\<rparr>))"
    using process_push_pop [OF x p dist stack_process_facts(1-3) nb c1 c2 ne r]
    by (simp add: n v Let_def)
  then show ?thesis using r v by (simp add: tick_def)
qed

end
