(* ===== verification/ProcessLive.thy ===== *)
theory ProcessLive
  imports ProcessPush
begin

text \<open>
  \<open>Process.execute\<close> returns: a process refuses no request for registers or the FPU, so that an
  instruction without memory operands that is supported completes.
\<close>

section \<open>What a process answers\<close>

text \<open>No exception is pending, the memory is \<open>M\<close>, and the registers and the FPU image have values
  that fit the library's, as those of a new \<open>EmptyThread\<close> do.\<close>

definition ready :: "pymemory \<Rightarrow> process pystate \<Rightarrow> bool" where
  "ready M s \<longleftrightarrow> sound (mem_bits M) s \<and> process_memory s = M \<and>
     (\<forall>nm. 0 \<le> regs (user s) nm \<and> regs (user s) nm < 2 ^ 512) \<and> length (fpu_data (user s)) = 512"

lemma int_of_bytes_fits: "0 \<le> int_of_bytes (word_bytes k v) \<and> int_of_bytes (word_bytes k v) < 2 ^ 512" for v :: Data
proof -
  have "int_of_bytes (word_bytes k v) = take_bit (8 * k) (uint v)"
    by (rule bit_eqI)
      (auto simp: bit_int_of_bytes word_bytes_def bit_simps div_less_iff_less_mult bit_uint_iff dest: bit_imp_le_length)
  moreover have "uint v < 2 ^ 512" using uint_lt2p [of v] by simp
  moreover have "take_bit (8 * k) (uint v) \<le> uint v" by (simp add: take_bit_int_less_eq_self_iff)
  ultimately show ?thesis by simp
qed

lemma read_register_ready:
  assumes "ready M s" and "PyReadReg (Process_methods fd) nm n h v s = (ok, d, s')"
  shows "ok \<and> s' = s"
  using assms by (auto simp: ready_def PyReadReg_def Process_calls PyReadValue_def Let_def dest: sound_fields)

lemma write_register_ready:
  assumes "ready M s" and "PyWriteReg (Process_methods fd) nm n v s = (ok, s')"
  shows "ok \<and> ready M s'"
proof -
  have "\<not> has_error s" using assms(1) by (simp add: ready_def sound_def)
  then have "ok" "s' = s\<lparr>user := (user s)\<lparr>regs := (regs (user s))(nm := int_of_bytes (word_bytes ((n + 7) div 8) v))\<rparr>\<rparr>"
    using assms(2) by (auto simp: PyWriteReg_def Process_calls)
  with assms(1) int_of_bytes_fits [of "(n + 7) div 8" v] show ?thesis
    by (auto simp: ready_def sound_def process_memory_def)
qed

interpretation process_willing: willing "Process_executor fd p" False "ready (proc_memory p)" for fd p
proof unfold_locales
  let ?E = "Process_executor fd p" and ?I = "ready (proc_memory p)"
  fix s s' :: "process pystate" and nm :: string and a b i sc d :: u64 and n :: nat and v v' :: Data
    and f f' :: FPU and rh :: RegRequestHint and mh :: MemRequestHint and ok
  assume I: "?I s"
  then have s: "\<not> has_error s" by (simp add: ready_def sound_def)
  show "ok \<and> ?I s'" if "ReadReg ?E nm n rh v s = (ok, v', s')"
    using read_register_ready [OF I that [unfolded Process_executor_fields]] I by simp
  show "ok \<and> ?I s'" if "WriteReg ?E nm n v s = (ok, s')"
    by (rule write_register_ready [OF I that [unfolded Process_executor_fields]])
  show "ok \<and> ?I s'" if "ReadFPU ?E f s = (ok, f', s')"
    using that s I by (auto simp: Process_executor_fields PyReadFPU_def Process_calls ready_def)
  show "ok \<and> ?I s'" if "WriteFPU ?E f s = (ok, s')"
    using that I by (auto simp: Process_executor_fields PyWriteFPU_def Process_calls ready_def sound_def process_memory_def)
  show "?I s'" if "ComputeAddress ?E nm b i sc d n mh s = (a, s')"
    using address_simulated [of p s fd nm b i sc d n mh a s'] that I by (simp add: ready_def)
qed simp_all

section \<open>What is fetched\<close>

lemma takeWhile_snoc_stop: "\<not> list_all P (xs @ [x]) \<Longrightarrow> takeWhile P (xs @ [x]) = takeWhile P xs"
  by (induction xs) auto

lemma fetch_ready:
  assumes "sound bits s" and "n \<le> max_inst_length" and "fetch (Process_executor fd p) pc n (g, s) = (k, w')"
  shows "snd w' = s \<and> (let is = takeWhile (\<lambda>i. permitted kReadExecutable (process_memory s) (uint pc + int i)) [0..<n] in
    k = length is \<and> (k \<noteq> 0 \<longrightarrow> idata (fst w') = le_bytes (map (\<lambda>i. byte_at (process_memory s) (uint pc + int i)) is)))"
  using assms(2,3)
proof (induction n arbitrary: g)
  case 0
  then show ?case by (auto simp: Let_def)
next
  case (Suc n)
  let ?ok = "\<lambda>i. permitted kReadExecutable (process_memory s) (uint pc + int i)"
  let ?bs = "map (\<lambda>i. byte_at (process_memory s) (uint pc + int i)) [0..<Suc n]"
  have d: "(Suc n * 8) div 8 = Suc n" "min 64 ((Suc n * 8 + 7) div 8) = Suc n"
    using Suc.prems(1) by (simp_all add: max_inst_length_def)
  note R = Process_reads [OF assms(1) MemRequestHint.distinct(13), of fd pc "Suc n * 8" "idata g"]
  show ?case
  proof (cases "list_all ?ok [0..<Suc n]")
    case True
    then have r: "ReadMem (Process_executor fd p) pc (Suc n * 8) kReadExecutable (idata g) s = (True, le_bytes ?bs, s)"
      using R d by (simp add: Process_executor_fields PyReadValue_bytes [OF sound_fields(1) [OF assms(1)]] del: upt_Suc mult_Suc)
    have t: "takeWhile ?ok [0..<Suc n] = [0..<Suc n]"
      using True by (simp add: takeWhile_eq_all_conv list_all_iff del: upt_Suc)
    show ?thesis unfolding t using Suc.prems(2) r by (auto simp: Let_def simp del: upt_Suc mult_Suc)
  next
    case False
    then have r: "ReadMem (Process_executor fd p) pc (Suc n * 8) kReadExecutable (idata g) s =
        (False, idata g, s\<lparr>err_indicator := Some MemoryAccessException\<rparr>)"
      using R d by (simp add: Process_executor_fields del: upt_Suc mult_Suc)
    have "s\<lparr>err_indicator := None\<rparr> = s" using sound_fields(2) [OF assms(1)] by (cases s) simp
    then have f: "fetch (Process_executor fd p) pc n (g\<lparr>idata := idata g\<rparr>, s) = (k, w')"
      using Suc.prems(2) r by (simp add: Process_executor_fields del: mult_Suc)
    have "takeWhile ?ok [0..<Suc n] = takeWhile ?ok [0..<n]"
      using False unfolding upt_Suc_append [OF le0] by (rule takeWhile_snoc_stop)
    then show ?thesis using Suc.IH [OF _ f] Suc.prems(1) by simp
  qed
qed

lemma FetchInstruction_ready:
  assumes "xed_ok X" and "pc_plain X" and "ready (proc_memory p) s" and "mem_bits (proc_memory p) = 64"
    and "flat_segments (flat_of (user s))"
    and "ReadPC X (Process_executor fd p) (reset_instruction X g, s) = (True, w1)"
    and "FetchInstruction X (Process_executor fd p) w1 = (k, w2)"
  shows "snd w2 = s \<and> word_bytes k (idata (fst w2)) =
    code_bytes (flat_of (user s)) (word_of_int (regs (user s) (reg_enum_t2str X (reg X XED_REG_RIP)))) \<and>
    k = length (code_bytes (flat_of (user s)) (word_of_int (regs (user s) (reg_enum_t2str X (reg X XED_REG_RIP)))))"
proof -
  let ?E = "Process_executor fd p" and ?RIP = "reg_enum_t2str X (reg X XED_REG_RIP)"
  let ?pc = "word_of_int (regs (user s) ?RIP) :: u64"
  have E: "addr_size ?E = 64" "addr_ok ?E" using assms(4) by (simp_all add: Process_executor_fields addr_ok_def)
  have sd: "sound 64 s" "process_memory s = proc_memory p" using assms(3,4) by (simp_all add: ready_def)
  obtain d0 d s1 g1 where r: "ReadReg ?E (reg_enum_t2str X (pc_reg_of X ?E)) (addr_size ?E) kProgramCounter d0 s = (True, d, s1)"
    and w1: "w1 = (g1, s1)" and g1: "gRegs g1 (reg X XED_REG_RIP) = d"
    by (rule ReadPC_reset [OF assms(1) E(2) assms(2,6)])
  have s1: "s1 = s" "flat_regs (flat_of (user s)) ?RIP = regs (user s) ?RIP"
    using read_register_ready [OF assms(3) r [unfolded Process_executor_fields]] by (simp_all add: flat_of_def)
  have "get_bits 0 64 d = ?pc"
    using r s1(1) by (auto simp: Process_executor_fields PyReadReg_def Process_calls PyReadValue_def low_word Let_def
        pc_reg_64 [OF assms(1) E(1)] split: if_splits)
  then have "GetPC X ?E g1 = ?pc" using GetPC_slot [OF assms(1) E(2), of g1 ?pc] g1 E(1) by (simp add: mask_pc_def)
  moreover have "ComputeAddress ?E ''CS'' ?pc 0 0 0 8 kReadExecutable s = (?pc, s)"
  proof -
    obtain a s' where c: "ComputeAddress ?E ''CS'' ?pc 0 0 0 8 kReadExecutable s = (a, s')" by fastforce
    have "sound (mem_bits (proc_memory p)) s" using sd(1) assms(4) by simp
    from address_simulated [OF this c] have "s' = s"
      "ComputeAddress (flat_machine 64) ''CS'' ?pc 0 0 0 8 kReadExecutable (flat_of (user s)) = (a, flat_of (user s))"
      using assms(4) by simp_all
    moreover have "take_bit 64 (flat_regs (flat_of (user s)) (''CS'' @ ''_BASE'')) = 0"
      using assms(5) unfolding flat_segments_def by blast
    ultimately show ?thesis
      using c by (simp add: flat_machine_def flat_segment_def flip: take_bit_eq_mask)
  qed
  ultimately have f: "fetch ?E ?pc max_inst_length (g1, s) = (k, w2)"
    using assms(7) w1 s1(1) by (simp add: FetchInstruction_def)
  let ?is = "takeWhile (\<lambda>i. permitted kReadExecutable (process_memory s) (uint ?pc + int i)) [0..<max_inst_length]"
  have c: "code_bytes (flat_of (user s)) ?pc = map (\<lambda>i. byte_at (process_memory s) (uint ?pc + int i)) ?is"
    by (simp add: code_bytes_def flat_allows_of flat_bytes_of)
  have k: "snd w2 = s" "k = length ?is" "k \<noteq> 0 \<Longrightarrow> idata (fst w2) = le_bytes (code_bytes (flat_of (user s)) ?pc)"
    using fetch_ready [OF sd(1) order_refl f] unfolding c by (simp_all add: Let_def)
  have "length ?is \<le> 15" using length_takeWhile_le [of _ "[0..<max_inst_length]"] by (simp add: max_inst_length_def)
  then have "word_bytes k (idata (fst w2)) = code_bytes (flat_of (user s)) ?pc"
    using word_bytes_le_bytes [of "code_bytes (flat_of (user s)) ?pc", where 'a = 512] k(2,3)
    by (cases "k = 0") (simp_all add: c word_bytes_def)
  then show ?thesis using k(1,2) c by simp
qed

section \<open>Executions that return\<close>

lemma Process_runs:
  assumes "xed_ok X" and "pc_plain X" and "valid_memory (proc_memory p)" and "mem_bits (proc_memory p) = 64"
    and "flat_segments (flat_of p)" and "\<And>nm. 0 \<le> regs p nm \<and> regs p nm < 2 ^ 512" and "length (fpu_data p) = 512"
    and "gIsInitialized g"
    and "code_bytes (flat_of p) (word_of_int (regs p (reg_enum_t2str X (reg X XED_REG_RIP)))) = bs" and "bs \<noteq> []"
    and "xed_decode X kXEDState64 bs = (True, d)"
    and "memoryless d"
    and "get_category d \<in> {XED_CATEGORY_NOP, XED_CATEGORY_WIDENOP} \<or> emulated (get_iform_enum d) \<or>
      native_succeeds X H (Process_executor fd p) (performed_on X H (Process_executor fd p) (g, start p))"
    and "\<And>h. gXedd h = d \<Longrightarrow> \<not> UsesUnsupportedFeatures (Process_executor fd p) h"
  obtains g' p' where "Process_execute X H fd 1 (g, p) = Some (Inr (), g', p')"
proof -
  let ?E = "Process_executor fd p" and ?s = "start p"
  have s: "ready (proc_memory p) ?s" "user ?s = p"
    using assms(3,4,6,7) by (simp_all add: ready_def start_def sound_def process_memory_def)
  have fs: "flat_segments (flat_of (user ?s))" using assms(5) s(2) by simp
  have m: "(if 32 = addr_size ?E then kXEDState32 else kXEDState64) = kXEDState64"
    using assms(4) by (simp add: Process_executor_fields)
  have f: "n \<noteq> 0 \<and> snd w2 = ?s \<and> word_bytes n (idata (fst w2)) = bs"
    if "ReadPC X ?E (reset_instruction X g, ?s) = (True, w1)" and "FetchInstruction X ?E w1 = (n, w2)" for w1 n w2
    using FetchInstruction_ready [OF assms(1,2) s(1) assms(4) fs that] assms(10) unfolding s(2) assms(9) by auto
  have c: "completes_at X H ?E (g, ?s)"
  proof (cases "fetched X ?E (g, ?s)")
    case (Some nu)
    then obtain w1 where w1: "ReadPC X ?E (reset_instruction X g, ?s) = (True, w1)" "FetchInstruction X ?E w1 = nu"
      by (auto simp: fetched_def dest!: succeedD)
    obtain n u where nu: "nu = (n, u)" by (metis surj_pair)
    obtain v where v: "decode_fetched X ?E n u = (True, v)" "gXedd (fst v) = d"
      using f [OF w1(1), of n u] w1(2) assms(11) m
      by (auto simp: nu decode_fetched_def on_globals_def DecodeInstruction_def Let_def)
    show ?thesis
      using assms(13) assms(14) [OF v(2)] v by (auto simp: completes_at_def Some nu is_nop_def)
  qed (simp add: completes_at_def)
  have "\<exists>w'. ExecuteOne X H ?E (g, ?s) = Some (kGood, w')"
  proof (rule process_willing.ExecuteOne_assures [OF assms(1) _ c])
    show "ready (proc_memory p) (snd (g, ?s))" using s by simp
    fix w1 n w2
    assume "ReadPC X ?E (reset_instruction X (fst (g, ?s)), snd (g, ?s)) = (True, w1)" and "FetchInstruction X ?E w1 = (n, w2)"
    then show "n \<noteq> 0 \<and> ready (proc_memory p) (snd w2) \<and>
      (False \<or> memoryless (snd (xed_decode X (if 32 = addr_size ?E then kXEDState32 else kXEDState64) (word_bytes n (idata (fst w2))))))"
      using f [of w1 n w2] s(1) assms(11,12) unfolding m by simp
  qed blast
  then obtain g1 s1 where "ExecuteOne X H ?E (g, ?s) = Some (kGood, g1, s1)" by auto
  then have "Execute X H ?E 1 (g, ?s) = Some (kGood, g1, s1)" using assms(8) by (simp add: Execute_def)
  then show thesis
    by (intro that) (simp add: Process_execute_def Executor_Execute_def raise_status_def start_def)
qed

text \<open>
  C8: \<open>Process.execute\<close> of an instruction returns: when a 64-bit process with flat segments
  and registers that fit the library's has executable bytes at its program counter that XED
  decodes to a supported instruction without memory operands, which is a no-operation, one of
  the forms \<open>Emulate\<close> handles, or one that XED encodes as it is requested in this execution and
  that the processor then runs without a fault, the call returns without an exception.
\<close>

theorem process_returns:
  assumes "xed_ok X" and "pc_plain X" and "valid_memory (proc_memory p)" and "mem_bits (proc_memory p) = 64"
    and "flat_segments (flat_of p)" and "\<And>nm. 0 \<le> regs p nm \<and> regs p nm < 2 ^ 512" and "length (fpu_data p) = 512"
    and "gIsInitialized g"
    and "code_bytes (flat_of p) (word_of_int (regs p (reg_enum_t2str X (reg X XED_REG_RIP)))) = bs" and "bs \<noteq> []"
    and "xed_decode X kXEDState64 bs = (True, d)"
    and "memoryless d"
    and "get_category d \<in> {XED_CATEGORY_NOP, XED_CATEGORY_WIDENOP} \<or> emulated (get_iform_enum d) \<or>
      native_succeeds X H (Process_executor fd p) (performed_on X H (Process_executor fd p) (g, start p))"
    and "\<And>h. gXedd h = d \<Longrightarrow> \<not> UsesUnsupportedFeatures (Process_executor fd p) h"
  shows "\<exists>g' p'. Process_execute X H fd 1 (g, p) = Some (Inr (), g', p')"
  by (rule Process_runs [OF assms]) blast+

text \<open>A process with only RIP, RCX, RAX and the zero flag set, whose code is \<open>bs\<close>.\<close>

definition idle_process :: "u8 list \<Rightarrow> process" where
  "idle_process bs = \<lparr>proc_memory = \<lparr>mem_bits = 64, page_shift = 12, memory_maps = [0x401 \<mapsto> 0],
     arrays = (\<lambda>k. \<lparr>map_base = 0x401000, map_limit = 0x401000 + int (length bs), map_read = True, map_write = False,
       map_exec = True, map_data = bs\<rparr>)\<rparr>,
     regs = (\<lambda>nm. if nm = ''RIP'' then 0x401000 else if nm = ''RCX'' then 5 else if nm = ''RAX'' then 7
       else if nm = ''ZF'' then 1 else 0),
     fpu_data = replicate 512 0\<rparr>"

lemma idle_process_facts:
  assumes "length bs \<le> 15"
  shows "valid_memory (proc_memory (idle_process bs))" "mem_bits (proc_memory (idle_process bs)) = 64"
  "flat_segments (flat_of (idle_process bs))" "0 \<le> regs (idle_process bs) nm \<and> regs (idle_process bs) nm < 2 ^ 512"
  "length (fpu_data (idle_process bs)) = 512"
proof -
  show "valid_memory (proc_memory (idle_process bs))" "mem_bits (proc_memory (idle_process bs)) = 64"
    using assms by (auto simp: valid_memory_def idle_process_def split: if_splits)
  have "seg @ ''_BASE'' \<noteq> nm" if "nm \<in> {''RIP'', ''RCX'', ''RAX'', ''ZF''}" for seg nm
  proof
    assume "seg @ ''_BASE'' = nm"
    then have "last nm = CHR ''E''" by auto
    with that show False by auto
  qed
  then show "flat_segments (flat_of (idle_process bs))"
    by (simp add: flat_segments_def flat_of_def idle_process_def)
qed (simp_all add: idle_process_def)

lemma idle_page:
  assumes "i < 4096"
  shows "page_of (proc_memory (idle_process bs)) (0x401000 + int i) = 0x401"
proof -
  have "(0x401000 + int i) AND mask 64 = 0x401000 + int i"
    using assms by (subst take_bit_eq_mask [symmetric]) (simp add: take_bit_int_eq_self)
  moreover have "drop_bit 12 (0x401000 + int i) = 0x401"
    using assms by (simp add: drop_bit_eq_div)
  ultimately show ?thesis by (simp add: page_of_def idle_process_def)
qed

lemma idle_code:
  assumes "length bs \<le> 15"
  shows "code_bytes (flat_of (idle_process bs)) 0x401000 = bs"
proof -
  let ?M = "proc_memory (idle_process bs)"
  have f: "find_map ?M (0x401000 + int i) = ArrayMap 0" if "i < 4096" for i
    using idle_page [OF that] by (simp add: find_map_def) (simp add: idle_process_def)
  have p: "permitted kReadExecutable ?M (0x401000 + int i) \<longleftrightarrow> i < length bs" if "i < 4096" for i
    using f [OF that] by (simp add: permitted_def MEM_READ_HINTS_def MEM_WRITE_HINTS_def MEM_EXEC_HINTS_def can_read_def
        can_execute_def) (auto simp: idle_process_def in_map_def)
  have "takeWhile (\<lambda>i. permitted kReadExecutable ?M (0x401000 + int i)) [0..<max_inst_length] = [0..<length bs]"
    using assms p by (intro takeWhile_upt) (auto simp: list_all_iff max_inst_length_def)
  moreover have "map (\<lambda>i. byte_at ?M (0x401000 + int i)) [0..<length bs] = bs"
    using assms f by (intro nth_equalityI) (simp_all add: byte_at_def idle_process_def in_map_def)
  ultimately show ?thesis by (simp add: code_bytes_def flat_of_def)
qed

theorem process_returns_witness:
  "\<exists>g' p'. Process_execute sample_xed sample_host (\<lambda>_. 0) 1 (sample_gstate, idle_process [0x90]) = Some (Inr (), g', p')"
proof -
  have "length [0x90 :: u8] \<le> 15" by simp
  note f = idle_process_facts [OF this]
  show ?thesis
  proof (rule process_returns [OF sample_xed_ok _ f(1-5)])
    show "pc_plain sample_xed" by (simp add: pc_plain_def is_stack_pseudo_def sample_xed_simps)
    show "gIsInitialized sample_gstate" by (simp add: sample_gstate_def)
    show "code_bytes (flat_of (idle_process [0x90])) (word_of_int (regs (idle_process [0x90])
        (reg_enum_t2str sample_xed (reg sample_xed XED_REG_RIP)))) = [0x90]"
      using idle_code [of "[0x90]"] by (simp add: sample_xed_simps) (simp add: idle_process_def)
    show "xed_decode sample_xed kXEDState64 [0x90] = (True, sample_inst)" by (simp add: sample_xed_def)
    show "memoryless sample_inst" by (simp add: memoryless_def sample_inst_def)
    have "runs_natively sample_xed sample_host (Process_executor (\<lambda>_. 0) (idle_process [0x90])) (snd (xed_decode sample_xed st bs))" for st bs
      by (simp add: runs_natively_def memoryless_def sample_inst_def always_encodes_def never_faults_def
          sample_xed_def sample_host_def Process_executor_fields)
    from performed_natively [OF this] show "get_category sample_inst \<in> {XED_CATEGORY_NOP, XED_CATEGORY_WIDENOP} \<or>
        emulated (get_iform_enum sample_inst) \<or>
        native_succeeds sample_xed sample_host (Process_executor (\<lambda>_. 0) (idle_process [0x90]))
          (performed_on sample_xed sample_host (Process_executor (\<lambda>_. 0) (idle_process [0x90]))
            (sample_gstate, start (idle_process [0x90])))" by blast
    show "\<not> UsesUnsupportedFeatures (Process_executor (\<lambda>_. 0) (idle_process [0x90])) h" if "gXedd h = sample_inst" for h
      using that by (simp add: UsesUnsupportedFeatures_def UsesUnsupportedAttributes_def sample_inst_def)
  qed simp
qed

end
