(* ===== verification/ProcessBranch.thy ===== *)
theory ProcessBranch
  imports ProcessLive Compute
begin

text \<open>
  Conditional branches and instructions that the processor runs, from the call of
  \<open>Process.execute\<close> to the process it leaves.
\<close>

section \<open>The flags of a machine\<close>

text \<open>A process keeps each flag under its name; RFLAGS with these flags.\<close>

definition flags_word :: "(string \<Rightarrow> int) \<Rightarrow> u64" where
  "flags_word R = fold (\<lambda>(nm, i) w. if odd (R nm) then Bit_Operations.set_bit i w else w) rflags_bits 0"

lemma bit_flags_word: "\<forall>(nm, i) \<in> set rflags_bits. odd (R nm) = bit (flags_word R) i"
  by (simp add: flags_word_def rflags_bits_def bit_simps)

lemma stopped_flags: "serves_flags (stopped (flat_machine 64) m) (\<lambda>nm. odd (flat_regs m nm))"
proof -
  have "bit (word_of_int i :: Data) 0 = odd i" for i by (subst bit_word_of_int_iff) (simp add: bit_0)
  then show ?thesis by (auto simp: serves_flags_def stopped_def flat_machine_def Let_def)
qed

section \<open>Branches\<close>

lemma flat_branch:
  assumes "xed_ok X" and "pc_plain X" and "get_iform_enum d = Jcc j b" and "plain_branch X (flat_machine 64) d j rf"
    and "flat_segments m" and "decodes_at X m d" and "Execute X H (flat_machine 64) 1 (g, m) = Some (kGood, g', m')"
    and "flags_plain X"
  shows "m' = m\<lparr>flat_regs := (flat_regs m)(reg_enum_t2str X (reg X XED_REG_RIP) :=
      uint (flat_value m (reg_enum_t2str X (reg X XED_REG_RIP)) + of_nat (get_length d) +
        (if cc_holds (cc_number j) (flags_word (flat_regs m)) then word_of_int (get_branch_displacement d) else 0)))\<rparr>"
proof -
  let ?E = "stopped (flat_machine 64) m" and ?f = "flags_word (flat_regs m)" and ?RIP = "reg_enum_t2str X (reg X XED_REG_RIP)"
  obtain ws where e: "Execute X H (logged ?E) 1 (g, (), []) = Some (kGood, g', (), ws)"
    and m': "m' = fold flat_write ws m"
    by (rule Execute_one_stopped [OF flat_machine_machine assms(7)])
  have a64: "addr_size ?E = 64" "addr_size (flat_machine 64) = 64" "addr_ok ?E" by (simp_all add: flat_machine_def addr_ok_def)
  note pc = pc_reg_64 [OF assms(1) a64(1)] pc_reg_64 [OF assms(1) a64(2)]
  have fr: "flags_reg_of X ?E = flags_reg_of X (flat_machine 64)"
    using flags_reg_64 [OF assms(1) a64(1)] flags_reg_64 [OF assms(1) a64(2)] by simp
  have code: "code_at X ?E (flat_value m ?RIP) d"
    by (rule code_at_stopped [OF assms(1,5)]) (use assms(6) in \<open>simp add: decodes_at_def\<close>)
  have br: "plain_branch X ?E d j rf"
    using assms(4) fr by (simp add: plain_branch_def pc_operands_def pc)
  have at: "stands_at X ?E (flat_value m ?RIP)"
    using stands_at_serves [OF a64(1) stopped_serves, of X] by (simp add: pc)
  obtain v where "ws = [WroteReg ?RIP 64 v]" and v: "get_bits 0 64 v = mask_pc ?E (flat_value m ?RIP + of_nat (get_length d) +
      (if cc_holds (cc_number j) ?f then word_of_int (get_branch_displacement d) else 0))"
    using branch_writes [OF assms(1) a64(3) assms(2) at code assms(3) br stopped_flags bit_flags_word e assms(8)]
    by (auto simp: pc a64)
  moreover have "(64 + 7) div 8 = (8 :: nat)" by simp
  ultimately show ?thesis
    using m' by (simp add: int_of_word_bytes mask_pc_def a64)
qed

text \<open>
  C4: a conditional branch of a process: when a 64-bit process with flat segments stands at a
  conditional branch, which XED reports to read the flags of its condition and gives RIP and
  RFLAGS as operands, and \<open>execute\<close> returns, the program counter is at the target if the
  condition code of the architecture holds of the flags the process has under their names,
  and behind the instruction if not; the time stamp counter has advanced, and no other
  register and no byte has changed.
\<close>

theorem process_branch:
  assumes "xed_ok X" and "pc_plain X" and "get_iform_enum d = Jcc j b" and "plain_branch X (flat_machine 64) d j rf"
    and "valid_memory (proc_memory p)" and "mem_bits (proc_memory p) = 64" and "flat_segments (flat_of p)"
    and "decodes_at X (flat_of p) d" and "Process_execute X H fd 1 (g, p) = Some (Inr (), g', p')"
    and "flags_plain X"
  shows "let pc = word_of_int (regs p (reg_enum_t2str X (reg X XED_REG_RIP))) + of_nat (get_length d) +
      (if cc_holds (cc_number j) (flags_word (regs p)) then word_of_int (get_branch_displacement d) else 0) :: u64 in
    regs p' = regs (tick 1 (p\<lparr>regs := (regs p)(reg_enum_t2str X (reg X XED_REG_RIP) := uint pc)\<rparr>)) \<and>
    byte_at (proc_memory p') = byte_at (proc_memory p) \<and> fpu_data p' = fpu_data p"
proof -
  have bits: "mem_bits (proc_memory p) \<in> {32, 64}" using assms(6) by simp
  obtain s1 :: "process pystate" where x: "Execute X H (flat_machine 64) 1 (g, flat_of p) = Some (kGood, g', flat_of (user s1))"
    and p': "p' = tick 1 (user s1)"
    by (rule Process_execute_good [OF assms(5) bits assms(9), unfolded assms(6)])
  from flat_branch [OF assms(1-4,7,8) x assms(10)] p' show ?thesis
    unfolding Let_def by (simp add: flat_of_def flat_value_def tick_def)
qed

text \<open>A process that stands at \<open>jz -4\<close>, the bytes 0x74 and 0xFC, with its zero flag set.\<close>

lemma jz_setting: "length [0x74 :: u8, 0xFC] \<le> 15" "xed_ok jz_xed" "pc_plain jz_xed"
  by (simp, simp add: jz_xed_def xed_ok_decode sample_xed_ok)
    (simp add: jz_xed_def pc_plain_def is_stack_pseudo_def sample_xed_simps)

lemma jz_process_runs:
  obtains g' p' where "Process_execute jz_xed sample_host (\<lambda>_. 0) 1 (sample_gstate, idle_process [0x74, 0xFC]) = Some (Inr (), g', p')"
proof (rule Process_runs [OF jz_setting(2,3) idle_process_facts [OF jz_setting(1)]])
  show "gIsInitialized sample_gstate" by (simp add: sample_gstate_def)
  show "code_bytes (flat_of (idle_process [0x74, 0xFC])) (word_of_int (regs (idle_process [0x74, 0xFC])
      (reg_enum_t2str jz_xed (reg jz_xed XED_REG_RIP)))) = [0x74, 0xFC]"
    using idle_code [OF jz_setting(1)] by (simp add: jz_xed_def sample_xed_simps) (simp add: idle_process_def)
  show "xed_decode jz_xed kXEDState64 [0x74, 0xFC] = (True, jz_inst)" by (simp add: jz_xed_def)
  show "memoryless jz_inst" by (simp add: memoryless_def jz_inst_def sample_inst_def)
  have "emulated (get_iform_enum jz_inst)" by (simp add: jz_inst_def)
  then show "get_category jz_inst \<in> {XED_CATEGORY_NOP, XED_CATEGORY_WIDENOP} \<or> emulated (get_iform_enum jz_inst) \<or>
      native_succeeds jz_xed sample_host (Process_executor (\<lambda>_. 0) (idle_process [0x74, 0xFC]))
        (performed_on jz_xed sample_host (Process_executor (\<lambda>_. 0) (idle_process [0x74, 0xFC]))
          (sample_gstate, start (idle_process [0x74, 0xFC])))" by blast
  show "\<not> UsesUnsupportedFeatures (Process_executor (\<lambda>_. 0) (idle_process [0x74, 0xFC])) h" if "gXedd h = jz_inst" for h
    using that by (simp add: UsesUnsupportedFeatures_def UsesUnsupportedAttributes_def jz_inst_def sample_inst_def)
qed simp_all

theorem process_branch_witness:
  "\<exists>g' p'. Process_execute jz_xed sample_host (\<lambda>_. 0) 1 (sample_gstate, idle_process [0x74, 0xFC]) = Some (Inr (), g', p') \<and>
     regs p' ''RIP'' = 0x400FFE \<and> regs p' ''TSC'' = 1 \<and> regs p' ''ZF'' = 1"
proof -
  let ?p = "idle_process [0x74, 0xFC]"
  obtain g' p' where r: "Process_execute jz_xed sample_host (\<lambda>_. 0) 1 (sample_gstate, ?p) = Some (Inr (), g', p')"
    by (rule jz_process_runs)
  have j: "get_iform_enum jz_inst = Jcc JZ RELBRb" "plain_branch jz_xed jz_executor jz_inst JZ jz_rflags" by code_simp+
  have a64: "addr_size jz_executor = 64" "addr_size (flat_machine 64) = 64" by (simp_all add: jz_executor_def flat_machine_def)
  have regs: "pc_reg_of jz_xed (flat_machine 64) = pc_reg_of jz_xed jz_executor"
    "flags_reg_of jz_xed (flat_machine 64) = flags_reg_of jz_xed jz_executor"
    using pc_reg_64 [OF jz_setting(2) a64(1)] pc_reg_64 [OF jz_setting(2) a64(2)]
      flags_reg_64 [OF jz_setting(2) a64(1)] flags_reg_64 [OF jz_setting(2) a64(2)] by simp_all
  have j2: "plain_branch jz_xed (flat_machine 64) jz_inst JZ jz_rflags"
    using j(2) by (simp add: plain_branch_def pc_operands_def regs)
  have fp: "flags_plain jz_xed" by (simp add: jz_xed_def flags_plain_def is_stack_pseudo_def sample_xed_simps)
  have n: "reg_enum_t2str jz_xed (reg jz_xed XED_REG_RIP) = ''RIP''" "get_length jz_inst = 2"
    "get_branch_displacement jz_inst = - 4"
    by code_simp+
  have v: "regs ?p ''RIP'' = 0x401000" "regs ?p ''TSC'' = 0" "regs ?p ''ZF'' = 1"
    by (simp_all add: idle_process_def)
  have z: "cc_holds 4 (flags_word (regs ?p))"
    using bit_flags_word [of "regs ?p"] v(3) by (simp add: cc_holds_def rflags_bits_def flag_def flag_bit_eqs)
  have c: "decodes_at jz_xed (flat_of ?p) jz_inst" by (simp add: decodes_at_def jz_xed_def)
  show ?thesis
    using process_branch [OF jz_setting(2,3) j(1) j2 idle_process_facts(1-3) [OF jz_setting(1)] c r fp] r v
    by (simp add: n z Let_def tick_def)
qed

section \<open>Instructions the processor runs\<close>

definition assign :: "(string \<times> int) list \<Rightarrow> (string \<Rightarrow> int) \<Rightarrow> string \<Rightarrow> int" where
  "assign xs R = fold (\<lambda>(nm, i) R. R(nm := i)) xs R"

text \<open>What an instruction assigns when the processor returns \<open>c\<close>, with the registers \<open>U\<close>: the flags
  and the registers the instruction writes, and the program counter.\<close>

definition computed :: "xed \<Rightarrow> xed_decoded_inst \<Rightarrow> cpu \<Rightarrow> (xed_reg \<Rightarrow> u64) \<Rightarrow> u64 \<Rightarrow> (string \<times> int) list" where
  "computed X d c U pc = map (\<lambda>(nm, b). (nm, of_bool b)) (flag_reports (written_flags d) (cpu_rflags c)) @
     map (\<lambda>r. (reg_enum_t2str X r, uint (U r))) (written_regs X (flat_machine 64) d) @
     [(reg_enum_t2str X (reg X XED_REG_RIP), uint pc)]"

lemma replay_flags:
  "fold flat_write (map (\<lambda>(nm, b). WroteReg nm 1 (of_bool b)) fs) m =
   m\<lparr>flat_regs := assign (map (\<lambda>(nm, b). (nm, of_bool b)) fs) (flat_regs m)\<rparr>"
proof (induction fs arbitrary: m)
  case (Cons f fs)
  have "int_of_bytes (word_bytes 1 (of_bool b :: Data)) = of_bool b" for b by (cases b) (simp_all add: word_bytes_def get_bits_def)
  moreover have "(1 + 7) div 8 = (1 :: nat)" by simp
  ultimately show ?case using Cons.IH by (cases f) (simp add: assign_def)
qed (simp add: assign_def)

lemma replay_registers:
  "fold flat_write (map (\<lambda>r. WroteReg (nm r) 64 (V r)) rs) m =
   m\<lparr>flat_regs := assign (map (\<lambda>r. (nm r, uint (get_bits 0 64 (V r) :: u64))) rs) (flat_regs m)\<rparr>"
proof (induction rs arbitrary: m)
  case (Cons r rs)
  have "(64 + 7) div 8 = (8 :: nat)" by simp
  then show ?case using Cons.IH by (simp add: assign_def int_of_word_bytes)
qed (simp add: assign_def)

lemma assign_append: "assign (xs @ ys) R = assign ys (assign xs R)"
  by (simp add: assign_def)

lemma replay_reports:
  "fold flat_write (reports X E d (written_flags d) (cpu_rflags c) V pc) m =
   m\<lparr>flat_regs := assign (map (\<lambda>(nm, b). (nm, of_bool b)) (flag_reports (written_flags d) (cpu_rflags c)) @
     map (\<lambda>r. (reg_enum_t2str X r, uint (get_bits 0 64 (V r) :: u64))) (written_regs X E d) @
     [(reg_enum_t2str X (reg X XED_REG_RIP), uint (get_bits 0 64 pc :: u64))]) (flat_regs m)\<rparr>"
proof -
  have d: "(64 + 7) div 8 = (8 :: nat)" by simp
  show ?thesis
    unfolding reports_def flag_writes_def fold_append comp_apply replay_flags replay_registers fold_simps id_apply
      flat_write.simps assign_append d int_of_word_bytes
    by (simp add: assign_def)
qed

text \<open>The processor has run an encoding of \<open>d\<close> on the registers \<open>val\<close> and the flags \<open>ans\<close>, and
  has returned \<open>c'\<close>.\<close>

definition processor_ran ::
  "xed \<Rightarrow> host \<Rightarrow> (string \<Rightarrow> u64) \<Rightarrow> (string \<Rightarrow> bool) \<Rightarrow> xed_decoded_inst \<Rightarrow> cpu \<Rightarrow> bool" where
  "processor_ran X H val ans d c' \<longleftrightarrow> (\<exists>g0 bs page c.
     gXedd g0 = d \<and> gEmu g0 = fresh_request d \<and> xed_encode X (gEmu (CreateEncodableInstruction X g0)) = Some bs \<and>
     given X (flat_machine 64) val ans d c \<and>
     run_native H (overwrite bs (overwrite (replicate 32 0xC3) page)) c = Returned c')"

lemma flat_names:
  assumes "addr_size E = 64" and "\<not> has_avx E" and "\<not> has_avx512 E"
  shows "operand_names X E d = operand_names X (flat_machine 64) d" and "written_regs X E d = written_regs X (flat_machine 64) d"
proof -
  have F: "addr_size (flat_machine 64) = 64" "\<not> has_avx (flat_machine 64)" "\<not> has_avx512 (flat_machine 64)"
    by (simp_all add: flat_machine_def)
  have "WidestRegister X E = WidestRegister X (flat_machine 64)"
    unfolding WidestRegister_def Let_def by (simp only: assms F)
  then show "operand_names X E d = operand_names X (flat_machine 64) d" "written_regs X E d = written_regs X (flat_machine 64) d"
    by (simp_all add: operand_names_def written_regs_def written_names_def marked_names_def cache_name_def flags_reg_of_def Let_def)
qed

lemma flat_compute:
  assumes "xed_ok X" and "pc_plain X" and "native_regs_ok X" and "returns_gprs H" and "computes X d"
    and "flat_segments m" and "decodes_at X m d" and "Execute X H (flat_machine 64) 1 (g, m) = Some (kGood, g', m')"
  shows "\<exists>c U. processor_ran X H (flat_value m) (\<lambda>nm. odd (flat_regs m nm)) d c \<and>
    (\<forall>(n, v) \<in> set (zip native_gprs (cpu_gprs c)). U (reg X n) = v) \<and>
    m' = m\<lparr>flat_regs := assign (computed X d c U
      (flat_value m (reg_enum_t2str X (reg X XED_REG_RIP)) + of_nat (get_length d))) (flat_regs m)\<rparr>"
proof -
  let ?E = "stopped (flat_machine 64) m" and ?RIP = "reg_enum_t2str X (reg X XED_REG_RIP)"
  let ?pc = "flat_value m ?RIP + of_nat (get_length d)"
  obtain ws where e: "Execute X H (logged ?E) 1 (g, (), []) = Some (kGood, g', (), ws)"
    and m': "m' = fold flat_write ws m"
    by (rule Execute_one_stopped [OF flat_machine_machine assms(8)])
  have E: "addr_size ?E = 64" "\<not> has_avx ?E" "\<not> has_avx512 ?E" by (simp_all add: flat_machine_def)
  have code: "code_at X ?E (flat_value m ?RIP) d"
    by (rule code_at_stopped [OF assms(1,6)]) (use assms(7) in \<open>simp add: decodes_at_def\<close>)
  note names = flat_names [OF E]
  obtain g0 bs c ws' where g0: "gXedd g0 = d" "gEmu g0 = fresh_request d" "xed_encode X (gEmu (CreateEncodableInstruction X g0)) = Some bs"
    and c: "given X ?E (flat_value m) (\<lambda>nm. odd (flat_regs m nm)) d c"
    and r: "ran X H ?E d (written_flags d) bs c ?pc ws'" and ws: "ws = [] @ ws'"
    using compute_writes [OF assms(1-4) E stopped_serves stopped_flags code assms(5) e] by blast
  obtain page c' V pc where c': "run_native H (overwrite bs (overwrite (replicate 32 0xC3) page)) c = Returned c'"
    and V: "\<forall>(n, v) \<in> set (zip native_gprs (cpu_gprs c')). get_bits 0 64 (V (reg X n)) = v"
    and pc: "get_bits 0 64 pc = ?pc" and w: "ws' = reports X ?E d (written_flags d) (cpu_rflags c') V pc"
    using r unfolding ran_def by blast
  let ?U = "\<lambda>r. get_bits 0 64 (V r)"
  have "m' = m\<lparr>flat_regs := assign (computed X d c' ?U ?pc) (flat_regs m)\<rparr>"
    using m' replay_reports [of X ?E d c' V pc m] names
    by (simp add: ws w pc computed_def)
  moreover have "processor_ran X H (flat_value m) (\<lambda>nm. odd (flat_regs m nm)) d c'"
    unfolding processor_ran_def using g0 c c' names by (intro exI conjI) (simp_all add: given_def)
  ultimately show ?thesis using V by (intro exI [of _ c'] exI [of _ ?U]) simp
qed

text \<open>
  C5: a computation of a process: when a 64-bit process with flat segments stands at an
  instruction on registers that is not emulated and \<open>execute\<close> returns, then the processor
  has run an encoding of the instruction on the registers and flags of the process, and the
  registers of the process have become what the processor has left in them: the flags and
  the registers the instruction writes, and the program counter moved past it, one after the
  other. No byte of its memory has changed.
\<close>

theorem process_compute:
  assumes "xed_ok X" and "pc_plain X" and "native_regs_ok X" and "returns_gprs H" and "computes X d"
    and "valid_memory (proc_memory p)" and "mem_bits (proc_memory p) = 64" and "flat_segments (flat_of p)"
    and "decodes_at X (flat_of p) d" and "Process_execute X H fd 1 (g, p) = Some (Inr (), g', p')"
  shows "\<exists>c U. processor_ran X H (\<lambda>nm. word_of_int (regs p nm)) (\<lambda>nm. odd (regs p nm)) d c \<and>
    (\<forall>(n, v) \<in> set (zip native_gprs (cpu_gprs c)). U (reg X n) = v) \<and>
    regs p' = regs (tick 1 (p\<lparr>regs := assign (computed X d c U
      (word_of_int (regs p (reg_enum_t2str X (reg X XED_REG_RIP))) + of_nat (get_length d))) (regs p)\<rparr>)) \<and>
    byte_at (proc_memory p') = byte_at (proc_memory p) \<and> fpu_data p' = fpu_data p"
proof -
  have bits: "mem_bits (proc_memory p) \<in> {32, 64}" using assms(7) by simp
  obtain s1 :: "process pystate" where x: "Execute X H (flat_machine 64) 1 (g, flat_of p) = Some (kGood, g', flat_of (user s1))"
    and p': "p' = tick 1 (user s1)"
    by (rule Process_execute_good [OF assms(6) bits assms(10), unfolded assms(7)])
  have val: "flat_value (flat_of p) = (\<lambda>nm. word_of_int (regs p nm))" "flat_regs (flat_of p) = regs p"
    by (auto simp: flat_value_def flat_of_def)
  obtain c U where c: "processor_ran X H (\<lambda>nm. word_of_int (regs p nm)) (\<lambda>nm. odd (regs p nm)) d c"
    "\<forall>(n, v) \<in> set (zip native_gprs (cpu_gprs c)). U (reg X n) = v"
    and m: "flat_of (user s1) = (flat_of p)\<lparr>flat_regs := assign (computed X d c U
      (word_of_int (regs p (reg_enum_t2str X (reg X XED_REG_RIP))) + of_nat (get_length d))) (regs p)\<rparr>"
    using flat_compute [OF assms(1-5,8,9) x] unfolding val by blast
  from c show ?thesis by (intro exI [of _ c] exI [of _ U]) (use m p' in \<open>simp add: flat_of_def tick_def\<close>)
qed

text \<open>A process that stands at \<open>add rcx, rax\<close>, the bytes 0x48, 0x01 and 0xC1.\<close>

lemma add_code: "length [0x48 :: u8, 0x01, 0xC1] \<le> 15"
  by simp

lemma add_process_runs:
  obtains g' p' where "Process_execute add_xed add_host (\<lambda>_. 0) 1 (sample_gstate, idle_process [0x48, 0x01, 0xC1]) = Some (Inr (), g', p')"
proof (rule Process_runs [OF add_setting(1,2) idle_process_facts [OF add_code]])
  show "gIsInitialized sample_gstate" by (simp add: sample_gstate_def)
  show "code_bytes (flat_of (idle_process [0x48, 0x01, 0xC1])) (word_of_int (regs (idle_process [0x48, 0x01, 0xC1])
      (reg_enum_t2str add_xed (reg add_xed XED_REG_RIP)))) = [0x48, 0x01, 0xC1]"
    using idle_code [OF add_code] by (simp add: add_xed_def sample_xed_simps) (simp add: idle_process_def)
  show "xed_decode add_xed kXEDState64 [0x48, 0x01, 0xC1] = (True, add_inst)" by (simp add: add_xed_def)
  show "memoryless add_inst" by (simp add: memoryless_def add_inst_def sample_inst_def)
  have "runs_natively add_xed add_host (Process_executor (\<lambda>_. 0) (idle_process [0x48, 0x01, 0xC1])) (snd (xed_decode add_xed st bs))" for st bs
    by (simp add: runs_natively_def memoryless_def add_inst_def always_encodes_def never_faults_def add_xed_def add_host_def
        sample_xed_def sample_host_def Process_executor_fields)
  from performed_natively [OF this] show "get_category add_inst \<in> {XED_CATEGORY_NOP, XED_CATEGORY_WIDENOP} \<or>
      emulated (get_iform_enum add_inst) \<or>
      native_succeeds add_xed add_host (Process_executor (\<lambda>_. 0) (idle_process [0x48, 0x01, 0xC1]))
        (performed_on add_xed add_host (Process_executor (\<lambda>_. 0) (idle_process [0x48, 0x01, 0xC1]))
          (sample_gstate, start (idle_process [0x48, 0x01, 0xC1])))" by blast
  show "\<not> UsesUnsupportedFeatures (Process_executor (\<lambda>_. 0) (idle_process [0x48, 0x01, 0xC1])) h" if "gXedd h = add_inst" for h
    using that by (simp add: UsesUnsupportedFeatures_def UsesUnsupportedAttributes_def add_inst_def sample_inst_def)
qed simp_all

theorem process_compute_witness:
  "\<exists>g' p'. Process_execute add_xed add_host (\<lambda>_. 0) 1 (sample_gstate, idle_process [0x48, 0x01, 0xC1]) = Some (Inr (), g', p') \<and>
     regs p' ''RCX'' = 12 \<and> regs p' ''CF'' = 1 \<and> regs p' ''ZF'' = 0 \<and> regs p' ''RIP'' = 0x401003 \<and> regs p' ''TSC'' = 1"
proof -
  let ?p = "idle_process [0x48, 0x01, 0xC1]"
  obtain g' p' where r: "Process_execute add_xed add_host (\<lambda>_. 0) 1 (sample_gstate, ?p) = Some (Inr (), g', p')"
    by (rule add_process_runs)
  have d: "decodes_at add_xed (flat_of ?p) add_inst" by (simp add: decodes_at_def add_xed_def)
  let ?val = "\<lambda>nm. word_of_int (regs ?p nm) :: u64"
  obtain c' U where ran: "processor_ran add_xed add_host ?val (\<lambda>nm. odd (regs ?p nm)) add_inst c'"
    and U: "\<forall>(n, v) \<in> set (zip native_gprs (cpu_gprs c')). U (reg add_xed n) = v"
    and p': "regs p' = regs (tick 1 (?p\<lparr>regs := assign (computed add_xed add_inst c' U
      (word_of_int (regs ?p (reg_enum_t2str add_xed (reg add_xed XED_REG_RIP))) + of_nat (get_length add_inst))) (regs ?p)\<rparr>))"
    using process_compute [OF add_setting(1-4,11) idle_process_facts(1-3) [OF add_code] d r] by blast
  obtain area c where c: "given add_xed (flat_machine 64) ?val (\<lambda>nm. odd (regs ?p nm)) add_inst c"
    and c': "run_native add_host area c = Returned c'"
    using ran unfolding processor_ran_def by blast
  note names = flat_names [OF add_setting(5-7), of add_xed add_inst]
  have o: "reg add_xed XED_REG_RCX \<in> operand_names add_xed (flat_machine 64) add_inst"
    "reg add_xed XED_REG_RAX \<in> operand_names add_xed (flat_machine 64) add_inst" unfolding names [symmetric] by code_simp+
  have w: "written_regs add_xed (flat_machine 64) add_inst = [12]" unfolding names [symmetric] by code_simp
  have n: "reg_enum_t2str add_xed (reg add_xed XED_REG_RIP) = ''RIP''"
    "reg_enum_t2str add_xed 12 = ''RCX''" "flag_reports (written_flags add_inst) 1 = [(''CF'', True), (''ZF'', False)]"
    "reg add_xed XED_REG_RCX = 12" "?val (reg_enum_t2str add_xed (reg add_xed XED_REG_RCX)) = 5"
    "?val (reg_enum_t2str add_xed (reg add_xed XED_REG_RAX)) = 7" "get_length add_inst = 3" "regs ?p ''RIP'' = 0x401000" "regs ?p ''TSC'' = 0"
    by (code_simp, code_simp, code_simp, code_simp, simp_all add: idle_process_def add_xed_def sample_xed_simps add_inst_def)
  have l: "length (cpu_gprs c) = 15" using c by (simp add: given_def)
  have v: "cpu_gprs c ! 2 = 5" "cpu_gprs c ! 0 = 7"
    using given_gpr [OF c add_gprs(1) [OF l] o(1)] given_gpr [OF c add_gprs(2) [OF l] o(2)] unfolding n(5,6) .
  have "cpu_gprs c' = (cpu_gprs c)[2 := 12]" "cpu_rflags c' = 1" using c' v by (auto simp: add_host_def)
  then have "U 12 = 12" "cpu_rflags c' = 1" using U add_gprs(1) [of "cpu_gprs c'"] l by (auto simp: n(4))
  then show ?thesis using r p' by (simp add: n(1-3,7-9) w computed_def assign_def tick_def)
qed

end
