(* ===== verification/Spec2Isabelle.thy ===== *)
theory Spec2Isabelle
  imports Compute Signals Windows ProcessStack ProcessBranch
begin

text \<open>
  A model of microx, a C++ library that executes single x86 and x86-64 instructions on
  behalf of an embedding program, with the properties that make it correct.

  \<^bold>\<open>The program.\<close> The embedding program derives a class from \<open>Executor\<close>
  (\<open>src/microx/include/microx/Executor.h\<close>) whose virtual methods read and write the
  registers, the memory and the FPU of a machine it simulates. \<open>Executor::Execute\<close>
  (\<open>src/microx/Executor.cpp\<close>) then runs instructions of that machine one at a time:
  ask for the program counter, fetch at most 15 bytes, decode them with XED, refuse what
  is not supported, ask for the flags and registers the instruction reads, ask for its
  memory operands, emulate the instruction or encode a copy of it that works on cached
  registers and run that copy natively, and report memory, FPU, flags and registers
  back. Everything between two calls of the virtual methods lives in global variables,
  guarded by one lock. \<open>src/microx/Python.cpp\<close> is a Python binding: an executor whose
  virtual methods call the methods of a Python object.

  \<^bold>\<open>Shape of the model.\<close> The globals are a record \<open>gstate\<close>, the state of the embedding
  program is a type variable \<open>'s\<close>, and a member function of the executor is a function
  of the pair of both, the \<open>world\<close>, which it returns updated. A function returning
  \<open>bool\<close> yields a Boolean and a world; \<open>if (!f()) return error\<close> is the combinator
  \<open>or_return\<close>, \<open>for\<close> loops that stop at the first failure are \<open>each\<close>, both of
  \<open>Prelude\<close>. Machine integers are words; a C++ object that is accessed at several widths
  (\<open>Data\<close>, 64 bytes; \<open>FPU\<close>, 512 bytes) is one word with \<open>get_bits\<close> and \<open>put_bits\<close>.
  Results of \<open>Execute\<close> are \<open>None\<close> where the C++ program does not return (it writes through
  a null pointer, or a signal is raised that it does not catch), and otherwise a value of
  \<open>ExecutorStatus\<close> and a world.

  \<^bold>\<open>Theories, in the order of the code.\<close>

  \<^item> \<open>Prelude\<close>: widths, bit fields, bytes; the locale \<open>cell\<close> of a readable and writable
    field with its laws, \<open>cell_pair\<close> of two fields that do not overlap, and
    \<open>step_relation\<close> of a relation between worlds that loops and sequences keep.
  \<^item> \<open>Layout\<close>: the packed structs and unions of \<open>Executor.h\<close> (\<open>FPUStatusWord\<close> to
    \<open>FpuFXSAVE64\<close>) and the \<open>Flags\<close> union as lists of named fields; the
    \<open>static_assert\<close>s of the header are the lemma \<open>static_asserts\<close>.
  \<^item> \<open>Xed\<close>: the enumerations of XED the code names, the decoded instruction and the
    encoder request as records, and XED's functions as a record \<open>xed\<close> of parameters.
  \<^item> \<open>Machine\<close>: the class \<open>Executor\<close> as a record of functions over \<open>'s\<close>, the globals
    (\<open>gXedd\<close> to \<open>gIsInitialized\<close>), the processor and process the library runs on
    (\<open>host\<close>), and the condition \<open>xed_ok\<close> on XED's register tables.
  \<^item> \<open>Sample\<close>: concrete instances of \<open>xed\<close>, \<open>host\<close>, executor and globals, which the
    witnesses evaluate on.
  \<^item> \<open>Registers\<close>: \<open>WidestRegister\<close>, \<open>ReadRegister\<close>, \<open>ReadRegisters\<close>, \<open>ReadGPR\<close>,
    \<open>WriteGPR\<close>, \<open>WriteRegisters\<close>. Register slots are interpretations of \<open>cell\<close>.
  \<^item> \<open>Rflags\<close>: \<open>ReadFlags\<close>, \<open>ParityFlag\<close>, \<open>UpdateFlagsSub\<close>, \<open>READ_FLAG\<close>,
    \<open>WRITE_FLAG\<close>, \<open>WriteFlags\<close>. The places of the flags in RFLAGS are stated on their own in
    \<open>rflags_bits\<close>, and the properties of the flags refer to that table.
  \<^item> \<open>MemOps\<close>: \<open>GetBitOpByteOffset\<close>, both \<open>ReadMemory\<close>, \<open>WriteMemory\<close>, \<open>ReadPC\<close> to
    \<open>GetSignedImmediate\<close>.
  \<^item> \<open>Emulation\<close>: \<open>STOS\<close> to \<open>REP\<close> and every case of the \<open>switch\<close> of \<open>Emulate\<close>, in four
    groups (conditional branches, other control flow, strings, stack).
  \<^item> \<open>Support\<close>: \<open>SetNextPC\<close>, \<open>UsesUnsupportedAttributes\<close>, \<open>UsesUnsupportedFeatures\<close>.
  \<^item> \<open>Encode\<close>: \<open>DecodeInstruction\<close>, the encoder request (\<open>DecodeMem0\<close> to
    \<open>EncodeInstruction\<close>, the stack pointer's alias among them), the MMX registers in the
    FPU image.
  \<^item> \<open>Native\<close>: \<open>LoadFPU\<close>, \<open>StoreFPU\<close>, \<open>ExecuteNative\<close> with its inline assembly as an
    exchange of registers, the calls of \<open>sigaction\<close> on the process's table of handlers
    (\<open>disposition\<close>), \<open>RecoverFromError\<close>, the \<open>switch\<close> on the signal. \<open>Windows\<close>: the same
    run on Windows, with \<open>VectoredHandler\<close> and the \<open>switch\<close> on the exception code.
  \<^item> \<open>Exec\<close>: \<open>Init\<close> and \<open>Execute\<close>, whose loop body is cut at its early returns into
    \<open>ExecuteOne\<close>, \<open>FetchInstruction\<close>, \<open>decoded\<close>, \<open>operate\<close>, \<open>perform\<close>, \<open>commit\<close> and
    \<open>report_back\<close>.
  \<^item> \<open>PyBind\<close>: \<open>PythonExecutor\<close>, \<open>Executor_init\<close>, \<open>Executor_Execute\<close>, the exceptions
    and the module initialisation.
  \<^item> \<open>EmulationProps\<close>, \<open>StackProps\<close>, \<open>EncodeProps\<close>, \<open>NativeProps\<close>: what these parts do,
    operation by operation.
  \<^item> \<open>ExecProps\<close>: the locale \<open>reader\<close> of executors whose reading methods keep an
    observation, interpreted on executors with a log of their writes; the order of the
    writes of an instruction. \<open>Lifecycle\<close>: initialisation and repeated execution.
    \<open>EndToEnd\<close>, \<open>Branch\<close>, \<open>Push\<close>, \<open>Pop\<close>, \<open>Compute\<close>: instructions from the call of
    \<open>Execute\<close> to the reports (a NOP, conditional branches, a push, a pop, and the
    instructions on registers that the processor runs), over \<open>Reports\<close> (which registers are
    reported, in which order and with which values) and \<open>Stack\<close> (what pushes and pops have
    in common: the gathering of the register, of the stack pointer and of the cell).
    \<open>Coherence\<close>: the cached registers are those of a machine that
    answers consistently. \<open>Obliging\<close>: the locale \<open>willing\<close> of executors that refuse no
    request for registers or the FPU while a condition holds which their methods keep, with
    a calculus of phases that end well (\<open>assures\<close>). Instructions complete on them if what lies
    outside of the library goes well for the instruction at hand (\<open>completes_at\<close>,
    \<open>run_completes\<close>): XED decodes the bytes fetched and encodes the request made, if one is,
    and the processor runs the page without a fault, in the globals the instruction is then
    performed on (\<open>performed_on\<close>).
    An executor that never refuses anything (\<open>obliging\<close>) is one, a process another.
    \<open>Monitor\<close>: the locale \<open>monitor\<close> of executors that keep a condition while they
    succeed, interpreted on Python executors in \<open>PyProps\<close>.
  \<^item> \<open>Abstraction\<close>: the locale \<open>abstraction\<close> of executors whose methods are those of another
    one seen through a function of the state. \<open>Simulation\<close>: the same for executions that
    succeed, under an invariant. \<open>Snapshot\<close>: an instruction on a machine as a transaction.
    \<open>Guarded\<close>: the locale \<open>grantor\<close> of executors that are asked for every address before
    they are told to write to it.
  \<^item> \<open>Process\<close>: the Python package (\<open>ArrayMemoryMap\<close>, \<open>Memory\<close>, \<open>EmptyThread\<close>,
    \<open>Process\<close>). \<open>FlatMemory\<close>: its memory is a memory of bytes (the locale
    \<open>byte_memory\<close>). \<open>ReadOnly\<close>: \<open>Process\<close> as a \<open>grantor\<close>. \<open>FlatMachine\<close>: \<open>Process\<close> as
    an implementation of registers by name and bytes by address. \<open>ProcessPush\<close>: a push
    from the call of \<open>Process.execute\<close> to the process it leaves. \<open>ProcessStack\<close>: a push and
    a pop by one call of \<open>Process.execute\<close>. \<open>ProcessLive\<close>: a process is \<open>willing\<close>, and
    \<open>Process.execute\<close> of an instruction without memory operands returns. \<open>ProcessBranch\<close>:
    a conditional branch, and an instruction the processor runs, from the call of
    \<open>Process.execute\<close> to the process it leaves.
  \<^item> \<open>Locking\<close>: threads that call \<open>Init\<close> and \<open>Execute\<close> under \<open>gExecutorLock\<close>, as an
    inductive step relation in which an iteration of the loop is a step. \<open>Signals\<close>: the
    signal handlers of the process along such runs, and faults of the instruction.

  \<^bold>\<open>What is proved.\<close> Types and layouts: sizes, offsets and disjointness of the packed
  fields. Registers: a write through a view of a register changes its bits only, a
  32-bit write clears the upper half; every register is requested once and before it is
  used; the registers reported are the modified ones with the program counter last.
  Flags: which flags are asked for and reported, the flags of a subtraction. Memory:
  addresses modulo the address width, the operands read and written. Emulation: each
  conditional branch follows the condition code of the architecture, \<open>REP\<close> prefixes
  terminate, calls and returns, pushes and pops are inverse. Encoding: the page holds the
  instruction and a return, its memory operand points at the cached data. Execution: the
  order of writes and the absence of writes on errors, the composition of executions,
  the reports of a branch, of a push and of a natively executed instruction end to end, the
  coherence of the register cache with the machine, and the success of executions when the
  executor refuses nothing. Threads: mutual exclusion, calls are
  serialised, the holder of the lock returns. Signals: the process has its own handlers
  outside the run of an encoded instruction, a fault of which is reported as a status.
  Python: the calling convention of
  \<open>execute\<close>, the values accepted, the round trip of a register. Machines: executors
  related by an abstraction of their states execute alike, an instruction reads the state it
  began with and its writes follow in order. The Python package: maps, loads and stores
  are those of a memory of bytes, \<open>Process.execute\<close> refines an execution on registers and
  bytes, changes no byte that is not writable, pushes a register as the architecture
  says, pops what it has pushed, branches as the condition codes say on the flags of the
  process, leaves in the registers what the processor has computed, and returns from
  supported instructions without memory operands.
  Some properties state behaviour that differs from the architecture or from a comment
  in the code; their texts say so.

  \<^bold>\<open>Parameters and hypotheses.\<close> XED (a third-party library) is the record \<open>xed\<close>: register
  tables, decoder and encoder. \<open>xed_ok\<close> states the facts on register tables the code
  relies on (the 64-bit register encloses the 32-bit one, both exist and differ from the
  other registers named), \<open>encoder_ok\<close> that an instruction has at most 15 bytes whose
  number does not depend on a displacement, \<open>pc_plain\<close> that the program counter is
  neither a stack pseudo-register nor an MMX register, and \<open>flags_plain\<close> the same of the flags
  register. \<open>plain_branch\<close> says what XED reports of a conditional branch: it reads the flags of
  its condition and writes none, and its registers are the program counter and the flags
  register, which is read. The processor and the operating
  system are the record \<open>host\<close> (\<open>windows_host\<close>): what running the page does to the
  registers, what
  \<open>fxsave\<close> and \<open>fxrstor\<close> do, where the static buffers lie, the result of a shift that
  C++ leaves undefined. \<open>addr_ok\<close> is the documented range of \<open>addr_size\<close>, 32 or 64.
  The user's Python methods are the record \<open>pyobject\<close>. \<open>code_at\<close> says which instruction
  XED decodes from the bytes an executor serves at an address, \<open>agen_never_written\<close> that XED
  reports no operand of address generation as written.

  \<^bold>\<open>Loops.\<close> All loops end: over operands, flags, registers and MMX slots they are
  recursions on lists or on the number of registers left, the fetch is a recursion from
  15 bytes down, \<open>Execute\<close> on the number of instructions left. There is no fuel. A
  repeated string instruction is one iteration per execution (its program counter stays),
  so the termination of a \<open>REP\<close> prefix is the theorem \<open>rep_run_count\<close>.

  \<^bold>\<open>Not modelled.\<close> \<open>VirtualProtect\<close> and the critical section of the Windows build (the
  mapping of the page and the lock stand for them); the flags and masks of \<open>sigaction\<close>;
  the tables of XED; texts of error messages and reference
  counts of Python objects; the static \<open>PyTypeObject\<close> and \<open>PyMethodDef\<close> tables; of the
  Python package the names of maps, the classes that only forward their calls
  (\<open>ProxyOperations\<close>, \<open>ProxyMemoryMap\<close>, \<open>ProxyThread\<close>), the conversions of
  \<open>Operations\<close> between kinds of byte strings, and the entries a \<open>defaultdict\<close> inserts for
  pages that are looked up; the examples and the taint policies of \<open>src/godefroid\<close>, which
  are programs in another language; the build scripts.
\<close>

end
